theory Spec2Isabelle
  imports Complex_Main "HOL-Library.Word"
begin

unbundle bit_operations_syntax

section \<open>Values of the source language\<close>

text \<open>
  A \<open>Uint8Array\<close> is a list of 8-bit words. A JavaScript string is a list of 16-bit
  code units (what \<open>charCodeAt\<close> reads). A JavaScript number that holds a byte, an
  index, a length or a sum is a natural number; the bit operators \<open>&\<close>, \<open>|\<close> and
  \<open><<\<close> are only applied to values below \<open>2^31\<close>, where they agree with the
  operations on naturals.
\<close>

type_synonym byte = "8 word"
type_synonym codeunit = "16 word"
type_synonym jsstring = "codeunit list"

text \<open>A string literal of the source, written as an Isabelle string.\<close>

definition js :: "string \<Rightarrow> jsstring" where
  "js s = map (\<lambda>c. of_nat (of_char c)) s"

text \<open>\<open>buffer[index] ?? 0\<close>: an index past the end reads \<open>undefined\<close>, replaced by 0.\<close>

definition byteOrZero :: "byte list \<Rightarrow> nat \<Rightarrow> nat" where
  "byteOrZero buffer index = (if index < length buffer then unat (buffer ! index) else 0)"

text \<open>\<open>buffer[index]\<close> itself: \<open>undefined\<close> (here \<open>None\<close>) past the end.\<close>

definition byteAt :: "byte list \<Rightarrow> nat \<Rightarrow> nat option" where
  "byteAt buffer index = (if index < length buffer then Some (unat (buffer ! index)) else None)"

text \<open>\<open>mask[index] ?? 0\<close> on a \<open>number[]\<close>.\<close>

definition numberOrZero :: "nat list \<Rightarrow> nat \<Rightarrow> nat" where
  "numberOrZero xs index = (if index < length xs then xs ! index else 0)"

section \<open>Results, errors and the tokenizer\<close>

text \<open>The detection result \<open>{ext, mime}\<close>.\<close>

record FileTypeResult =
  ext :: string
  mime :: string

definition ft :: "string \<Rightarrow> string \<Rightarrow> FileTypeResult" where
  "ft e m = \<lparr> ext = e, mime = m \<rparr>"

text \<open>
  What a call can throw: the tokenizer's end-of-stream error, a refused argument, a
  failure inside a decompressor; \<open>OutOfFuel\<close> is the model's own (the nesting bound
  of the recursive detection is used up).
\<close>

datatype error = EndOfStreamError | RangeError | CollaboratorError | OutOfFuel

text \<open>
  Modelled from the spec: the tokenizer (strtok3's \<open>ITokenizer\<close>, not code of the
  repository) is "a positioned byte cursor over a bounded or unbounded source" with
  \<open>peek\<close>, \<open>read\<close>, \<open>skip\<close>, the current \<open>position\<close> and a \<open>size\<close> that may be
  unknown. \<open>source\<close> holds the bytes the source can deliver, \<open>fileSize\<close> is
  \<open>fileInfo.size\<close>.
\<close>

record tokenizer =
  source :: "byte list"
  position :: nat
  fileSize :: "nat option"

definition MAX_SAFE_INTEGER :: nat where
  "MAX_SAFE_INTEGER = 9007199254740991"

text \<open>
  \<open>if (tokenizer.fileInfo.size === undefined) tokenizer.fileInfo.size = Number.MAX_SAFE_INTEGER\<close>
\<close>

definition defaultSize :: "tokenizer \<Rightarrow> tokenizer" where
  "defaultSize tokenizer =
     (case fileSize tokenizer of
        None \<Rightarrow> tokenizer\<lparr> fileSize := Some MAX_SAFE_INTEGER \<rparr>
      | Some n \<Rightarrow> tokenizer)"

text \<open>\<open>tokenizer.fileInfo.size\<close> once it has been defaulted.\<close>

definition sizeOf :: "tokenizer \<Rightarrow> nat" where
  "sizeOf tokenizer = (case fileSize tokenizer of None \<Rightarrow> MAX_SAFE_INTEGER | Some n \<Rightarrow> n)"

text \<open>The bytes from the cursor on.\<close>

definition ahead :: "tokenizer \<Rightarrow> byte list" where
  "ahead tokenizer = drop (position tokenizer) (source tokenizer)"

text \<open>
  Modelled from the spec: "\<open>peek(dst, {length, may_be_less})\<close> fills \<open>dst[0..actual]\<close>
  from \<open>position\<close>; \<open>actual \<le> length\<close>". Every \<open>peekBuffer\<close> of the source passes
  \<open>mayBeLess: true\<close>, so it never fails; the rest of \<open>dst\<close> keeps what it held.
\<close>

definition fillBuffer :: "byte list \<Rightarrow> byte list \<Rightarrow> byte list" where
  "fillBuffer dst bytes = take (length dst) (bytes @ drop (length bytes) dst)"

definition peekBuffer :: "tokenizer \<Rightarrow> byte list \<Rightarrow> nat \<Rightarrow> byte list" where
  "peekBuffer tokenizer dst len = fillBuffer dst (take len (ahead tokenizer))"

text \<open>
  Modelled from the spec: "\<open>read\<close>: same, advances \<open>position\<close> by \<open>actual\<close>", and
  "if \<open>may_be_less = false\<close> and \<open>actual < length\<close>, fails with \<open>EndOfSource\<close>".
  \<open>readBuffer(new Uint8Array(len))\<close> and \<open>readToken\<close> read exactly \<open>len\<close> bytes.
\<close>

definition readBytes :: "tokenizer \<Rightarrow> nat \<Rightarrow> error + (byte list \<times> tokenizer)" where
  "readBytes tokenizer len =
     (if length (ahead tokenizer) < len then Inl EndOfStreamError
      else Inr (take len (ahead tokenizer),
                tokenizer\<lparr> position := position tokenizer + len \<rparr>))"

text \<open>\<open>peekNumber(Token.UINT8)\<close>: the next byte, or end of stream.\<close>

definition peekUINT8 :: "tokenizer \<Rightarrow> error + nat" where
  "peekUINT8 tokenizer =
     (case ahead tokenizer of [] \<Rightarrow> Inl EndOfStreamError | b # _ \<Rightarrow> Inr (unat b))"

text \<open>
  Modelled from the spec: "\<open>skip(n)\<close> advances \<open>position\<close> by exactly \<open>n\<close> or fails
  with \<open>EndOfSource\<close>"; the position never moves backwards ("monotonically
  non-decreasing across read/skip"), so a negative length is refused.
\<close>

definition ignore :: "tokenizer \<Rightarrow> int \<Rightarrow> error + tokenizer" where
  "ignore tokenizer len =
     (if len < 0 then Inl RangeError
      else if length (ahead tokenizer) < nat len then Inl EndOfStreamError
      else Inr (tokenizer\<lparr> position := position tokenizer + nat len \<rparr>))"

text \<open>Fixed-width unsigned integers, big- and little-endian, and the signed \<open>INT32_BE\<close>.\<close>

definition uintBE :: "byte list \<Rightarrow> nat" where
  "uintBE bytes = foldl (\<lambda>acc b. acc * 256 + unat b) 0 bytes"

definition uintLE :: "byte list \<Rightarrow> nat" where
  "uintLE bytes = uintBE (rev bytes)"

definition int32BE :: "byte list \<Rightarrow> int" where
  "int32BE bytes = (let v = int (uintBE bytes) in if v < 2 ^ 31 then v else v - 2 ^ 32)"

text \<open>\<open>readToken\<close> of an unsigned integer of \<open>len\<close> bytes.\<close>

definition readUInt :: "bool \<Rightarrow> nat \<Rightarrow> tokenizer \<Rightarrow> error + (nat \<times> tokenizer)" where
  "readUInt bigEndian len tokenizer =
     (case readBytes tokenizer len of
        Inl e \<Rightarrow> Inl e
      | Inr (bytes, tokenizer') \<Rightarrow>
          Inr (if bigEndian then uintBE bytes else uintLE bytes, tokenizer'))"

text \<open>
  \<open>Token.UINT16_LE.get(this.buffer, off)\<close> and its siblings on the sample buffer (4100
  bytes long, so the reads of the source are in range).
\<close>

definition getUInt :: "bool \<Rightarrow> nat \<Rightarrow> byte list \<Rightarrow> nat \<Rightarrow> nat" where
  "getUInt bigEndian len buffer offset =
     (let bytes = take len (drop offset buffer)
      in if bigEndian then uintBE bytes else uintLE bytes)"

section \<open>Platform and library collaborators\<close>

text \<open>
  Modelled from the spec: services of the platform and of libraries that the detection
  calls and that are not code of the repository. They are parameters of the model; a
  theorem that mentions a platform \<open>E\<close> holds for every one.
  \<^item> \<open>textDecode E label bytes\<close>: the text decoder behind \<open>fixed_string(n, encoding)\<close>
    ("read n bytes, decode under encoding") and \<open>TextDecoder\<close>.
  \<^item> \<open>toLowerCase E s\<close>: \<open>String.prototype.toLowerCase\<close>.
  \<^item> \<open>jsNumber E s\<close>: \<open>Number(s)\<close>, \<open>None\<close> for \<open>NaN\<close>.
  \<^item> \<open>jsonHasFiles E s\<close>: \<open>JSON.parse(s).files\<close> is truthy (false when either step throws).
  \<^item> \<open>gzipInflate E tokenizer\<close>: the gzip inflater, "\<open>inflate(tokenizer) \<rightarrow> byte-stream\<close>":
    the decompressed bytes and the tokenizer as the inflater leaves it.
  \<^item> \<open>zipEntries E tokenizer\<close>: the ZIP walker's entries in order, each a file name with
    its inflated body, and the tokenizer as the walker leaves it.
\<close>

record platform =
  textDecode :: "string \<Rightarrow> byte list \<Rightarrow> jsstring"
  toLowerCase :: "jsstring \<Rightarrow> jsstring"
  jsNumber :: "jsstring \<Rightarrow> real option"
  jsonHasFiles :: "jsstring \<Rightarrow> bool"
  gzipInflate :: "tokenizer \<Rightarrow> error + (byte list \<times> tokenizer)"
  zipEntries :: "tokenizer \<Rightarrow> error + ((jsstring \<times> byte list) list \<times> tokenizer)"

text \<open>
  \<open>new StringType(len, encoding).get(buffer, offset)\<close>: decode the bytes
  \<open>buffer.subarray(offset, offset + len)\<close> (a subarray stops at the end of the buffer).
\<close>

definition StringType_get :: "platform \<Rightarrow> nat \<Rightarrow> string \<Rightarrow> byte list \<Rightarrow> nat \<Rightarrow> jsstring" where
  "StringType_get E len encoding buffer offset = textDecode E encoding (take len (drop offset buffer))"

text \<open>\<open>tokenizer.readToken(new StringType(len, encoding))\<close>.\<close>

definition readString :: "platform \<Rightarrow> nat \<Rightarrow> string \<Rightarrow> tokenizer \<Rightarrow> error + (jsstring \<times> tokenizer)" where
  "readString E len encoding tokenizer =
     (case readBytes tokenizer len of
        Inl e \<Rightarrow> Inl e
      | Inr (bytes, tokenizer') \<Rightarrow> Inr (textDecode E encoding bytes, tokenizer'))"

text \<open>
  A platform for the sample inputs. Every byte decodes to the code unit of the same
  value: what the \<open>latin1\<close> decoder does on every byte and what the \<open>ascii\<close> and
  \<open>utf8\<close> decoders do on bytes below \<open>0x80\<close>. Lower-casing maps \<open>A..Z\<close> to
  \<open>a..z\<close>. \<open>Number\<close> reads a non-empty run of decimal digits. No text is JSON with a
  \<open>files\<close> member, and the two decompressors fail. The sample inputs reach these
  services only where this is what the platform does.
\<close>

definition bytewiseDecode :: "string \<Rightarrow> byte list \<Rightarrow> jsstring" where
  "bytewiseDecode encoding bytes = map ucast bytes"

definition asciiLowerCase :: "jsstring \<Rightarrow> jsstring" where
  "asciiLowerCase s = map (\<lambda>c. if 0x41 \<le> c \<and> c \<le> 0x5A then c + 0x20 else c) s"

definition digitsNumber :: "jsstring \<Rightarrow> real option" where
  "digitsNumber s =
     (if s \<noteq> [] \<and> list_all (\<lambda>c. 0x30 \<le> c \<and> c \<le> 0x39) s
      then Some (real (foldl (\<lambda>acc d. acc * 10 + (unat d - 0x30)) 0 s))
      else None)"

definition samplePlatform :: platform where
  "samplePlatform =
     \<lparr> textDecode = bytewiseDecode,
       toLowerCase = asciiLowerCase,
       jsNumber = digitsNumber,
       jsonHasFiles = (\<lambda>s. False),
       gzipInflate = (\<lambda>tokenizer. Inl CollaboratorError),
       zipEntries = (\<lambda>tokenizer. Inl CollaboratorError) \<rparr>"

section \<open>String primitives of the language\<close>

text \<open>White space and line terminators of ECMAScript (\<open>trim\<close>, \<open>parseInt\<close>, the regex dot).\<close>

definition isLineTerminator :: "codeunit \<Rightarrow> bool" where
  "isLineTerminator c = (c = 0x0A \<or> c = 0x0D \<or> c = 0x2028 \<or> c = 0x2029)"

definition isWhiteSpace :: "codeunit \<Rightarrow> bool" where
  "isWhiteSpace c =
     (c = 0x09 \<or> c = 0x0B \<or> c = 0x0C \<or> c = 0x20 \<or> c = 0xA0 \<or> c = 0x1680
      \<or> (0x2000 \<le> c \<and> c \<le> 0x200A) \<or> c = 0x202F \<or> c = 0x205F \<or> c = 0x3000
      \<or> c = 0xFEFF \<or> isLineTerminator c)"

text \<open>\<open>String.prototype.trim\<close>.\<close>

definition trim :: "jsstring \<Rightarrow> jsstring" where
  "trim s = rev (dropWhile isWhiteSpace (rev (dropWhile isWhiteSpace s)))"

text \<open>
  \<open>s.replace(/\0.*$/, "")\<close>: the leftmost NUL that is followed, up to the end of the
  string, by no line terminator (the dot does not match one, and \<open>$\<close> without the
  \<open>m\<close> flag is the end of the string) is removed together with everything after it.
\<close>

fun replaceNulTail :: "jsstring \<Rightarrow> jsstring" where
  "replaceNulTail [] = []"
| "replaceNulTail (c # cs) =
     (if c = 0 \<and> list_all (\<lambda>d. \<not> isLineTerminator d) cs then []
      else c # replaceNulTail cs)"

definition isOctalDigit :: "codeunit \<Rightarrow> bool" where
  "isOctalDigit c = (0x30 \<le> c \<and> c \<le> 0x37)"

definition octalValue :: "jsstring \<Rightarrow> nat" where
  "octalValue Z = foldl (\<lambda>acc d. acc * 8 + (unat d - 0x30)) 0 Z"

text \<open>
  \<open>Number.parseInt(inputString, 8)\<close>: leading white space is skipped, a sign is read,
  then the longest run of octal digits; no digit gives \<open>NaN\<close> (here \<open>None\<close>).
\<close>

definition parseInt8 :: "jsstring \<Rightarrow> int option" where
  "parseInt8 inputString =
     (case dropWhile isWhiteSpace inputString of
        [] \<Rightarrow> None
      | c # cs \<Rightarrow>
          (let sign = (if c = 0x2D then - 1 else 1);
               S = (if c = 0x2B \<or> c = 0x2D then cs else c # cs);
               Z = takeWhile isOctalDigit S
           in if Z = [] then None else Some (sign * int (octalValue Z))))"

section \<open>util: stringToBytes, tarHeaderChecksumMatches, uint32SyncSafeToken\<close>

text \<open>
  \<open>[...string]\<close>: the string iterator yields one element per code point, so a lead
  surrogate followed by a trail surrogate is one element of two code units.
\<close>

definition isLeadSurrogate :: "codeunit \<Rightarrow> bool" where
  "isLeadSurrogate c = (0xD800 \<le> c \<and> c \<le> 0xDBFF)"

definition isTrailSurrogate :: "codeunit \<Rightarrow> bool" where
  "isTrailSurrogate c = (0xDC00 \<le> c \<and> c \<le> 0xDFFF)"

fun spread :: "jsstring \<Rightarrow> jsstring list" where
  "spread [] = []"
| "spread [c] = [[c]]"
| "spread (c # d # rest) =
     (if isLeadSurrogate c \<and> isTrailSurrogate d then [c, d] # spread rest
      else [c] # spread (d # rest))"

text \<open>\<open>character.charCodeAt(0)\<close> of an element of the spread (never empty).\<close>

definition charCodeAt0 :: "jsstring \<Rightarrow> nat" where
  "charCodeAt0 character = (case character of [] \<Rightarrow> 0 | c # _ \<Rightarrow> unat c)"

definition stringToBytes :: "jsstring \<Rightarrow> string option \<Rightarrow> nat list" where
  "stringToBytes str encoding =
     (if encoding = Some ''utf-16le'' then
        concat (map (\<lambda>cu. let code = unat cu in [code AND 0xff, (drop_bit 8 code) AND 0xff]) str)
      else if encoding = Some ''utf-16be'' then
        concat (map (\<lambda>cu. let code = unat cu in [(drop_bit 8 code) AND 0xff, code AND 0xff]) str)
      else map charCodeAt0 (spread str))"

text \<open>\<open>arrayBuffer[index] ?? 0\<close> for an index that may be negative.\<close>

definition byteOrZeroAt :: "byte list \<Rightarrow> int \<Rightarrow> nat" where
  "byteOrZeroAt arrayBuffer index =
     (if 0 \<le> index then byteOrZero arrayBuffer (nat index) else 0)"

text \<open>
  The two \<open>for\<close> loops run \<open>index\<close> over \<open>offset .. offset + 147\<close> and over
  \<open>offset + 156 .. offset + 511\<close>, adding \<open>arrayBuffer[index] ?? 0\<close> to \<open>sum\<close>.
  The declared sum is read at the fixed index 148.
\<close>

definition tarHeaderChecksumMatches :: "platform \<Rightarrow> byte list \<Rightarrow> int \<Rightarrow> bool" where
  "tarHeaderChecksumMatches E arrayBuffer offset =
     (case parseInt8 (trim (replaceNulTail (StringType_get E 6 ''utf8'' arrayBuffer 148))) of
        None \<Rightarrow> False
      | Some readSum \<Rightarrow>
          (let sum0 = 8 * 0x20;
               sum1 = foldl (\<lambda>sum index. sum + byteOrZeroAt arrayBuffer index) sum0
                        [offset ..offset + 148 - 1];
               sum2 = foldl (\<lambda>sum index. sum + byteOrZeroAt arrayBuffer index) sum1
                        [offset + 156 ..offset + 512 - 1]
           in readSum = int sum2))"

text \<open>\<open>uint32SyncSafeToken.get(buffer, offset)\<close>; its \<open>len\<close> is 4.\<close>

definition uint32SyncSafeToken_get :: "byte list \<Rightarrow> nat \<Rightarrow> nat" where
  "uint32SyncSafeToken_get buffer offset =
     ((byteOrZero buffer (offset + 3)) AND 0x7f)
     OR (push_bit 7 (byteOrZero buffer (offset + 2)))
     OR (push_bit 14 (byteOrZero buffer (offset + 1)))
     OR (push_bit 21 (byteOrZero buffer offset))"

definition uint32SyncSafeToken_len :: nat where
  "uint32SyncSafeToken_len = 4"

section \<open>The pattern predicate\<close>

text \<open>
  \<open>_check(buffer, headers, {offset, mask})\<close>, the loop over \<open>headers.entries()\<close>
  with the running \<open>index\<close>. With a mask both reads fall back to 0; without one the
  header is compared with \<open>buffer[index + offset]\<close> itself, and \<open>undefined\<close> equals
  no number.
\<close>

fun check_loop :: "byte list \<Rightarrow> nat \<Rightarrow> nat list option \<Rightarrow> nat \<Rightarrow> nat list \<Rightarrow> bool" where
  "check_loop buffer offset maskOpt index [] = True"
| "check_loop buffer offset maskOpt index (header # rest) =
     (case maskOpt of
        Some m \<Rightarrow>
          (let maskBit = numberOrZero m index;
               bitVal = byteOrZero buffer (index + offset)
           in if header \<noteq> (maskBit AND bitVal) then False
              else check_loop buffer offset maskOpt (Suc index) rest)
      | None \<Rightarrow>
          (if \<not> (index + offset < length buffer \<and> header = unat (buffer ! (index + offset)))
           then False
           else check_loop buffer offset maskOpt (Suc index) rest))"

definition check :: "byte list \<Rightarrow> nat list \<Rightarrow> nat \<Rightarrow> nat list option \<Rightarrow> bool" where
  "check buffer headers offset maskOpt = check_loop buffer offset maskOpt 0 headers"

text \<open>\<open>checkString(header, {offset, encoding})\<close> on a given sample buffer.\<close>

definition checkString :: "byte list \<Rightarrow> jsstring \<Rightarrow> nat \<Rightarrow> string option \<Rightarrow> bool" where
  "checkString buffer header offset encoding =
     check buffer (stringToBytes header encoding) offset None"

section \<open>Reference definitions for the pattern predicate and the UTF-16 round trip\<close>

text \<open>
  The pattern predicate as the specification words it: every header byte is compared
  with the (masked) sample byte, and a sample index past the end of the buffer reads as
  zero, with or without a mask.
\<close>

definition check_spec :: "byte list \<Rightarrow> nat list \<Rightarrow> nat \<Rightarrow> nat list option \<Rightarrow> bool" where
  "check_spec sample header offset maskOpt =
     list_all
       (\<lambda>i. header ! i =
          (case maskOpt of
             Some m \<Rightarrow> (m ! i) AND byteOrZero sample (offset + i)
           | None \<Rightarrow> byteOrZero sample (offset + i)))
       [0 ..< length header]"

text \<open>
  Modelled from the spec: decoding under UTF-16 ("UTF-16LE low-byte-first with 16-bit
  code units, UTF-16BE high-byte-first; surrogate pairs encoded as two code units").
  No decoder is part of the repository; the round-trip test of the repository decodes
  with the platform's \<open>new TextDecoder(encoding).decode(bytes)\<close>, which is what these
  definitions follow: two bytes make a code unit and a byte left over makes
  \<open>U+FFFD\<close>; a surrogate that is not part of a pair is replaced by \<open>U+FFFD\<close>; a
  byte order mark \<open>U+FEFF\<close> at the start is dropped.
\<close>

fun utf16CodeUnits :: "string \<Rightarrow> nat list \<Rightarrow> jsstring" where
  "utf16CodeUnits encoding (b0 # b1 # rest) =
     (if encoding = ''utf-16le'' then of_nat (b0 + 256 * b1) else of_nat (256 * b0 + b1))
     # utf16CodeUnits encoding rest"
| "utf16CodeUnits encoding [b0] = [0xFFFD]"
| "utf16CodeUnits encoding [] = []"

definition isSurrogate :: "codeunit \<Rightarrow> bool" where
  "isSurrogate c = (isLeadSurrogate c \<or> isTrailSurrogate c)"

fun replaceUnpaired :: "jsstring \<Rightarrow> jsstring" where
  "replaceUnpaired [] = []"
| "replaceUnpaired [c] = [if isSurrogate c then 0xFFFD else c]"
| "replaceUnpaired (c # d # rest) =
     (if isLeadSurrogate c \<and> isTrailSurrogate d then c # d # replaceUnpaired rest
      else (if isSurrogate c then 0xFFFD else c) # replaceUnpaired (d # rest))"

definition stripBOM :: "jsstring \<Rightarrow> jsstring" where
  "stripBOM s = (case s of [] \<Rightarrow> [] | c # rest \<Rightarrow> if c = 0xFEFF then rest else s)"

definition decodeUtf16 :: "string \<Rightarrow> nat list \<Rightarrow> jsstring" where
  "decodeUtf16 encoding bytes = stripBOM (replaceUnpaired (utf16CodeUnits encoding bytes))"

text \<open>
  \<open>String.prototype.isWellFormed\<close>: every lead surrogate is followed by a trail
  surrogate, and every trail surrogate follows a lead surrogate.
\<close>

fun isWellFormed :: "jsstring \<Rightarrow> bool" where
  "isWellFormed [] = True"
| "isWellFormed [c] = (\<not> isSurrogate c)"
| "isWellFormed (c # d # rest) =
     (if isLeadSurrogate c \<and> isTrailSurrogate d then isWellFormed rest
      else \<not> isSurrogate c \<and> isWellFormed (d # rest))"


text \<open>
  The sync-safe value as the specification words it: the high bit of each of the four
  bytes is masked off before the bytes are combined.
\<close>

definition id3_sync_safe_u32 :: "byte \<Rightarrow> byte \<Rightarrow> byte \<Rightarrow> byte \<Rightarrow> nat" where
  "id3_sync_safe_u32 b0 b1 b2 b3 =
     push_bit 21 (unat b0 AND 0x7F) OR push_bit 14 (unat b1 AND 0x7F)
     OR push_bit 7 (unat b2 AND 0x7F) OR (unat b3 AND 0x7F)"

section \<open>Media types found inside archives\<close>

text \<open>
  \<open>getFileTypeFromMimeType\<close>: the \<open>switch\<close> over the lower-cased media type, one row
  per \<open>case\<close>. Where the source returns \<open>mime: mimeType\<close> the row repeats the case
  label, which is what \<open>mimeType\<close> is there.
\<close>

definition mimeTypeCases :: "(string \<times> FileTypeResult) list" where
  "mimeTypeCases = [
    (''application/epub+zip'',
       ft ''epub'' ''application/epub+zip''),
    (''application/vnd.oasis.opendocument.text'',
       ft ''odt'' ''application/vnd.oasis.opendocument.text''),
    (''application/vnd.oasis.opendocument.text-template'',
       ft ''ott'' ''application/vnd.oasis.opendocument.text-template''),
    (''application/vnd.oasis.opendocument.spreadsheet'',
       ft ''ods'' ''application/vnd.oasis.opendocument.spreadsheet''),
    (''application/vnd.oasis.opendocument.spreadsheet-template'',
       ft ''ots'' ''application/vnd.oasis.opendocument.spreadsheet-template''),
    (''application/vnd.oasis.opendocument.presentation'',
       ft ''odp'' ''application/vnd.oasis.opendocument.presentation''),
    (''application/vnd.oasis.opendocument.presentation-template'',
       ft ''otp'' ''application/vnd.oasis.opendocument.presentation-template''),
    (''application/vnd.oasis.opendocument.graphics'',
       ft ''odg'' ''application/vnd.oasis.opendocument.graphics''),
    (''application/vnd.oasis.opendocument.graphics-template'',
       ft ''otg'' ''application/vnd.oasis.opendocument.graphics-template''),
    (''application/vnd.openxmlformats-officedocument.presentationml.slideshow'',
       ft ''ppsx'' ''application/vnd.openxmlformats-officedocument.presentationml.slideshow''),
    (''application/vnd.openxmlformats-officedocument.spreadsheetml.sheet'',
       ft ''xlsx'' ''application/vnd.openxmlformats-officedocument.spreadsheetml.sheet''),
    (''application/vnd.ms-excel.sheet.macroenabled'',
       ft ''xlsm'' ''application/vnd.ms-excel.sheet.macroenabled.12''),
    (''application/vnd.openxmlformats-officedocument.spreadsheetml.template'',
       ft ''xltx'' ''application/vnd.openxmlformats-officedocument.spreadsheetml.template''),
    (''application/vnd.ms-excel.template.macroenabled'',
       ft ''xltm'' ''application/vnd.ms-excel.template.macroenabled.12''),
    (''application/vnd.ms-powerpoint.slideshow.macroenabled'',
       ft ''ppsm'' ''application/vnd.ms-powerpoint.slideshow.macroenabled.12''),
    (''application/vnd.openxmlformats-officedocument.wordprocessingml.document'',
       ft ''docx'' ''application/vnd.openxmlformats-officedocument.wordprocessingml.document''),
    (''application/vnd.ms-word.document.macroenabled'',
       ft ''docm'' ''application/vnd.ms-word.document.macroenabled.12''),
    (''application/vnd.openxmlformats-officedocument.wordprocessingml.template'',
       ft ''dotx'' ''application/vnd.openxmlformats-officedocument.wordprocessingml.template''),
    (''application/vnd.ms-word.template.macroenabledtemplate'',
       ft ''dotm'' ''application/vnd.ms-word.template.macroenabled.12''),
    (''application/vnd.openxmlformats-officedocument.presentationml.template'',
       ft ''potx'' ''application/vnd.openxmlformats-officedocument.presentationml.template''),
    (''application/vnd.ms-powerpoint.template.macroenabled'',
       ft ''potm'' ''application/vnd.ms-powerpoint.template.macroenabled.12''),
    (''application/vnd.openxmlformats-officedocument.presentationml.presentation'',
       ft ''pptx'' ''application/vnd.openxmlformats-officedocument.presentationml.presentation''),
    (''application/vnd.ms-powerpoint.presentation.macroenabled'',
       ft ''pptm'' ''application/vnd.ms-powerpoint.presentation.macroenabled.12''),
    (''application/vnd.ms-visio.drawing'',
       ft ''vsdx'' ''application/vnd.visio''),
    (''application/vnd.ms-package.3dmanufacturing-3dmodel+xml'',
       ft ''3mf'' ''model/3mf'')]"

definition getFileTypeFromMimeType :: "platform \<Rightarrow> jsstring \<Rightarrow> FileTypeResult option" where
  "getFileTypeFromMimeType E mimeType =
     map_of (map (\<lambda>(label, fileType). (js label, fileType)) mimeTypeCases) (toLowerCase E mimeType)"

section \<open>String searches used by the ZIP handler\<close>

text \<open>\<open>s.indexOf(needle)\<close>, \<open>None\<close> for \<open>-1\<close>; the search starts at index \<open>i\<close>.\<close>

fun indexOfFrom :: "nat \<Rightarrow> jsstring \<Rightarrow> jsstring \<Rightarrow> nat option" where
  "indexOfFrom i needle [] = (if needle = [] then Some i else None)"
| "indexOfFrom i needle (c # cs) =
     (if take (length needle) (c # cs) = needle then Some i
      else indexOfFrom (Suc i) needle cs)"

definition indexOf :: "jsstring \<Rightarrow> jsstring \<Rightarrow> nat option" where
  "indexOf s needle = indexOfFrom 0 needle s"

text \<open>\<open>s.lastIndexOf(c)\<close> for a one-character needle, \<open>None\<close> for \<open>-1\<close>.\<close>

definition lastIndexOfChar :: "jsstring \<Rightarrow> codeunit \<Rightarrow> nat option" where
  "lastIndexOfChar s c =
     (case indexOfFrom 0 [c] (rev s) of
        None \<Rightarrow> None
      | Some k \<Rightarrow> Some (length s - 1 - k))"

text \<open>
  \<open>/classes\d*\.dex/.test(filename)\<close>: somewhere in the name stands \<open>classes\<close>, then
  decimal digits, then \<open>.dex\<close>.
\<close>

definition isDecimalDigit :: "codeunit \<Rightarrow> bool" where
  "isDecimalDigit c = (0x30 \<le> c \<and> c \<le> 0x39)"

definition classesDexHere :: "jsstring \<Rightarrow> bool" where
  "classesDexHere s =
     (take 7 s = js ''classes''
      \<and> take 4 (dropWhile isDecimalDigit (drop 7 s)) = js ''.dex'')"

fun classesDexTest :: "jsstring \<Rightarrow> bool" where
  "classesDexTest [] = False"
| "classesDexTest (c # cs) = (classesDexHere (c # cs) \<or> classesDexTest cs)"

section \<open>The ZIP handler's callback\<close>

text \<open>
  The handler of \<open>[Content_Types].xml\<close>: decode the body; without \<open>.main+xml"\<close> in it,
  look for the 3MF content type; otherwise cut the text before \<open>.main+xml"\<close>, take what
  follows the last double quote, and look that media type up.
\<close>

definition contentTypesHandler :: "platform \<Rightarrow> byte list \<Rightarrow> FileTypeResult option" where
  "contentTypesHandler E fileData =
     (let xmlContent = textDecode E ''utf-8'' fileData
      in case indexOf xmlContent (js ''.main+xml'' @ [0x22]) of
           None \<Rightarrow>
             (let mimeType = js ''application/vnd.ms-package.3dmanufacturing-3dmodel+xml''
              in if indexOf xmlContent (js ''ContentType='' @ [0x22] @ mimeType @ [0x22]) \<noteq> None
                 then getFileTypeFromMimeType E mimeType
                 else None)
         | Some endPos \<Rightarrow>
             (let xmlContent' = take endPos xmlContent;
                  mimeType = (case lastIndexOfChar xmlContent' 0x22 of
                                None \<Rightarrow> xmlContent'
                              | Some firstPos \<Rightarrow> drop (firstPos + 1) xmlContent')
              in getFileTypeFromMimeType E mimeType))"

text \<open>
  The callback is asked about every entry in order until one says \<open>stop\<close>. Each of its
  special cases stops, so the walk ends at the first entry that is one of them, with the
  \<open>fileType\<close> that entry sets (the two handlers may set \<open>undefined\<close>).
\<close>

fun zipWalk :: "platform \<Rightarrow> (jsstring \<times> byte list) list \<Rightarrow> FileTypeResult option" where
  "zipWalk E [] = None"
| "zipWalk E ((filename, fileData) # entries) =
     (if filename = js ''META-INF/mozilla.rsa'' then
        Some (ft ''xpi'' ''application/x-xpinstall'')
      else if filename = js ''META-INF/MANIFEST.MF'' then
        Some (ft ''jar'' ''application/java-archive'')
      else if filename = js ''mimetype'' then
        getFileTypeFromMimeType E (trim (textDecode E ''utf-8'' fileData))
      else if filename = js ''[Content_Types].xml'' then
        contentTypesHandler E fileData
      else if classesDexTest filename then
        Some (ft ''apk'' ''application/vnd.android.package-archive'')
      else zipWalk E entries)"

section \<open>Container probes\<close>

subsection \<open>TIFF\<close>

definition readTiffTag :: "bool \<Rightarrow> tokenizer \<Rightarrow> error + (FileTypeResult option \<times> tokenizer)" where
  "readTiffTag bigEndian tokenizer =
     (case readUInt bigEndian 2 tokenizer of
        Inl e \<Rightarrow> Inl e
      | Inr (tagId, t1) \<Rightarrow>
          (case ignore t1 10 of
             Inl e \<Rightarrow> Inl e
           | Inr t2 \<Rightarrow>
               Inr (if tagId = 50341 then Some (ft ''arw'' ''image/x-sony-arw'')
                    else if tagId = 50706 then Some (ft ''dng'' ''image/x-adobe-dng'')
                    else None,
                    t2)))"

text \<open>The \<open>for\<close> loop of \<open>readTiffIFD\<close>; the first argument counts the tags still to read.\<close>

fun readTiffTags :: "bool \<Rightarrow> nat \<Rightarrow> tokenizer \<Rightarrow> error + (FileTypeResult option \<times> tokenizer)" where
  "readTiffTags bigEndian 0 tokenizer = Inr (None, tokenizer)"
| "readTiffTags bigEndian (Suc k) tokenizer =
     (case readTiffTag bigEndian tokenizer of
        Inl e \<Rightarrow> Inl e
      | Inr (Some fileType, t1) \<Rightarrow> Inr (Some fileType, t1)
      | Inr (None, t1) \<Rightarrow> readTiffTags bigEndian k t1)"

definition readTiffIFD :: "bool \<Rightarrow> tokenizer \<Rightarrow> error + (FileTypeResult option \<times> tokenizer)" where
  "readTiffIFD bigEndian tokenizer =
     (case readUInt bigEndian 2 tokenizer of
        Inl e \<Rightarrow> Inl e
      | Inr (numberOfTags, t1) \<Rightarrow>
          (if numberOfTags = 0 then Inr (None, t1)
           else readTiffTags bigEndian numberOfTags t1))"

definition readTiffHeader ::
  "bool \<Rightarrow> byte list \<Rightarrow> tokenizer \<Rightarrow> error + (FileTypeResult option \<times> tokenizer)" where
  "readTiffHeader bigEndian buffer tokenizer =
     (let version = getUInt bigEndian 2 buffer 2;
          ifdOffset = getUInt bigEndian 4 buffer 4;
          someId1 = getUInt bigEndian 2 buffer 8;
          someId2 = getUInt bigEndian 2 buffer 10;
          readIFD =
            (case ignore tokenizer (int ifdOffset) of
               Inl e \<Rightarrow> Inl e
             | Inr t1 \<Rightarrow>
                 (case readTiffIFD bigEndian t1 of
                    Inl e \<Rightarrow> Inl e
                  | Inr (fileType, t2) \<Rightarrow>
                      Inr (Some (case fileType of
                                   Some r \<Rightarrow> r
                                 | None \<Rightarrow> ft ''tif'' ''image/tiff''),
                           t2)))
      in if version = 42 then
           (if ifdOffset \<ge> 6 then
              (if checkString buffer (js ''CR'') 8 None then
                 Inr (Some (ft ''cr2'' ''image/x-canon-cr2''), tokenizer)
               else if ifdOffset \<ge> 8
                       \<and> ((someId1 = 0x1c \<and> someId2 = 0xfe) \<or> (someId1 = 0x1f \<and> someId2 = 0x0b))
               then Inr (Some (ft ''nef'' ''image/x-nikon-nef''), tokenizer)
               else readIFD)
            else readIFD)
         else if version = 43 then Inr (Some (ft ''tif'' ''image/tiff''), tokenizer)
         else Inr (None, tokenizer))"

subsection \<open>EBML (Matroska, WebM)\<close>

text \<open>
  The loop of \<open>readField\<close>:
  \<open>while ((msb & mask) === 0 && mask !== 0) { ++ic; mask >>= 1; }\<close>
\<close>

function fieldWidthLoop :: "nat \<Rightarrow> nat \<Rightarrow> nat \<Rightarrow> nat" where
  "fieldWidthLoop msb msk ic =
     (if msb AND msk = 0 \<and> msk \<noteq> 0 then fieldWidthLoop msb (drop_bit 1 msk) (ic + 1) else ic)"
  by pat_completeness auto
termination
  by (relation "measure (\<lambda>(msb, msk, ic). msk)") (auto simp: drop_bit_eq_div)

definition readField :: "tokenizer \<Rightarrow> error + (byte list \<times> tokenizer)" where
  "readField tokenizer =
     (case peekUINT8 tokenizer of
        Inl e \<Rightarrow> Inl e
      | Inr msb \<Rightarrow> readBytes tokenizer (fieldWidthLoop msb 0x80 0 + 1))"

text \<open>
  \<open>getUintBE(view)\<close> of uint8array-extras reads a view of one to six bytes and returns
  \<open>undefined\<close> for any other length.
\<close>

definition getUintBE :: "byte list \<Rightarrow> nat option" where
  "getUintBE view =
     (if 1 \<le> length view \<and> length view \<le> 6 then Some (uintBE view) else None)"

text \<open>
  \<open>readElement\<close>: the marker bit of the length field is cleared with
  \<open>lengthField[0] ^= 0x80 >> (lengthField.length - 1)\<close>, and the length is read from
  the last \<open>min(6, lengthField.length)\<close> bytes. The id is read from the whole id field.
\<close>

definition readElement :: "tokenizer \<Rightarrow> error + ((nat option \<times> nat) \<times> tokenizer)" where
  "readElement tokenizer =
     (case readField tokenizer of
        Inl e \<Rightarrow> Inl e
      | Inr (idField, t1) \<Rightarrow>
          (case readField t1 of
             Inl e \<Rightarrow> Inl e
           | Inr (lengthField, t2) \<Rightarrow>
               (let lengthField' =
                      lengthField[0 := (lengthField ! 0)
                                         XOR (drop_bit (length lengthField - 1) 0x80)];
                    nrLength = min 6 (length lengthField)
                in Inr ((getUintBE idField,
                         uintBE (drop (length lengthField - nrLength) lengthField')),
                        t2))))"

function readChildren :: "platform \<Rightarrow> nat \<Rightarrow> tokenizer \<Rightarrow> error + (jsstring option \<times> tokenizer)" where
  "readChildren E children tokenizer =
     (if children > 0 then
        (case readElement tokenizer of
           Inl e \<Rightarrow> Inl e
         | Inr ((elementId, elementLen), t1) \<Rightarrow>
             (if elementId = Some 0x4282 then
                (case readString E elementLen ''utf8'' t1 of
                   Inl e \<Rightarrow> Inl e
                 | Inr (rawValue, t2) \<Rightarrow> Inr (Some (replaceNulTail rawValue), t2))
              else
                (case ignore t1 (int elementLen) of
                   Inl e \<Rightarrow> Inl e
                 | Inr t2 \<Rightarrow> readChildren E (children - 1) t2)))
      else Inr (None, tokenizer))"
  by pat_completeness auto
termination
  by (relation "measure (\<lambda>(E, children, tokenizer). children)") auto

definition ebmlArm :: "platform \<Rightarrow> tokenizer \<Rightarrow> error + (FileTypeResult option \<times> tokenizer)" where
  "ebmlArm E tokenizer =
     (case readElement tokenizer of
        Inl e \<Rightarrow> Inl e
      | Inr ((reId, reLen), t1) \<Rightarrow>
          (case readChildren E reLen t1 of
             Inl e \<Rightarrow> Inl e
           | Inr (documentType, t2) \<Rightarrow>
               Inr (if documentType = Some (js ''webm'') then Some (ft ''webm'' ''video/webm'')
                    else if documentType = Some (js ''matroska'') then
                      Some (ft ''mkv'' ''video/matroska'')
                    else None,
                    t2)))"

subsection \<open>Progress of the tokenizer\<close>

lemma readBytes_position:
  "readBytes tokenizer len = Inr (bytes, t1) \<Longrightarrow>
     source t1 = source tokenizer \<and> fileSize t1 = fileSize tokenizer
     \<and> position t1 = position tokenizer + len
     \<and> (0 < len \<longrightarrow> position t1 \<le> length (source tokenizer)) \<and> length bytes = len"
  by (auto simp: readBytes_def ahead_def split: if_splits)

lemma ignore_position:
  "ignore tokenizer len = Inr t1 \<Longrightarrow>
     source t1 = source tokenizer \<and> fileSize t1 = fileSize tokenizer
     \<and> 0 \<le> len \<and> position t1 = position tokenizer + nat len
     \<and> (0 < len \<longrightarrow> position t1 \<le> length (source tokenizer))"
  by (auto simp: ignore_def ahead_def split: if_splits)

lemma readUInt_position:
  "readUInt bigEndian len tokenizer = Inr (v, t1) \<Longrightarrow>
     source t1 = source tokenizer \<and> fileSize t1 = fileSize tokenizer
     \<and> position t1 = position tokenizer + len
     \<and> (0 < len \<longrightarrow> position t1 \<le> length (source tokenizer))"
  by (auto simp: readUInt_def split: sum.splits dest: readBytes_position)

lemma readString_position:
  "readString E len encoding tokenizer = Inr (s, t1) \<Longrightarrow>
     source t1 = source tokenizer \<and> fileSize t1 = fileSize tokenizer
     \<and> position t1 = position tokenizer + len
     \<and> (0 < len \<longrightarrow> position t1 \<le> length (source tokenizer))"
  by (auto simp: readString_def split: sum.splits dest: readBytes_position)

subsection \<open>PNG\<close>

text \<open>
  The \<open>do ... while (tokenizer.position + 8 < tokenizer.fileInfo.size)\<close> loop over the
  chunks, entered after the signature has been skipped. Each round reads a chunk header
  of eight bytes, so the bytes left to read shrink.
\<close>

function pngChunks :: "platform \<Rightarrow> tokenizer \<Rightarrow> error + (FileTypeResult option \<times> tokenizer)" where
  "pngChunks E tokenizer =
     (case readBytes tokenizer 4 of
        Inl e \<Rightarrow> Inl e
      | Inr (lengthBytes, t1) \<Rightarrow>
          (case readString E 4 ''latin1'' t1 of
             Inl e \<Rightarrow> Inl e
           | Inr (chunkType, t2) \<Rightarrow>
               (if int32BE lengthBytes < 0 then Inr (None, t2)
                else if chunkType = js ''IDAT'' then Inr (Some (ft ''png'' ''image/png''), t2)
                else if chunkType = js ''acTL'' then Inr (Some (ft ''apng'' ''image/apng''), t2)
                else
                  (case ignore t2 (int32BE lengthBytes + 4) of
                     Inl e \<Rightarrow> Inl e
                   | Inr t3 \<Rightarrow>
                       (if position t3 + 8 < sizeOf t3 then pngChunks E t3
                        else Inr (Some (ft ''png'' ''image/png''), t3))))))"
  by pat_completeness auto
termination
proof (relation "measure (\<lambda>(E, tokenizer). length (source tokenizer) - position tokenizer)")
  show "wf (measure (\<lambda>(E, tokenizer). length (source tokenizer) - position tokenizer))"
    by simp
next
  fix E :: platform and tokenizer x2 lengthBytes t1 x2a chunkType t2 t3
  assume a: "readBytes tokenizer 4 = Inr x2" "(lengthBytes, t1) = x2"
    "readString E 4 ''latin1'' t1 = Inr x2a" "(chunkType, t2) = x2a"
    "ignore t2 (int32BE lengthBytes + 4) = Inr t3"
  from a(1,2) have r1: "readBytes tokenizer 4 = Inr (lengthBytes, t1)" by simp
  from a(3,4) have r2: "readString E 4 ''latin1'' t1 = Inr (chunkType, t2)" by simp
  show "((E, t3), E, tokenizer)
          \<in> measure (\<lambda>(E, tokenizer). length (source tokenizer) - position tokenizer)"
    using readBytes_position [OF r1] readString_position [OF r2] ignore_position [OF a(5)]
    by auto
qed

definition pngArm :: "platform \<Rightarrow> tokenizer \<Rightarrow> error + (FileTypeResult option \<times> tokenizer)" where
  "pngArm E tokenizer =
     (case ignore tokenizer 8 of
        Inl e \<Rightarrow> Inl e
      | Inr t1 \<Rightarrow> pngChunks E t1)"

subsection \<open>ASF\<close>

text \<open>
  The \<open>while (tokenizer.position + 24 < tokenizer.fileInfo.size)\<close> loop over the header
  objects, entered after 30 bytes have been skipped. \<open>readHeader\<close> reads a GUID of 16
  bytes and a 64-bit little-endian size; \<open>break\<close> leaves the loop for the generic result.
\<close>

function asfObjects :: "tokenizer \<Rightarrow> error + (FileTypeResult option \<times> tokenizer)" where
  "asfObjects tokenizer =
     (if position tokenizer + 24 < sizeOf tokenizer then
        (case readBytes tokenizer 16 of
           Inl e \<Rightarrow> Inl e
         | Inr (guid, t1) \<Rightarrow>
             (case readUInt False 8 t1 of
                Inl e \<Rightarrow> Inl e
              | Inr (headerSize, t2) \<Rightarrow>
                  (let payload = int headerSize - 24
                   in if check guid [0x91, 0x07, 0xdc, 0xb7, 0xb7, 0xa9, 0xcf, 0x11, 0x8e, 0xe6,
                                     0x00, 0xc0, 0x0c, 0x20, 0x53, 0x65] 0 None
                      then
                        (case readBytes t2 16 of
                           Inl e \<Rightarrow> Inl e
                         | Inr (typeId, t3) \<Rightarrow>
                             (if check typeId [0x40, 0x9e, 0x69, 0xf8, 0x4d, 0x5b, 0xcf, 0x11,
                                               0xa8, 0xfd, 0x00, 0x80, 0x5f, 0x5c, 0x44, 0x2b] 0 None
                              then Inr (Some (ft ''asf'' ''audio/x-ms-asf''), t3)
                              else if check typeId [0xc0, 0xef, 0x19, 0xbc, 0x4d, 0x5b, 0xcf, 0x11,
                                                    0xa8, 0xfd, 0x00, 0x80, 0x5f, 0x5c, 0x44, 0x2b] 0 None
                              then Inr (Some (ft ''asf'' ''video/x-ms-asf''), t3)
                              else Inr (Some (ft ''asf'' ''application/vnd.ms-asf''), t3)))
                      else
                        (case ignore t2 payload of
                           Inl e \<Rightarrow> Inl e
                         | Inr t3 \<Rightarrow> asfObjects t3))))
      else Inr (Some (ft ''asf'' ''application/vnd.ms-asf''), tokenizer))"
  by pat_completeness auto
termination
proof (relation "measure (\<lambda>tokenizer. length (source tokenizer) - position tokenizer)")
  show "wf (measure (\<lambda>tokenizer. length (source tokenizer) - position tokenizer))"
    by simp
next
  fix tokenizer x2 guid t1 x2a headerSize t2 payload t3
  assume a: "readBytes tokenizer 16 = Inr x2" "(guid, t1) = x2"
    "readUInt False 8 t1 = Inr x2a" "(headerSize, t2) = x2a"
    "payload = int headerSize - 24" "ignore t2 payload = Inr t3"
  from a(1,2) have r1: "readBytes tokenizer 16 = Inr (guid, t1)" by simp
  from a(3,4) have r2: "readUInt False 8 t1 = Inr (headerSize, t2)" by simp
  show "(t3, tokenizer) \<in> measure (\<lambda>tokenizer. length (source tokenizer) - position tokenizer)"
    using readBytes_position [OF r1] readUInt_position [OF r2] ignore_position [OF a(6)]
    by auto
qed

definition asfArm :: "tokenizer \<Rightarrow> error + (FileTypeResult option \<times> tokenizer)" where
  "asfArm tokenizer =
     (case ignore tokenizer 30 of
        Inl e \<Rightarrow> Inl e
      | Inr t1 \<Rightarrow> asfObjects t1)"

text \<open>The equations of the loops are unfolded by hand, one turn at a time.\<close>

declare fieldWidthLoop.simps [simp del]
declare readChildren.simps [simp del]
declare pngChunks.simps [simp del]
declare asfObjects.simps [simp del]

section \<open>The arms of the confident detector that only read the sample\<close>

text \<open>
  Each definition below is one arm of \<open>detectConfident\<close> that may fall through to the
  next arm: \<open>Some\<close> is the \<open>return\<close> of a result, \<open>None\<close> is falling through.
\<close>

definition jpegArm :: "byte list \<Rightarrow> FileTypeResult option" where
  "jpegArm buffer =
     (if check buffer [0xff, 0xd8, 0xff] 0 None then
        (if check buffer [0xf7] 3 None then Some (ft ''jls'' ''image/jls'')
         else Some (ft ''jpg'' ''image/jpeg''))
      else None)"

definition mpegPsArm :: "byte list \<Rightarrow> FileTypeResult option" where
  "mpegPsArm buffer =
     (if check buffer [0x00, 0x00, 0x01, 0xba] 0 None then
        (if check buffer [0x21] 4 (Some [0xf1]) then Some (ft ''mpg'' ''video/MP1S'')
         else if check buffer [0x44] 4 (Some [0xc4]) then Some (ft ''mpg'' ''video/MP2P'')
         else None)
      else None)"

text \<open>
  \<open>version.match("^d*")\<close> is always truthy (the pattern matches the empty string at the
  start), so the arm is decided by \<open>Number(version)\<close> alone.
\<close>

definition dwgArm :: "platform \<Rightarrow> byte list \<Rightarrow> FileTypeResult option" where
  "dwgArm E buffer =
     (if checkString buffer (js ''AC'') 0 None then
        (let version = StringType_get E 4 ''latin1'' buffer 2
         in case jsNumber E version of
              None \<Rightarrow> None
            | Some v \<Rightarrow>
                (if v \<ge> 1000 \<and> v \<le> 1050 then Some (ft ''dwg'' ''image/vnd.dwg'') else None))
      else None)"

definition vttArm :: "byte list \<Rightarrow> FileTypeResult option" where
  "vttArm buffer =
     (if checkString buffer (js ''WEBVTT'') 0 None
         \<and> list_ex (\<lambda>char7. checkString buffer [char7] 6 None) [0x0A, 0x0D, 0x09, 0x20, 0x00]
      then Some (ft ''vtt'' ''text/vtt'')
      else None)"

text \<open>\<open>s.replace("\0", " ")\<close>: the first NUL becomes a space.\<close>

fun replaceFirstNul :: "jsstring \<Rightarrow> jsstring" where
  "replaceFirstNul [] = []"
| "replaceFirstNul (c # cs) = (if c = 0 then 0x20 # cs else c # replaceFirstNul cs)"

definition ftypArm :: "platform \<Rightarrow> byte list \<Rightarrow> FileTypeResult option" where
  "ftypArm E buffer =
     (if checkString buffer (js ''ftyp'') 4 None \<and> (byteOrZero buffer 8 AND 0x60) \<noteq> 0x00 then
        (let brandMajor = trim (replaceFirstNul (StringType_get E 4 ''latin1'' buffer 8))
         in Some
           (if brandMajor = js ''avif'' \<or> brandMajor = js ''avis'' then ft ''avif'' ''image/avif''
            else if brandMajor = js ''mif1'' then ft ''heic'' ''image/heif''
            else if brandMajor = js ''msf1'' then ft ''heic'' ''image/heif-sequence''
            else if brandMajor = js ''heic'' \<or> brandMajor = js ''heix'' then ft ''heic'' ''image/heic''
            else if brandMajor = js ''hevc'' \<or> brandMajor = js ''hevx'' then
              ft ''heic'' ''image/heic-sequence''
            else if brandMajor = js ''qt'' then ft ''mov'' ''video/quicktime''
            else if brandMajor = js ''M4V'' \<or> brandMajor = js ''M4VH'' \<or> brandMajor = js ''M4VP''
            then ft ''m4v'' ''video/x-m4v''
            else if brandMajor = js ''M4P'' then ft ''m4p'' ''video/mp4''
            else if brandMajor = js ''M4B'' then ft ''m4b'' ''audio/mp4''
            else if brandMajor = js ''M4A'' then ft ''m4a'' ''audio/x-m4a''
            else if brandMajor = js ''F4V'' then ft ''f4v'' ''video/mp4''
            else if brandMajor = js ''F4P'' then ft ''f4p'' ''video/mp4''
            else if brandMajor = js ''F4A'' then ft ''f4a'' ''audio/mp4''
            else if brandMajor = js ''F4B'' then ft ''f4b'' ''audio/mp4''
            else if brandMajor = js ''crx'' then ft ''cr3'' ''image/x-canon-cr3''
            else if take 2 brandMajor = js ''3g'' then
              (if take 3 brandMajor = js ''3g2'' then ft ''3g2'' ''video/3gpp2''
               else ft ''3gp'' ''video/3gpp'')
            else ft ''mp4'' ''video/mp4''))
      else None)"

definition riffArm :: "byte list \<Rightarrow> FileTypeResult option" where
  "riffArm buffer =
     (if check buffer [0x52, 0x49, 0x46, 0x46] 0 None then
        (if checkString buffer (js ''WEBP'') 8 None then Some (ft ''webp'' ''image/webp'')
         else if check buffer [0x41, 0x56, 0x49] 8 None then Some (ft ''avi'' ''video/vnd.avi'')
         else if check buffer [0x57, 0x41, 0x56, 0x45] 8 None then Some (ft ''wav'' ''audio/wav'')
         else if check buffer [0x51, 0x4c, 0x43, 0x4d] 8 None then Some (ft ''qcp'' ''audio/qcelp'')
         else None)
      else None)"

definition vcardArm :: "byte list \<Rightarrow> FileTypeResult option" where
  "vcardArm buffer =
     (if checkString buffer (js ''BEGIN:'') 0 None then
        (if checkString buffer (js ''VCARD'') 6 None then Some (ft ''vcf'' ''text/vcard'')
         else if checkString buffer (js ''VCALENDAR'') 6 None then Some (ft ''ics'' ''text/calendar'')
         else None)
      else None)"

text \<open>
  The Pickle/ASAR arm: \<open>jsonSize\<close> is the little-endian 32-bit number at offset 12; the
  \<open>try\<close> block decodes \<open>buffer.subarray(16, jsonSize + 16)\<close>, parses it and tests
  \<open>json.files\<close>; whatever it throws is swallowed.
\<close>

definition asarArm :: "platform \<Rightarrow> byte list \<Rightarrow> FileTypeResult option" where
  "asarArm E buffer =
     (if check buffer [0x04, 0x00, 0x00, 0x00] 0 None \<and> length buffer \<ge> 16 then
        (let jsonSize = getUInt False 4 buffer 12
         in if jsonSize > 12 \<and> length buffer \<ge> jsonSize + 16 then
              (if jsonHasFiles E (textDecode E ''utf-8'' (take jsonSize (drop 16 buffer)))
               then Some (ft ''asar'' ''application/x-asar'')
               else None)
            else None)
      else None)"

definition tarArm :: "platform \<Rightarrow> byte list \<Rightarrow> FileTypeResult option" where
  "tarArm E buffer =
     (if (checkString buffer (js ''ustar'') 257 None
          \<and> (checkString buffer [0x00] 262 None \<or> checkString buffer (js '' '') 262 None))
         \<or> (check buffer [0, 0, 0, 0, 0, 0] 257 None \<and> tarHeaderChecksumMatches E buffer 0)
      then Some (ft ''tar'' ''application/x-tar'')
      else None)"

text \<open>
  Runs of consecutive arms, in the order of the source. Each is a cascade of
  \<open>if (...) return {...}\<close>; the run ends in \<open>None\<close> when no arm of it matches.
\<close>

definition arms_bmp_to_exe :: "byte list \<Rightarrow> FileTypeResult option" where
  "arms_bmp_to_exe buffer =
     (if check buffer [0x42, 0x4d] 0 None
      then Some (ft ''bmp'' ''image/bmp'') else
      if check buffer [0x0b, 0x77] 0 None
      then Some (ft ''ac3'' ''audio/vnd.dolby.dd-raw'') else
      if check buffer [0x78, 0x01] 0 None
      then Some (ft ''dmg'' ''application/x-apple-diskimage'') else
      if check buffer [0x4d, 0x5a] 0 None
      then Some (ft ''exe'' ''application/x-msdownload'') else
      None)"

definition arms_Z_to_arj :: "byte list \<Rightarrow> FileTypeResult option" where
  "arms_Z_to_arj buffer =
     (if check buffer [0x1f, 0xa0] 0 None \<or> check buffer [0x1f, 0x9d] 0 None
      then Some (ft ''Z'' ''application/x-compress'') else
      if check buffer [0xc7, 0x71] 0 None
      then Some (ft ''cpio'' ''application/x-cpio'') else
      if check buffer [0x60, 0xea] 0 None
      then Some (ft ''arj'' ''application/x-arj'') else
      None)"

definition arms_gif_to_jxr :: "byte list \<Rightarrow> FileTypeResult option" where
  "arms_gif_to_jxr buffer =
     (if check buffer [0x47, 0x49, 0x46] 0 None
      then Some (ft ''gif'' ''image/gif'') else
      if check buffer [0x49, 0x49, 0xbc] 0 None
      then Some (ft ''jxr'' ''image/vnd.ms-photo'') else
      None)"

definition arms_bz2 :: "byte list \<Rightarrow> FileTypeResult option" where
  "arms_bz2 buffer =
     (if check buffer [0x42, 0x5a, 0x68] 0 None
      then Some (ft ''bz2'' ''application/x-bzip2'') else
      None)"

definition arms_mpc_to_icns :: "byte list \<Rightarrow> FileTypeResult option" where
  "arms_mpc_to_icns buffer =
     (if checkString buffer (js ''MP+'') 0 None
      then Some (ft ''mpc'' ''audio/x-musepack'') else
      if (byteAt buffer 0 = Some 0x43 \<or> byteAt buffer 0 = Some 0x46) \<and> check buffer [0x57, 0x53] 1 None
      then Some (ft ''swf'' ''application/x-shockwave-flash'') else
      (case jpegArm buffer of Some fileType \<Rightarrow> Some fileType | None \<Rightarrow>
      if check buffer [0x4f, 0x62, 0x6a, 0x01] 0 None
      then Some (ft ''avro'' ''application/avro'') else
      if checkString buffer (js ''FLIF'') 0 None
      then Some (ft ''flif'' ''image/flif'') else
      if checkString buffer (js ''8BPS'') 0 None
      then Some (ft ''psd'' ''image/vnd.adobe.photoshop'') else
      if checkString buffer (js ''MPCK'') 0 None
      then Some (ft ''mpc'' ''audio/x-musepack'') else
      if checkString buffer (js ''FORM'') 0 None
      then Some (ft ''aif'' ''audio/aiff'') else
      if checkString buffer (js ''icns'') 0 None
      then Some (ft ''icns'' ''image/icns'') else
      None))"

definition arms_zip_to_wasm :: "byte list \<Rightarrow> FileTypeResult option" where
  "arms_zip_to_wasm buffer =
     (if check buffer [0x50, 0x4b] 0 None \<and> (byteAt buffer 2 = Some 0x3 \<or> byteAt buffer 2 = Some 0x5 \<or> byteAt buffer 2 = Some 0x7) \<and> (byteAt buffer 3 = Some 0x4 \<or> byteAt buffer 3 = Some 0x6 \<or> byteAt buffer 3 = Some 0x8)
      then Some (ft ''zip'' ''application/zip'') else
      if checkString buffer (js ''MThd'') 0 None
      then Some (ft ''mid'' ''audio/midi'') else
      if checkString buffer (js ''wOFF'') 0 None \<and> (check buffer [0x00, 0x01, 0x00, 0x00] 4 None \<or> checkString buffer (js ''OTTO'') 4 None)
      then Some (ft ''woff'' ''font/woff'') else
      if checkString buffer (js ''wOF2'') 0 None \<and> (check buffer [0x00, 0x01, 0x00, 0x00] 4 None \<or> checkString buffer (js ''OTTO'') 4 None)
      then Some (ft ''woff2'' ''font/woff2'') else
      if check buffer [0xd4, 0xc3, 0xb2, 0xa1] 0 None \<or> check buffer [0xa1, 0xb2, 0xc3, 0xd4] 0 None
      then Some (ft ''pcap'' ''application/vnd.tcpdump.pcap'') else
      if checkString buffer (js ''DSD '') 0 None
      then Some (ft ''dsf'' ''audio/x-dsf'') else
      if checkString buffer (js ''LZIP'') 0 None
      then Some (ft ''lz'' ''application/x-lzip'') else
      if checkString buffer (js ''fLaC'') 0 None
      then Some (ft ''flac'' ''audio/flac'') else
      if check buffer [0x42, 0x50, 0x47, 0xfb] 0 None
      then Some (ft ''bpg'' ''image/bpg'') else
      if checkString buffer (js ''wvpk'') 0 None
      then Some (ft ''wv'' ''audio/wavpack'') else
      if checkString buffer (js ''%PDF'') 0 None
      then Some (ft ''pdf'' ''application/pdf'') else
      if check buffer [0x00, 0x61, 0x73, 0x6d] 0 None
      then Some (ft ''wasm'' ''application/wasm'') else
      None)"

definition arms_ape :: "byte list \<Rightarrow> FileTypeResult option" where
  "arms_ape buffer =
     (if checkString buffer (js ''MAC '') 0 None
      then Some (ft ''ape'' ''audio/ape'') else
      None)"

definition arms_sqlite_to_blend :: "platform \<Rightarrow> byte list \<Rightarrow> FileTypeResult option" where
  "arms_sqlite_to_blend E buffer =
     (if checkString buffer (js ''SQLi'') 0 None
      then Some (ft ''sqlite'' ''application/x-sqlite3'') else
      if check buffer [0x4e, 0x45, 0x53, 0x1a] 0 None
      then Some (ft ''nes'' ''application/x-nintendo-nes-rom'') else
      if checkString buffer (js ''Cr24'') 0 None
      then Some (ft ''crx'' ''application/x-google-chrome-extension'') else
      if checkString buffer (js ''MSCF'') 0 None \<or> checkString buffer (js ''ISc('') 0 None
      then Some (ft ''cab'' ''application/vnd.ms-cab-compressed'') else
      if check buffer [0xed, 0xab, 0xee, 0xdb] 0 None
      then Some (ft ''rpm'' ''application/x-rpm'') else
      if check buffer [0xc5, 0xd0, 0xd3, 0xc6] 0 None
      then Some (ft ''eps'' ''application/eps'') else
      if check buffer [0x28, 0xb5, 0x2f, 0xfd] 0 None
      then Some (ft ''zst'' ''application/zstd'') else
      if check buffer [0x7f, 0x45, 0x4c, 0x46] 0 None
      then Some (ft ''elf'' ''application/x-elf'') else
      if check buffer [0x21, 0x42, 0x44, 0x4e] 0 None
      then Some (ft ''pst'' ''application/vnd.ms-outlook'') else
      if checkString buffer (js ''PAR1'') 0 None \<or> checkString buffer (js ''PARE'') 0 None
      then Some (ft ''parquet'' ''application/vnd.apache.parquet'') else
      if checkString buffer (js ''ttcf'') 0 None
      then Some (ft ''ttc'' ''font/collection'') else
      if check buffer [0xcf, 0xfa, 0xed, 0xfe] 0 None
      then Some (ft ''macho'' ''application/x-mach-binary'') else
      if check buffer [0x04, 0x22, 0x4d, 0x18] 0 None
      then Some (ft ''lz4'' ''application/x-lz4'') else
      if checkString buffer (js ''regf'') 0 None
      then Some (ft ''dat'' ''application/x-ft-windows-registry-hive'') else
      if check buffer [0x4f, 0x54, 0x54, 0x4f, 0x00] 0 None
      then Some (ft ''otf'' ''font/otf'') else
      if checkString buffer (js ''#!AMR'') 0 None
      then Some (ft ''amr'' ''audio/amr'') else
      if checkString buffer ([0x7B, 0x5C] @ js ''rtf'') 0 None
      then Some (ft ''rtf'' ''application/rtf'') else
      if check buffer [0x46, 0x4c, 0x56, 0x01] 0 None
      then Some (ft ''flv'' ''video/x-flv'') else
      if checkString buffer (js ''IMPM'') 0 None
      then Some (ft ''it'' ''audio/x-it'') else
      if checkString buffer (js ''-lh0-'') 2 None \<or> checkString buffer (js ''-lh1-'') 2 None \<or> checkString buffer (js ''-lh2-'') 2 None \<or> checkString buffer (js ''-lh3-'') 2 None \<or> checkString buffer (js ''-lh4-'') 2 None \<or> checkString buffer (js ''-lh5-'') 2 None \<or> checkString buffer (js ''-lh6-'') 2 None \<or> checkString buffer (js ''-lh7-'') 2 None \<or> checkString buffer (js ''-lzs-'') 2 None \<or> checkString buffer (js ''-lz4-'') 2 None \<or> checkString buffer (js ''-lz5-'') 2 None \<or> checkString buffer (js ''-lhd-'') 2 None
      then Some (ft ''lzh'' ''application/x-lzh-compressed'') else
      (case mpegPsArm buffer of Some fileType \<Rightarrow> Some fileType | None \<Rightarrow>
      if checkString buffer (js ''ITSF'') 0 None
      then Some (ft ''chm'' ''application/vnd.ms-htmlhelp'') else
      if check buffer [0xca, 0xfe, 0xba, 0xbe] 0 None
      then Some (ft ''class'' ''application/java-vm'') else
      if checkString buffer (js ''.RMF'') 0 None
      then Some (ft ''rm'' ''application/vnd.rn-realmedia'') else
      if checkString buffer (js ''DRACO'') 0 None
      then Some (ft ''drc'' ''application/vnd.google.draco'') else
      if check buffer [0xfd, 0x37, 0x7a, 0x58, 0x5a, 0x00] 0 None
      then Some (ft ''xz'' ''application/x-xz'') else
      if checkString buffer (js ''<?xml '') 0 None
      then Some (ft ''xml'' ''application/xml'') else
      if check buffer [0x37, 0x7a, 0xbc, 0xaf, 0x27, 0x1c] 0 None
      then Some (ft ''7z'' ''application/x-7z-compressed'') else
      if check buffer [0x52, 0x61, 0x72, 0x21, 0x1a, 0x7] 0 None \<and> (byteAt buffer 6 = Some 0x0 \<or> byteAt buffer 6 = Some 0x1)
      then Some (ft ''rar'' ''application/x-rar-compressed'') else
      if checkString buffer (js ''solid '') 0 None
      then Some (ft ''stl'' ''model/stl'') else
      (case dwgArm E buffer of Some fileType \<Rightarrow> Some fileType | None \<Rightarrow>
      if checkString buffer (js ''070707'') 0 None
      then Some (ft ''cpio'' ''application/x-cpio'') else
      if checkString buffer (js ''BLENDER'') 0 None
      then Some (ft ''blend'' ''application/x-blender'') else
      None)))"

definition arms_vtt :: "byte list \<Rightarrow> FileTypeResult option" where
  "arms_vtt buffer =
     ((case vttArm buffer of Some fileType \<Rightarrow> Some fileType | None \<Rightarrow>
      None))"

definition arms_arrow_to_rw2 :: "platform \<Rightarrow> byte list \<Rightarrow> FileTypeResult option" where
  "arms_arrow_to_rw2 E buffer =
     (if check buffer [0x41, 0x52, 0x52, 0x4f, 0x57, 0x31, 0x00, 0x00] 0 None
      then Some (ft ''arrow'' ''application/vnd.apache.arrow.file'') else
      if check buffer [0x67, 0x6c, 0x54, 0x46, 0x02, 0x00, 0x00, 0x00] 0 None
      then Some (ft ''glb'' ''model/gltf-binary'') else
      if check buffer [0x66, 0x72, 0x65, 0x65] 4 None \<or> check buffer [0x6d, 0x64, 0x61, 0x74] 4 None \<or> check buffer [0x6d, 0x6f, 0x6f, 0x76] 4 None \<or> check buffer [0x77, 0x69, 0x64, 0x65] 4 None
      then Some (ft ''mov'' ''video/quicktime'') else
      if check buffer [0x49, 0x49, 0x52, 0x4f, 0x08, 0x00, 0x00, 0x00, 0x18] 0 None
      then Some (ft ''orf'' ''image/x-olympus-orf'') else
      if checkString buffer (js ''gimp xcf '') 0 None
      then Some (ft ''xcf'' ''image/x-xcf'') else
      (case ftypArm E buffer of Some fileType \<Rightarrow> Some fileType | None \<Rightarrow>
      if checkString buffer (js ''REGEDIT4'' @ [0x0D, 0x0A]) 0 None
      then Some (ft ''reg'' ''application/x-ms-regedit'') else
      (case riffArm buffer of Some fileType \<Rightarrow> Some fileType | None \<Rightarrow>
      if check buffer [0x49, 0x49, 0x55, 0x00, 0x18, 0x00, 0x00, 0x00, 0x88, 0xe7, 0x74, 0xd8] 0 None
      then Some (ft ''rw2'' ''image/x-panasonic-rw2'') else
      None)))"

definition arms_ktx_to_j2c :: "byte list \<Rightarrow> FileTypeResult option" where
  "arms_ktx_to_j2c buffer =
     (if check buffer [0xab, 0x4b, 0x54, 0x58, 0x20, 0x31, 0x31, 0xbb, 0x0d, 0x0a, 0x1a, 0x0a] 0 None
      then Some (ft ''ktx'' ''image/ktx'') else
      if (check buffer [0x7e, 0x10, 0x04] 0 None \<or> check buffer [0x7e, 0x18, 0x04] 0 None) \<and> check buffer [0x30, 0x4d, 0x49, 0x45] 4 None
      then Some (ft ''mie'' ''application/x-mie'') else
      if check buffer [0x27, 0x0a, 0x00, 0x00, 0x00, 0x00, 0x00, 0x00, 0x00, 0x00, 0x00, 0x00] 2 None
      then Some (ft ''shp'' ''application/x-esri-shape'') else
      if check buffer [0xff, 0x4f, 0xff, 0x51] 0 None
      then Some (ft ''j2c'' ''image/j2c'') else
      None)"

definition arms_jxl :: "byte list \<Rightarrow> FileTypeResult option" where
  "arms_jxl buffer =
     (if check buffer [0xff, 0x0a] 0 None \<or> check buffer [0x00, 0x00, 0x00, 0x0c, 0x4a, 0x58, 0x4c, 0x20, 0x0d, 0x0a, 0x87, 0x0a] 0 None
      then Some (ft ''jxl'' ''image/jxl'') else
      None)"

definition arms_cfb :: "byte list \<Rightarrow> FileTypeResult option" where
  "arms_cfb buffer =
     (if check buffer [0xd0, 0xcf, 0x11, 0xe0, 0xa1, 0xb1, 0x1a, 0xe1] 0 None
      then Some (ft ''cfb'' ''application/x-cfb'') else
      None)"

definition arms_icc_to_indd :: "platform \<Rightarrow> byte list \<Rightarrow> FileTypeResult option" where
  "arms_icc_to_indd E buffer =
     (if check buffer [0x61, 0x63, 0x73, 0x70] 36 None
      then Some (ft ''icc'' ''application/vnd.iccprofile'') else
      if checkString buffer (js ''**ACE'') 7 None \<and> checkString buffer (js ''**'') 12 None
      then Some (ft ''ace'' ''application/x-ace-compressed'') else
      (case vcardArm buffer of Some fileType \<Rightarrow> Some fileType | None \<Rightarrow>
      if checkString buffer (js ''FUJIFILMCCD-RAW'') 0 None
      then Some (ft ''raf'' ''image/x-fujifilm-raf'') else
      if checkString buffer (js ''Extended Module:'') 0 None
      then Some (ft ''xm'' ''audio/x-xm'') else
      if checkString buffer (js ''Creative Voice File'') 0 None
      then Some (ft ''voc'' ''audio/x-voc'') else
      (case asarArm E buffer of Some fileType \<Rightarrow> Some fileType | None \<Rightarrow>
      if check buffer [0x06, 0x0e, 0x2b, 0x34, 0x02, 0x05, 0x01, 0x01, 0x0d, 0x01, 0x02, 0x01, 0x01, 0x02] 0 None
      then Some (ft ''mxf'' ''application/mxf'') else
      if checkString buffer (js ''SCRM'') 44 None
      then Some (ft ''s3m'' ''audio/x-s3m'') else
      if check buffer [0x47] 0 None \<and> check buffer [0x47] 188 None
      then Some (ft ''mts'' ''video/mp2t'') else
      if check buffer [0x47] 4 None \<and> check buffer [0x47] 196 None
      then Some (ft ''mts'' ''video/mp2t'') else
      if check buffer [0x42, 0x4f, 0x4f, 0x4b, 0x4d, 0x4f, 0x42, 0x49] 60 None
      then Some (ft ''mobi'' ''application/x-mobipocket-ebook'') else
      if check buffer [0x44, 0x49, 0x43, 0x4d] 128 None
      then Some (ft ''dcm'' ''application/dicom'') else
      if check buffer [0x4c, 0x00, 0x00, 0x00, 0x01, 0x14, 0x02, 0x00, 0x00, 0x00, 0x00, 0x00, 0xc0, 0x00, 0x00, 0x00, 0x00, 0x00, 0x00, 0x46] 0 None
      then Some (ft ''lnk'' ''application/x.ms.shortcut'') else
      if check buffer [0x62, 0x6f, 0x6f, 0x6b, 0x00, 0x00, 0x00, 0x00, 0x6d, 0x61, 0x72, 0x6b, 0x00, 0x00, 0x00, 0x00] 0 None
      then Some (ft ''alias'' ''application/x.apple.alias'') else
      if checkString buffer (js ''Kaydara FBX Binary  '' @ [0x00]) 0 None
      then Some (ft ''fbx'' ''application/x.autodesk.fbx'') else
      if check buffer [0x4c, 0x50] 34 None \<and> (check buffer [0x00, 0x00, 0x01] 8 None \<or> check buffer [0x01, 0x00, 0x02] 8 None \<or> check buffer [0x02, 0x00, 0x02] 8 None)
      then Some (ft ''eot'' ''application/vnd.ms-fontobject'') else
      if check buffer [0x06, 0x06, 0xed, 0xf5, 0xd8, 0x1d, 0x46, 0xe5, 0xbd, 0x31, 0xef, 0xe7, 0xfe, 0x74, 0xb7, 0x1d] 0 None
      then Some (ft ''indd'' ''application/x-indesign'') else
      None)))"

definition arms_tar :: "platform \<Rightarrow> byte list \<Rightarrow> FileTypeResult option" where
  "arms_tar E buffer =
     ((case tarArm E buffer of Some fileType \<Rightarrow> Some fileType | None \<Rightarrow>
      None))"

definition arms_pgp :: "byte list \<Rightarrow> FileTypeResult option" where
  "arms_pgp buffer =
     (if checkString buffer (js ''-----BEGIN PGP MESSAGE-----'') 0 None
      then Some (ft ''pgp'' ''application/pgp-encrypted'') else
      None)"

section \<open>The arms of the confident detector that move the tokenizer\<close>

text \<open>
  A detector works on the tokenizer and on the parser's sample buffer \<open>this.buffer\<close>;
  it returns a result or \<open>undefined\<close> (\<open>None\<close>) together with both, or throws.
\<close>

type_synonym pstate = "tokenizer \<times> byte list"
type_synonym detection = "error + (FileTypeResult option \<times> pstate)"

definition reasonableDetectionSizeInBytes :: nat where
  "reasonableDetectionSizeInBytes = 4100"

text \<open>An arm's outcome, with the sample buffer it leaves.\<close>

definition withBuffer ::
  "byte list \<Rightarrow> error + (FileTypeResult option \<times> tokenizer) \<Rightarrow> detection" where
  "withBuffer buffer r =
     (case r of
        Inl e \<Rightarrow> Inl e
      | Inr (fileType, tokenizer) \<Rightarrow> Inr (fileType, (tokenizer, buffer)))"

definition postscriptArm :: "byte list \<Rightarrow> FileTypeResult" where
  "postscriptArm buffer =
     (if checkString buffer (js ''PS-Adobe-'') 2 None \<and> checkString buffer (js '' EPSF-'') 14 None
      then ft ''eps'' ''application/eps''
      else ft ''ps'' ''application/postscript'')"

definition oggArm :: "tokenizer \<Rightarrow> error + (FileTypeResult option \<times> tokenizer)" where
  "oggArm tokenizer =
     (case ignore tokenizer 28 of
        Inl e \<Rightarrow> Inl e
      | Inr t1 \<Rightarrow>
          (case readBytes t1 8 of
             Inl e \<Rightarrow> Inl e
           | Inr (type, t2) \<Rightarrow>
               Inr (Some
                 (if check type [0x4f, 0x70, 0x75, 0x73, 0x48, 0x65, 0x61, 0x64] 0 None then
                    ft ''opus'' ''audio/ogg; codecs=opus''
                  else if check type [0x80, 0x74, 0x68, 0x65, 0x6f, 0x72, 0x61] 0 None then
                    ft ''ogv'' ''video/ogg''
                  else if check type [0x01, 0x76, 0x69, 0x64, 0x65, 0x6f, 0x00] 0 None then
                    ft ''ogm'' ''video/ogg''
                  else if check type [0x7f, 0x46, 0x4c, 0x41, 0x43] 0 None then
                    ft ''oga'' ''audio/ogg''
                  else if check type [0x53, 0x70, 0x65, 0x65, 0x78, 0x20, 0x20] 0 None then
                    ft ''spx'' ''audio/ogg''
                  else if check type [0x01, 0x76, 0x6f, 0x72, 0x62, 0x69, 0x73] 0 None then
                    ft ''ogg'' ''audio/ogg''
                  else ft ''ogx'' ''application/ogg''),
                 t2)))"

definition archArm :: "platform \<Rightarrow> tokenizer \<Rightarrow> error + (FileTypeResult option \<times> tokenizer)" where
  "archArm E tokenizer =
     (case ignore tokenizer 8 of
        Inl e \<Rightarrow> Inl e
      | Inr t1 \<Rightarrow>
          (case readString E 13 ''ascii'' t1 of
             Inl e \<Rightarrow> Inl e
           | Inr (string, t2) \<Rightarrow>
               Inr (Some (if string = js ''debian-binary'' then ft ''deb'' ''application/x-deb''
                          else ft ''ar'' ''application/x-unix-archive''),
                    t2)))"

definition jpeg2000Arm :: "platform \<Rightarrow> tokenizer \<Rightarrow> error + (FileTypeResult option \<times> tokenizer)" where
  "jpeg2000Arm E tokenizer =
     (case ignore tokenizer 20 of
        Inl e \<Rightarrow> Inl e
      | Inr t1 \<Rightarrow>
          (case readString E 4 ''ascii'' t1 of
             Inl e \<Rightarrow> Inl e
           | Inr (type, t2) \<Rightarrow>
               Inr (if type = js ''jp2 '' then Some (ft ''jp2'' ''image/jp2'')
                    else if type = js ''jpx '' then Some (ft ''jpx'' ''image/jpx'')
                    else if type = js ''jpm '' then Some (ft ''jpm'' ''image/jpm'')
                    else if type = js ''mjp2'' then Some (ft ''mj2'' ''image/mj2'')
                    else None,
                    t2)))"

text \<open>
  The gzip arm: the inflated stream is given to \<open>this.fromStream\<close>, that is, to the
  whole pipeline on a fresh tokenizer of unknown size (\<open>pipeline\<close> below); a \<open>tar\<close>
  inside makes \<open>tar.gz\<close>, anything else \<open>gz\<close>.
\<close>

definition gzipArm ::
  "platform \<Rightarrow> (pstate \<Rightarrow> detection) \<Rightarrow> tokenizer \<Rightarrow> byte list \<Rightarrow> detection" where
  "gzipArm E pipeline tokenizer buffer =
     (case gzipInflate E tokenizer of
        Inl e \<Rightarrow> Inl e
      | Inr (stream, t1) \<Rightarrow>
          (case pipeline (\<lparr> source = stream, position = 0, fileSize = None \<rparr>, buffer) of
             Inl e \<Rightarrow> Inl e
           | Inr (compressedFileType, (streamTokenizer, buffer')) \<Rightarrow>
               Inr (Some
                 (if (case compressedFileType of
                        Some r \<Rightarrow> ext r = ''tar''
                      | None \<Rightarrow> False)
                  then ft ''tar.gz'' ''application/gzip''
                  else ft ''gz'' ''application/gzip''),
                 (t1, buffer'))))"

text \<open>
  The ID3 arm: skip six bytes, read the sync-safe length; a tag that reaches past the
  file makes \<open>mp3\<close>, otherwise the tag is skipped and the whole pipeline runs again.
\<close>

definition id3Arm :: "(pstate \<Rightarrow> detection) \<Rightarrow> tokenizer \<Rightarrow> byte list \<Rightarrow> detection" where
  "id3Arm pipeline tokenizer buffer =
     (case ignore tokenizer 6 of
        Inl e \<Rightarrow> Inl e
      | Inr t1 \<Rightarrow>
          (case readBytes t1 uint32SyncSafeToken_len of
             Inl e \<Rightarrow> Inl e
           | Inr (token, t2) \<Rightarrow>
               (let id3HeaderLength = uint32SyncSafeToken_get token 0
                in if position t2 + id3HeaderLength > sizeOf t2 then
                     Inr (Some (ft ''mp3'' ''audio/mpeg''), (t2, buffer))
                   else
                     (case ignore t2 (int id3HeaderLength) of
                        Inl e \<Rightarrow> Inl e
                      | Inr t3 \<Rightarrow> pipeline (t3, buffer)))))"

definition zipArm :: "platform \<Rightarrow> tokenizer \<Rightarrow> error + (FileTypeResult option \<times> tokenizer)" where
  "zipArm E tokenizer =
     (case zipEntries E tokenizer of
        Inl e \<Rightarrow> Inl e
      | Inr (entries, t1) \<Rightarrow>
          Inr (Some (case zipWalk E entries of
                       Some fileType \<Rightarrow> fileType
                     | None \<Rightarrow> ft ''zip'' ''application/zip''),
               t1))"

text \<open>
  The UTF-8 BOM arm calls \<open>tokenizer.ignore(3)\<close> without awaiting it: a failure of the
  skip would not be thrown here, the position would just stay.
\<close>

definition ignoreUnawaited :: "tokenizer \<Rightarrow> int \<Rightarrow> tokenizer" where
  "ignoreUnawaited tokenizer len =
     (case ignore tokenizer len of Inl e \<Rightarrow> tokenizer | Inr t1 \<Rightarrow> t1)"

definition utf16beArm :: "byte list \<Rightarrow> FileTypeResult option" where
  "utf16beArm buffer =
     (if checkString buffer (js ''<?xml '') 2 (Some ''utf-16be'')
      then Some (ft ''xml'' ''application/xml'')
      else None)"

definition utf16leArm :: "byte list \<Rightarrow> FileTypeResult option" where
  "utf16leArm buffer =
     (let encoding = Some ''utf-16le''
      in if checkString buffer (js ''<?xml '') 2 encoding then
           Some (ft ''xml'' ''application/xml'')
         else if check buffer [0xff, 0x0e] 2 None
                 \<and> checkString buffer (js ''SketchUp Model'') 4 encoding then
           Some (ft ''skp'' ''application/vnd.sketchup.skp'')
         else if checkString buffer (js ''Windows Registry Editor Version 5.00'' @ [0x0D, 0x0A])
                   2 encoding then
           Some (ft ''reg'' ''application/x-ms-regedit'')
         else None)"

section \<open>The confident detector\<close>

text \<open>
  The body of \<open>detectConfident\<close> is a sequence of statements on the tokenizer and the
  sample buffer. Each one either returns (a result, \<open>undefined\<close>, or an error thrown)
  or goes on to the next statement with the state it leaves.
\<close>

datatype outcome = Return detection | Next pstate

fun runArms :: "(pstate \<Rightarrow> outcome) list \<Rightarrow> pstate \<Rightarrow> detection" where
  "runArms [] st = Inr (None, st)"
| "runArms (arm # arms) st =
     (case arm st of
        Return r \<Rightarrow> r
      | Next st' \<Rightarrow> runArms arms st')"

text \<open>A run of arms that only read the sample: return the type found, or go on.\<close>

definition sampleArms :: "(byte list \<Rightarrow> FileTypeResult option) \<Rightarrow> pstate \<Rightarrow> outcome" where
  "sampleArms arms st =
     (case arms (snd st) of
        Some fileType \<Rightarrow> Return (Inr (Some fileType, st))
      | None \<Rightarrow> Next st)"

text \<open>\<open>if (cond) { ...; return ...; }\<close>: an arm whose block always returns.\<close>

definition returningArm ::
  "(byte list \<Rightarrow> bool) \<Rightarrow> (pstate \<Rightarrow> detection) \<Rightarrow> pstate \<Rightarrow> outcome" where
  "returningArm cond block st = (if cond (snd st) then Return (block st) else Next st)"

text \<open>
  The two TIFF arms: \<open>if (check) { const fileType = await this.readTiffHeader(...);
  if (fileType) return fileType; }\<close>.
\<close>

definition tiffArm :: "nat list \<Rightarrow> bool \<Rightarrow> pstate \<Rightarrow> outcome" where
  "tiffArm header bigEndian st =
     (if check (snd st) header 0 None then
        (case readTiffHeader bigEndian (snd st) (fst st) of
           Inl e \<Rightarrow> Return (Inl e)
         | Inr (Some fileType, t1) \<Rightarrow> Return (Inr (Some fileType, (t1, snd st)))
         | Inr (None, t1) \<Rightarrow> Next (t1, snd st))
      else Next st)"

text \<open>
  \<open>await tokenizer.peekBuffer(this.buffer, {length: Math.min(n, tokenizer.fileInfo.size),
  mayBeLess: true})\<close>
\<close>

definition growSample :: "nat \<Rightarrow> pstate \<Rightarrow> outcome" where
  "growSample n st = Next (fst st, peekBuffer (fst st) (snd st) (min n (sizeOf (fst st))))"

text \<open>
  The statements before the first arm: a fresh sample buffer of 4100 zero bytes, the
  default for an unknown size, and the first peek of 32 bytes.
\<close>

definition startSample :: "pstate \<Rightarrow> pstate" where
  "startSample st =
     (let tokenizer = defaultSize (fst st)
      in (tokenizer, peekBuffer tokenizer (replicate reasonableDetectionSizeInBytes 0) 32))"

text \<open>
  The arms in the order of the source. The two recursive calls are parameters: \<open>self\<close>
  is \<open>this.detectConfident\<close> (the UTF-8 BOM arm) and \<open>pipeline\<close> is
  \<open>this.fromTokenizer\<close> (the ID3 arm, and the gzip arm through \<open>this.fromStream\<close>).
\<close>

definition confidentArms ::
  "platform \<Rightarrow> (pstate \<Rightarrow> detection) \<Rightarrow> (pstate \<Rightarrow> detection) \<Rightarrow> (pstate \<Rightarrow> outcome) list" where
  "confidentArms E self pipeline =
     [ sampleArms arms_bmp_to_exe,
       returningArm (\<lambda>buffer. check buffer [0x25, 0x21] 0 None)
         (\<lambda>st. let buffer' = peekBuffer (fst st) (snd st) 24
               in Inr (Some (postscriptArm buffer'), (fst st, buffer'))),
       sampleArms arms_Z_to_arj,
       returningArm (\<lambda>buffer. check buffer [0xef, 0xbb, 0xbf] 0 None)
         (\<lambda>st. self (ignoreUnawaited (fst st) 3, snd st)),
       sampleArms arms_gif_to_jxr,
       returningArm (\<lambda>buffer. check buffer [0x1f, 0x8b, 0x8] 0 None)
         (\<lambda>st. gzipArm E pipeline (fst st) (snd st)),
       sampleArms arms_bz2,
       returningArm (\<lambda>buffer. checkString buffer (js ''ID3'') 0 None)
         (\<lambda>st. id3Arm pipeline (fst st) (snd st)),
       sampleArms arms_mpc_to_icns,
       returningArm (\<lambda>buffer. check buffer [0x50, 0x4b, 0x3, 0x4] 0 None)
         (\<lambda>st. withBuffer (snd st) (zipArm E (fst st))),
       returningArm (\<lambda>buffer. checkString buffer (js ''OggS'') 0 None)
         (\<lambda>st. withBuffer (snd st) (oggArm (fst st))),
       sampleArms arms_zip_to_wasm,
       tiffArm [0x49, 0x49] False,
       tiffArm [0x4d, 0x4d] True,
       sampleArms arms_ape,
       returningArm (\<lambda>buffer. check buffer [0x1a, 0x45, 0xdf, 0xa3] 0 None)
         (\<lambda>st. withBuffer (snd st) (ebmlArm E (fst st))),
       sampleArms (arms_sqlite_to_blend E),
       returningArm (\<lambda>buffer. checkString buffer (js ''!<arch>'') 0 None)
         (\<lambda>st. withBuffer (snd st) (archArm E (fst st))),
       sampleArms arms_vtt,
       returningArm (\<lambda>buffer. check buffer [0x89, 0x50, 0x4e, 0x47, 0x0d, 0x0a, 0x1a, 0x0a] 0 None)
         (\<lambda>st. withBuffer (snd st) (pngArm E (fst st))),
       sampleArms (arms_arrow_to_rw2 E),
       returningArm
         (\<lambda>buffer. check buffer [0x30, 0x26, 0xb2, 0x75, 0x8e, 0x66, 0xcf, 0x11, 0xa6, 0xd9] 0 None)
         (\<lambda>st. withBuffer (snd st) (asfArm (fst st))),
       sampleArms arms_ktx_to_j2c,
       returningArm
         (\<lambda>buffer. check buffer
                     [0x00, 0x00, 0x00, 0x0c, 0x6a, 0x50, 0x20, 0x20, 0x0d, 0x0a, 0x87, 0x0a] 0 None)
         (\<lambda>st. withBuffer (snd st) (jpeg2000Arm E (fst st))),
       sampleArms arms_jxl,
       returningArm (\<lambda>buffer. check buffer [0xfe, 0xff] 0 None)
         (\<lambda>st. Inr (utf16beArm (snd st), st)),
       sampleArms arms_cfb,
       growSample 256,
       sampleArms (arms_icc_to_indd E),
       growSample 512,
       sampleArms (arms_tar E),
       returningArm (\<lambda>buffer. check buffer [0xff, 0xfe] 0 None)
         (\<lambda>st. Inr (utf16leArm (snd st), st)),
       sampleArms arms_pgp ]"

definition detectConfidentBody ::
  "platform \<Rightarrow> (pstate \<Rightarrow> detection) \<Rightarrow> (pstate \<Rightarrow> detection) \<Rightarrow> pstate \<Rightarrow> detection" where
  "detectConfidentBody E self pipeline st =
     runArms (confidentArms E self pipeline) (startSample st)"

section \<open>The imprecise detector\<close>

definition scanMpeg :: "byte list \<Rightarrow> nat \<Rightarrow> FileTypeResult option" where
  "scanMpeg buffer offset =
     (if check buffer [0xff, 0xe0] offset (Some [0xff, 0xe0]) then
        (if check buffer [0x10] (offset + 1) (Some [0x16]) then
           (if check buffer [0x08] (offset + 1) (Some [0x08]) then Some (ft ''aac'' ''audio/aac'')
            else Some (ft ''aac'' ''audio/aac''))
         else if check buffer [0x02] (offset + 1) (Some [0x06]) then Some (ft ''mp3'' ''audio/mpeg'')
         else if check buffer [0x04] (offset + 1) (Some [0x06]) then Some (ft ''mp2'' ''audio/mpeg'')
         else if check buffer [0x06] (offset + 1) (Some [0x06]) then Some (ft ''mp1'' ''audio/mpeg'')
         else None)
      else None)"

text \<open>
  \<open>for (let depth = 0; depth <= mpegOffsetTolerance; ++depth)\<close>: the depths in order,
  the first type found is returned.
\<close>

fun scanDepths :: "byte list \<Rightarrow> nat list \<Rightarrow> FileTypeResult option" where
  "scanDepths buffer [] = None"
| "scanDepths buffer (depth # depths) =
     (case scanMpeg buffer depth of
        Some type \<Rightarrow> Some type
      | None \<Rightarrow> scanDepths buffer depths)"

record FileTypeOptions =
  mpegOffsetTolerance :: nat
  customDetectors :: "(string \<times> (tokenizer \<Rightarrow> error + (FileTypeResult option \<times> tokenizer))) list"

text \<open>\<open>detectImprecise\<close> works on the sample buffer the parser holds.\<close>

definition detectImprecise :: "FileTypeOptions \<Rightarrow> pstate \<Rightarrow> detection" where
  "detectImprecise opts st =
     (let tokenizer = defaultSize (fst st);
          buffer = peekBuffer tokenizer (snd st) (min 8 (sizeOf tokenizer))
      in
      if check buffer [0x0, 0x0, 0x1, 0xba] 0 None \<or> check buffer [0x0, 0x0, 0x1, 0xb3] 0 None then
        Inr (Some (ft ''mpg'' ''video/mpeg''), (tokenizer, buffer))
      else if check buffer [0x00, 0x01, 0x00, 0x00, 0x00] 0 None then
        Inr (Some (ft ''ttf'' ''font/ttf''), (tokenizer, buffer))
      else if check buffer [0x00, 0x00, 0x01, 0x00] 0 None then
        Inr (Some (ft ''ico'' ''image/x-icon''), (tokenizer, buffer))
      else if check buffer [0x00, 0x00, 0x02, 0x00] 0 None then
        Inr (Some (ft ''cur'' ''image/x-icon''), (tokenizer, buffer))
      else
        (let buffer' = peekBuffer tokenizer buffer
                         (min (2 + mpegOffsetTolerance opts) (sizeOf tokenizer))
         in Inr (if length buffer' \<ge> 2 + mpegOffsetTolerance opts
                 then scanDepths buffer' [0 ..< mpegOffsetTolerance opts + 1]
                 else None,
                 (tokenizer, buffer'))))"

section \<open>The detection pipeline\<close>

text \<open>
  A registered detector is its \<open>id\<close> with its \<open>detect\<close> function. A custom detector
  sees the tokenizer only; the two built-in ones also use the parser's sample buffer.
\<close>

type_synonym detector = "string \<times> (pstate \<Rightarrow> detection)"

definition customDetector ::
  "string \<times> (tokenizer \<Rightarrow> error + (FileTypeResult option \<times> tokenizer)) \<Rightarrow> detector" where
  "customDetector d =
     (fst d, \<lambda>st. case snd d (fst st) of
                     Inl e \<Rightarrow> Inl e
                   | Inr (fileType, tokenizer) \<Rightarrow> Inr (fileType, (tokenizer, snd st)))"

text \<open>
  The constructor's list \<open>this.detectors\<close>: the custom detectors, then \<open>core\<close>, then
  \<open>core.imprecise\<close>.
\<close>

definition detectors :: "FileTypeOptions \<Rightarrow> (pstate \<Rightarrow> detection) \<Rightarrow> detector list" where
  "detectors opts confident =
     map customDetector (customDetectors opts)
     @ [(''core'', confident), (''core.imprecise'', detectImprecise opts)]"

text \<open>The \<open>for (const detector of this.detectors)\<close> loop of \<open>fromTokenizer\<close>.\<close>

fun runDetectors :: "nat \<Rightarrow> detector list \<Rightarrow> pstate \<Rightarrow> detection" where
  "runDetectors initialPosition [] st = Inr (None, st)"
| "runDetectors initialPosition (detector # rest) st =
     (case snd detector st of
        Inl e \<Rightarrow> Inl e
      | Inr (Some fileType, st') \<Rightarrow> Inr (Some fileType, st')
      | Inr (None, st') \<Rightarrow>
          (if initialPosition \<noteq> position (fst st') then Inr (None, st')
           else runDetectors initialPosition rest st'))"

definition fromTokenizerWith ::
  "FileTypeOptions \<Rightarrow> (pstate \<Rightarrow> detection) \<Rightarrow> pstate \<Rightarrow> detection" where
  "fromTokenizerWith opts confident st =
     runDetectors (position (fst st)) (detectors opts confident) st"

text \<open>
  \<open>detectConfident\<close> calls itself and \<open>fromTokenizer\<close>, and through the gzip arm on
  inflated data of any length, so nothing bounds the nesting. The first argument bounds
  it: with no nesting left the call ends in \<open>OutOfFuel\<close>.
\<close>

primrec detectConfident :: "nat \<Rightarrow> platform \<Rightarrow> FileTypeOptions \<Rightarrow> pstate \<Rightarrow> detection" where
  "detectConfident 0 E opts = (\<lambda>st. Inl OutOfFuel)"
| "detectConfident (Suc n) E opts =
     detectConfidentBody E (detectConfident n E opts)
       (fromTokenizerWith opts (detectConfident n E opts))"

definition fromTokenizer :: "nat \<Rightarrow> platform \<Rightarrow> FileTypeOptions \<Rightarrow> pstate \<Rightarrow> detection" where
  "fromTokenizer n E opts = fromTokenizerWith opts (detectConfident n E opts)"

text \<open>
  \<open>fromBuffer\<close>: a buffer of fewer than two bytes is answered at once; otherwise the
  pipeline runs on a tokenizer over the buffer (\<open>strtok3.fromBuffer\<close>: position 0, size
  the buffer's length) with the parser's initial sample buffer.
\<close>

definition fromBuffer ::
  "nat \<Rightarrow> platform \<Rightarrow> FileTypeOptions \<Rightarrow> byte list \<Rightarrow> error + FileTypeResult option" where
  "fromBuffer n E opts input =
     (if \<not> (length input > 1) then Inr None
      else
        (case fromTokenizer n E opts
                (\<lparr> source = input, position = 0, fileSize = Some (length input) \<rparr>,
                 replicate reasonableDetectionSizeInBytes 0) of
           Inl e \<Rightarrow> Inl e
         | Inr (fileType, st) \<Rightarrow> Inr fileType))"

section \<open>Reference definition for the pipeline\<close>

text \<open>
  A run of detectors is quiet when each of them, called in turn, returns no result,
  throws nothing and leaves the tokenizer at the position \<open>p0\<close>; \<open>quietRun\<close> gives the
  state after the run, and \<open>None\<close> when some detector of the run is not quiet.
\<close>

fun quietRun :: "nat \<Rightarrow> detector list \<Rightarrow> pstate \<Rightarrow> pstate option" where
  "quietRun p0 [] st = Some st"
| "quietRun p0 (detector # rest) st =
     (case snd detector st of
        Inr (None, st') \<Rightarrow> (if position (fst st') = p0 then quietRun p0 rest st' else None)
      | _ \<Rightarrow> None)"

section \<open>Reference definitions for the frame of the confident detector\<close>

text \<open>
  Five arms of \<open>detectConfident\<close> can return \<open>undefined\<close> after they have moved the
  tokenizer: the UTF-8 byte order mark (the detector calls itself behind the mark), the
  ID3 tag (the pipeline runs behind the tag), EBML (a document type other than
  \<open>webm\<close> and \<open>matroska\<close>), PNG (a chunk whose length is negative) and
  JPEG 2000 (a brand that is not listed). \<open>entersConsumingArm\<close> says that the sample
  begins with the signature of one of them.
\<close>

definition entersConsumingArm :: "byte list \<Rightarrow> bool" where
  "entersConsumingArm sample \<longleftrightarrow>
     check sample [0xef, 0xbb, 0xbf] 0 None
     \<or> checkString sample (js ''ID3'') 0 None
     \<or> check sample [0x1a, 0x45, 0xdf, 0xa3] 0 None
     \<or> check sample [0x89, 0x50, 0x4e, 0x47, 0x0d, 0x0a, 0x1a, 0x0a] 0 None
     \<or> check sample
          [0x00, 0x00, 0x00, 0x0c, 0x6a, 0x50, 0x20, 0x20, 0x0d, 0x0a, 0x87, 0x0a] 0 None"

text \<open>
  An arm keeps the frame under \<open>Q\<close> when, from a state where \<open>Q\<close> holds, it returns
  \<open>undefined\<close> only with the tokenizer it was given, and goes on only with that
  tokenizer and in a state where \<open>Q\<close> holds again.
\<close>

definition keepsFrame :: "(pstate \<Rightarrow> bool) \<Rightarrow> (pstate \<Rightarrow> outcome) \<Rightarrow> bool" where
  "keepsFrame Q arm \<longleftrightarrow>
     (\<forall>s. Q s \<longrightarrow>
        (case arm s of
           Return r \<Rightarrow> (\<forall>s'. r = Inr (None, s') \<longrightarrow> fst s' = fst s)
         | Next s' \<Rightarrow> fst s' = fst s \<and> Q s'))"

section \<open>Sample inputs\<close>

text \<open>
  A 512-byte TAR header block that is zero except for its checksum field, which holds
  the octal digits \<open>400\<close> (256, the sum of a block whose other bytes are zero).
\<close>

definition tarBlock400 :: "byte list" where
  "tarBlock400 = replicate 148 0 @ [0x34, 0x30, 0x30, 0, 0, 0] @ replicate 358 0"


text \<open>The sample buffer when nothing is left to peek: 4100 zero bytes.\<close>

definition emptySample :: "byte list" where
  "emptySample = replicate 4100 0"

text \<open>Ten zero bytes, then an MPEG layer-3 frame sync \<open>FF FB\<close> at offset 10.\<close>

definition mpegAt10 :: "byte list" where
  "mpegAt10 = [0x00, 0x00, 0x00, 0x00, 0x00, 0x00, 0x00, 0x00, 0x00, 0x00, 0xFF, 0xFB]"

text \<open>The sample buffer after peeking at the start of \<open>mpegAt10\<close>.\<close>

definition mpegAt10Sample :: "byte list" where
  "mpegAt10Sample = mpegAt10 @ replicate 4088 0"

text \<open>An EBML header (length 4) whose only child is a DocType element holding \<open>x\<close>.\<close>

definition ebmlDocTypeX :: "byte list" where
  "ebmlDocTypeX = [0x1A, 0x45, 0xDF, 0xA3, 0x84, 0x42, 0x82, 0x81, 0x78]"

text \<open>The sample buffer after peeking at the start of \<open>ebmlDocTypeX\<close>.\<close>

definition ebmlDocTypeXSample :: "byte list" where
  "ebmlDocTypeXSample = ebmlDocTypeX @ replicate 4091 0"

text \<open>A JPEG 2000 signature box, a \<open>ftyp\<close> box header and the brand \<open>jph \<close> (a JPEG 2000 family brand the detector does not list).\<close>

definition jphFile :: "byte list" where
  "jphFile = [0x00, 0x00, 0x00, 0x0C, 0x6A, 0x50, 0x20, 0x20, 0x0D, 0x0A, 0x87, 0x0A, 0x00, 0x00, 0x00, 0x14, 0x66, 0x74, 0x79, 0x70, 0x6A, 0x70, 0x68, 0x20]"

text \<open>The sample buffer after peeking at the start of \<open>jphFile\<close>.\<close>

definition jphFileSample :: "byte list" where
  "jphFileSample = jphFile @ replicate 4076 0"

text \<open>The FLAC stream marker \<open>fLaC\<close>.\<close>

definition flacMagic :: "byte list" where
  "flacMagic = [0x66, 0x4C, 0x61, 0x43]"

text \<open>The sample buffer after peeking at the start of \<open>flacMagic\<close>.\<close>

definition flacMagicSample :: "byte list" where
  "flacMagicSample = flacMagic @ replicate 4096 0"

text \<open>
  ID3v2 tags: \<open>ID3\<close>, version and flags, then the sync-safe length. The first tag
  has length 0 and nothing behind it; the second declares 257 bytes where 2 follow; the
  third has length 0 and a FLAC stream behind it.
\<close>

definition id3Only :: "byte list" where
  "id3Only = [0x49, 0x44, 0x33, 0x03, 0x00, 0x00, 0x00, 0x00, 0x00, 0x00]"

definition id3Long :: "byte list" where
  "id3Long = [0x49, 0x44, 0x33, 0x03, 0x00, 0x00, 0x00, 0x00, 0x02, 0x01, 0x00, 0x00]"

definition id3Flac :: "byte list" where
  "id3Flac = [0x49, 0x44, 0x33, 0x04, 0x00, 0x00, 0x00, 0x00, 0x00, 0x00] @ flacMagic"

text \<open>\<open>strtok3.fromBuffer(input)\<close>: the tokenizer at the start of a buffer.\<close>

definition bufferTokenizer :: "byte list \<Rightarrow> tokenizer" where
  "bufferTokenizer input = \<lparr> source = input, position = 0, fileSize = Some (length input) \<rparr>"

text \<open>The constructor's defaults: tolerance 0 and no custom detector.\<close>

definition defaultOptions :: FileTypeOptions where
  "defaultOptions = \<lparr> mpegOffsetTolerance = 0, customDetectors = [] \<rparr>"

text \<open>
  The custom detectors of the test suite. \<open>mock.unicorn\<close> peeks seven bytes and
  compares them with \<open>UNICORN\<close>; \<open>mock.png\<close> answers at once;
  \<open>mock.dirtyTokenizer\<close> reads one byte (fewer at the end) and returns nothing.
\<close>

definition unicornDetector :: "tokenizer \<Rightarrow> error + (FileTypeResult option \<times> tokenizer)" where
  "unicornDetector tokenizer =
     (let buffer = peekBuffer tokenizer (replicate 7 0) 7
      in Inr (if buffer = [85, 78, 73, 67, 79, 82, 78]
              then Some (ft ''unicorn'' ''application/unicorn'')
              else None,
              tokenizer))"

definition mockPngDetector :: "tokenizer \<Rightarrow> error + (FileTypeResult option \<times> tokenizer)" where
  "mockPngDetector tokenizer = Inr (Some (ft ''mockPng'' ''image/mockPng''), tokenizer)"

definition tokenizerPositionChanger ::
  "tokenizer \<Rightarrow> error + (FileTypeResult option \<times> tokenizer)" where
  "tokenizerPositionChanger tokenizer =
     Inr (None, tokenizer\<lparr> position := position tokenizer + min 1 (length (ahead tokenizer)) \<rparr>)"

text \<open>The bytes of \<open>UNICORN FILE\<close> and a line feed.\<close>

definition unicornFile :: "byte list" where
  "unicornFile = [85, 78, 73, 67, 79, 82, 78, 32, 70, 73, 76, 69, 10]"

definition withDetectors ::
  "(string \<times> (tokenizer \<Rightarrow> error + (FileTypeResult option \<times> tokenizer))) list \<Rightarrow> FileTypeOptions" where
  "withDetectors ds = \<lparr> mpegOffsetTolerance = 0, customDetectors = ds \<rparr>"

text \<open>
  Ten zero bytes, the MPEG sync \<open>FF FB\<close>, zeros up to offset 128 and \<open>DICM\<close>
  there; and the sample buffer after the peek of 256 bytes at its start.
\<close>

definition dicmAt128 :: "byte list" where
  "dicmAt128 = mpegAt10 @ replicate 116 0 @ [0x44, 0x49, 0x43, 0x4D]"

definition dicmAt128Sample :: "byte list" where
  "dicmAt128Sample = dicmAt128 @ replicate 3968 0"

section \<open>Lemmas on the string primitives\<close>

lemma not_digit_ws: "isWhiteSpace c \<Longrightarrow> \<not> isOctalDigit c"
  unfolding isWhiteSpace_def isLineTerminator_def isOctalDigit_def
  by (auto simp: word_le_nat_alt)

lemma takeWhile_octal_append:
  "\<not> isOctalDigit c \<Longrightarrow> takeWhile isOctalDigit (zs @ c # t) = takeWhile isOctalDigit zs"
  by (induction zs) auto

lemma parseInt8_append_nondigit:
  assumes "\<not> isOctalDigit c" "c \<noteq> 0x2B" "c \<noteq> 0x2D"
      and "isWhiteSpace c \<Longrightarrow> \<exists>x \<in> set xs. \<not> isWhiteSpace x"
  shows "parseInt8 (xs @ c # t) = parseInt8 xs"
proof (cases "\<exists>x \<in> set xs. \<not> isWhiteSpace x")
  case True
  then obtain y ys where d: "dropWhile isWhiteSpace xs = y # ys"
    by (metis dropWhile_eq_Nil_conv list.exhaust)
  from True obtain x where "x \<in> set xs" "\<not> isWhiteSpace x" by blast
  then have e: "dropWhile isWhiteSpace (xs @ c # t) = y # (ys @ c # t)"
    using d dropWhile_append1 [of x xs isWhiteSpace "c # t"] by simp
  have t1: "takeWhile isOctalDigit (ys @ c # t) = takeWhile isOctalDigit ys"
    using assms(1) by (rule takeWhile_octal_append)
  have t2: "takeWhile isOctalDigit (y # ys @ c # t) = takeWhile isOctalDigit (y # ys)"
    using takeWhile_octal_append [OF assms(1), of "y # ys" t] by simp
  have Z: "takeWhile isOctalDigit (if P then ys @ c # t else y # (ys @ c # t))
            = takeWhile isOctalDigit (if P then ys else y # ys)" for P
    using t1 t2 by (cases P) (simp_all only: if_True if_False)
  show ?thesis
    unfolding parseInt8_def e d list.case Let_def
    by (simp only: Z)
next
  case False
  then have a: "dropWhile isWhiteSpace xs = []" by simp
  have nw: "\<not> isWhiteSpace c" using assms(4) False by blast
  have b: "dropWhile isWhiteSpace (xs @ c # t) = c # t"
    using False nw by (simp add: dropWhile_append2)
  show ?thesis
    unfolding parseInt8_def a b list.case Let_def
    using assms(1-3) by simp
qed

lemma ws_not_sign: "isWhiteSpace c \<Longrightarrow> c \<noteq> 0x2B \<and> c \<noteq> 0x2D"
  unfolding isWhiteSpace_def isLineTerminator_def by auto

lemma parseInt8_trimEnd:
  "parseInt8 (rev (dropWhile isWhiteSpace (rev s))) = parseInt8 s"
proof (induction s rule: rev_induct)
  case Nil
  show ?case by simp
next
  case (snoc c s)
  show ?case
  proof (cases "isWhiteSpace c")
    case False
    then show ?thesis by simp
  next
    case True
    note ws = this
    show ?thesis
    proof (cases "\<exists>x \<in> set s. \<not> isWhiteSpace x")
      case True
      have "parseInt8 (s @ c # []) = parseInt8 s"
      proof (rule parseInt8_append_nondigit)
        show "\<not> isOctalDigit c" using ws by (rule not_digit_ws)
        show "c \<noteq> 0x2B" "c \<noteq> 0x2D" using ws_not_sign [OF ws] by simp_all
        show "\<exists>x \<in> set s. \<not> isWhiteSpace x" by (rule True)
      qed
      then show ?thesis using ws snoc by simp
    next
      case False
      then have e: "dropWhile isWhiteSpace (s @ [c]) = []" "dropWhile isWhiteSpace s = []"
        using ws by auto
      have "parseInt8 (s @ [c]) = parseInt8 s"
        unfolding parseInt8_def e by simp
      then show ?thesis using ws snoc by simp
    qed
  qed
qed

lemma parseInt8_dropWhile: "parseInt8 (dropWhile isWhiteSpace s) = parseInt8 s"
  by (simp add: parseInt8_def)

lemma parseInt8_trim: "parseInt8 (trim s) = parseInt8 s"
  by (simp add: trim_def parseInt8_trimEnd parseInt8_dropWhile)

lemma replaceNulTail_shape:
  "replaceNulTail s = takeWhile (\<lambda>c. c \<noteq> 0) s
   \<or> (\<exists>r. replaceNulTail s = takeWhile (\<lambda>c. c \<noteq> 0) s @ 0 # r)"
  by (induction s) auto

lemma parseInt8_replaceNulTail:
  "parseInt8 (replaceNulTail s) = parseInt8 (takeWhile (\<lambda>c. c \<noteq> 0) s)"
proof -
  have "parseInt8 (xs @ 0 # r) = parseInt8 xs" for xs r
    by (rule parseInt8_append_nondigit)
       (auto simp: isOctalDigit_def isWhiteSpace_def isLineTerminator_def)
  then show ?thesis using replaceNulTail_shape [of s] by auto
qed

lemma declared_sum:
  "parseInt8 (trim (replaceNulTail s)) = parseInt8 (trim (takeWhile (\<lambda>c. c \<noteq> 0) s))"
  by (simp add: parseInt8_trim parseInt8_replaceNulTail)

lemma foldl_add_sum:
  "foldl (\<lambda>s i. s + f i) a xs = a + sum_list (map f xs)"
  by (induction xs arbitrary: a) (auto simp: add.assoc)

lemma upto_shift_map: "[a..a + int n - 1] = map (\<lambda>k. a + int k) [0..<n]"
proof (induction n)
  case 0
  show ?case by simp
next
  case (Suc n)
  have "[a..a + int (Suc n) - 1] = [a..a + int n - 1] @ [a + int n]"
    using upto_rec2 [of a "a + int n"] by simp
  then show ?case using Suc by simp
qed

section \<open>Lemmas on the TAR checksum\<close>

lemma sum_list_upt_sum: "sum_list (map f [0..<n]) = (\<Sum>k<n. f k)"
  by (simp add: interv_sum_list_conv_sum_set_nat atLeast0LessThan)

lemma tar_sums:
  "foldl (\<lambda>sum index. sum + byteOrZeroAt B index) a [off..off + int n - 1]
     = a + (\<Sum>k<n. byteOrZeroAt B (off + int k))"
  by (simp add: foldl_add_sum upto_shift_map comp_def sum_list_upt_sum del: upto.simps)

lemma tarHeaderChecksumMatches_sums:
  "tarHeaderChecksumMatches E B off =
     (case parseInt8 (trim (takeWhile (\<lambda>c. c \<noteq> 0) (textDecode E ''utf8'' (take 6 (drop 148 B))))) of
        None \<Rightarrow> False
      | Some declared \<Rightarrow>
          declared = int (8 * 0x20 + (\<Sum>k<148. byteOrZeroAt B (off + int k))
                                  + (\<Sum>k<356. byteOrZeroAt B (off + 156 + int k))))"
proof -
  have s1: "[off..off + 148 - 1] = [off..off + int 148 - 1]" by simp
  have s2: "[off + 156..off + 512 - 1] = [off + 156..off + 156 + int 356 - 1]" by simp
  show ?thesis
    unfolding tarHeaderChecksumMatches_def StringType_get_def declared_sum Let_def s1 s2 tar_sums
    by (simp split: option.splits)
qed

lemma sum_nth_take:
  "n \<le> length xs \<Longrightarrow> (\<Sum>i<n. f (xs ! i)) = sum_list (map f (take n xs))"
proof -
  assume n: "n \<le> length xs"
  have "sum_list (map f (take n xs)) = (\<Sum>i<length (take n xs). f (take n xs ! i))"
    by (simp add: sum_list_sum_nth atLeast0LessThan)
  also have "\<dots> = (\<Sum>i<n. f (xs ! i))"
    using n by (simp add: min_absorb2)
  finally show ?thesis by simp
qed

lemma sum_nth_drop:
  "(\<Sum>i = m..<length xs. f (xs ! i)) = sum_list (map f (drop m xs))"
proof -
  have "sum_list (map f (drop m xs)) = (\<Sum>i<length xs - m. f (drop m xs ! i))"
    by (simp add: sum_list_sum_nth atLeast0LessThan)
  also have "\<dots> = (\<Sum>i<length xs - m. f (xs ! (m + i)))"
    by (rule sum.cong) auto
  also have "\<dots> = (\<Sum>i = m..<length xs. f (xs ! i))"
  proof (cases "m \<le> length xs")
    case True
    then show ?thesis
      using sum.shift_bounds_nat_ivl [of "\<lambda>i. f (xs ! i)" 0 m "length xs - m"]
      by (simp add: atLeast0LessThan add.commute)
  next
    case False
    then show ?thesis by simp
  qed
  finally show ?thesis by simp
qed

section \<open>Lemmas on the pattern predicate and on code units\<close>

lemma check_loop_iff:
  "check_loop buffer offset maskOpt index headers \<longleftrightarrow>
     (\<forall>i < length headers.
        (case maskOpt of
           Some m \<Rightarrow> headers ! i = (numberOrZero m (index + i) AND byteOrZero buffer (index + i + offset))
         | None \<Rightarrow> index + i + offset < length buffer
                    \<and> headers ! i = unat (buffer ! (index + i + offset))))"
proof (induction headers arbitrary: index)
  case Nil
  show ?case by simp
next
  case (Cons header rest)
  show ?case
  proof (cases maskOpt)
    case None
    then show ?thesis
      using Cons.IH [of "Suc index"]
      by (auto simp: All_less_Suc2 nth_Cons split: nat.splits)
  next
    case (Some m)
    then show ?thesis
      using Cons.IH [of "Suc index"]
      by (auto simp: All_less_Suc2 Let_def)
  qed
qed

lemma codeunit_split:
  fixes cu :: codeunit
  shows "of_nat ((unat cu AND 0xff) + 256 * ((drop_bit 8 (unat cu)) AND 0xff)) = cu"
    and "of_nat (256 * ((drop_bit 8 (unat cu)) AND 0xff) + (unat cu AND 0xff)) = cu"
proof -
  have "(255::nat) = mask 8" by (simp add: mask_eq_exp_minus_1)
  then have m: "(n::nat) AND 0xff = n mod 256" for n
    using take_bit_eq_mask [of 8 n] by (simp add: take_bit_eq_mod)
  have lt: "unat cu < 65536" using unsigned_less [of cu, where 'a = nat] by simp
  then have d: "unat cu div 256 < 256" by simp
  have "(unat cu AND 0xff) + 256 * ((drop_bit 8 (unat cu)) AND 0xff) = unat cu"
    using d by (simp add: m drop_bit_eq_div)
  then show "of_nat ((unat cu AND 0xff) + 256 * ((drop_bit 8 (unat cu)) AND 0xff)) = cu"
    and "of_nat (256 * ((drop_bit 8 (unat cu)) AND 0xff) + (unat cu AND 0xff)) = cu"
    by (simp_all add: add.commute)
qed

lemma codeunit_split_word:
  fixes cu :: codeunit
  shows "word_of_nat (unat cu AND 255) + 256 * word_of_nat (drop_bit 8 (unat cu) AND 255) = cu"
    and "256 * word_of_nat (drop_bit 8 (unat cu) AND 255) + word_of_nat (unat cu AND 255) = cu"
  using codeunit_split [of cu] by simp_all


section \<open>Evaluating string headers\<close>

lemma spread_no_lead:
  "list_all (\<lambda>c. \<not> isLeadSurrogate c) xs \<Longrightarrow> spread xs = map (\<lambda>c. [c]) xs"
  by (induction xs rule: spread.induct) auto

lemma stringToBytes_no_lead:
  "list_all (\<lambda>c. \<not> isLeadSurrogate c) xs \<Longrightarrow> stringToBytes xs None = map unat xs"
  by (simp add: stringToBytes_def spread_no_lead comp_def charCodeAt0_def)

lemma js_unit: "unat (of_nat (of_char c) :: codeunit) = of_char c"
proof -
  have "(of_char c :: nat) < 65536"
    using nat_of_char_less_256 [of c] by linarith
  then show ?thesis by (simp add: unat_of_nat)
qed

lemma js_no_lead: "list_all (\<lambda>c. \<not> isLeadSurrogate c) (js s)"
proof -
  have "\<not> isLeadSurrogate (of_nat (of_char c))" for c :: char
  proof -
    have "(of_char c :: nat) < 55296"
      using nat_of_char_less_256 [of c] by linarith
    then show ?thesis
      using js_unit [of c] by (simp add: isLeadSurrogate_def word_le_nat_alt)
  qed
  then show ?thesis by (simp add: js_def list_all_iff)
qed

lemma map_unat_js: "map unat (js s) = map of_char s"
  by (simp add: js_def comp_def js_unit)

lemma stringToBytes_js: "stringToBytes (js s) None = map of_char s"
  using stringToBytes_no_lead [OF js_no_lead, of s] by (simp add: map_unat_js)

lemma stringToBytes_Nil: "stringToBytes [] None = []"
  by (simp add: stringToBytes_def)

lemma stringToBytes_Cons:
  "\<not> isLeadSurrogate c \<Longrightarrow> stringToBytes (c # rest) None = unat c # stringToBytes rest None"
  by (cases rest) (simp_all add: stringToBytes_def charCodeAt0_def)

lemma spread_Cons_no_lead: "\<not> isLeadSurrogate c \<Longrightarrow> spread (c # ys) = [c] # spread ys"
  by (cases ys) simp_all

lemma spread_append_no_lead:
  "list_all (\<lambda>c. \<not> isLeadSurrogate c) xs \<Longrightarrow> spread (xs @ ys) = map (\<lambda>c. [c]) xs @ spread ys"
  by (induction xs) (simp_all add: spread_Cons_no_lead)

lemma stringToBytes_js_append:
  "stringToBytes (js s @ rest) None = map of_char s @ stringToBytes rest None"
  using spread_append_no_lead [OF js_no_lead, of s rest]
  by (simp add: stringToBytes_def comp_def charCodeAt0_def js_def js_unit)

lemmas checkString_eval =
  checkString_def stringToBytes_js stringToBytes_js_append stringToBytes_Nil stringToBytes_Cons
  isLeadSurrogate_def

section \<open>The arms on the sample inputs\<close>

lemmas arm_defs =
  check_def checkString_eval byteAt_def byteOrZero_def numberOrZero_def
  jpegArm_def mpegPsArm_def dwgArm_def vttArm_def ftypArm_def riffArm_def vcardArm_def asarArm_def

lemma emptySample_length: "length emptySample = 4100"
  by (simp add: emptySample_def)

lemma emptySample_nth: "i < 4100 \<Longrightarrow> emptySample ! i = 0"
  by (simp add: emptySample_def)

lemma arms_bmp_to_exe_emptySample: "arms_bmp_to_exe emptySample = None"
  by (simp add: arms_bmp_to_exe_def arm_defs emptySample_length emptySample_nth)

lemma arms_Z_to_arj_emptySample: "arms_Z_to_arj emptySample = None"
  by (simp add: arms_Z_to_arj_def arm_defs emptySample_length emptySample_nth)

lemma arms_gif_to_jxr_emptySample: "arms_gif_to_jxr emptySample = None"
  by (simp add: arms_gif_to_jxr_def arm_defs emptySample_length emptySample_nth)

lemma arms_bz2_emptySample: "arms_bz2 emptySample = None"
  by (simp add: arms_bz2_def arm_defs emptySample_length emptySample_nth)

lemma arms_mpc_to_icns_emptySample: "arms_mpc_to_icns emptySample = None"
  by (simp add: arms_mpc_to_icns_def arm_defs emptySample_length emptySample_nth)

lemma arms_zip_to_wasm_emptySample: "arms_zip_to_wasm emptySample = None"
  by (simp add: arms_zip_to_wasm_def arm_defs emptySample_length emptySample_nth)

lemma arms_ape_emptySample: "arms_ape emptySample = None"
  by (simp add: arms_ape_def arm_defs emptySample_length emptySample_nth)

lemma arms_sqlite_to_blend_emptySample: "arms_sqlite_to_blend samplePlatform emptySample = None"
  by (simp add: arms_sqlite_to_blend_def arm_defs emptySample_length emptySample_nth)

lemma arms_vtt_emptySample: "arms_vtt emptySample = None"
  by (simp add: arms_vtt_def arm_defs emptySample_length emptySample_nth)

lemma arms_arrow_to_rw2_emptySample: "arms_arrow_to_rw2 samplePlatform emptySample = None"
  by (simp add: arms_arrow_to_rw2_def arm_defs emptySample_length emptySample_nth)

lemma arms_ktx_to_j2c_emptySample: "arms_ktx_to_j2c emptySample = None"
  by (simp add: arms_ktx_to_j2c_def arm_defs emptySample_length emptySample_nth)

lemma arms_jxl_emptySample: "arms_jxl emptySample = None"
  by (simp add: arms_jxl_def arm_defs emptySample_length emptySample_nth)

lemma arms_cfb_emptySample: "arms_cfb emptySample = None"
  by (simp add: arms_cfb_def arm_defs emptySample_length emptySample_nth)

lemma arms_icc_to_indd_emptySample: "arms_icc_to_indd samplePlatform emptySample = None"
  by (simp add: arms_icc_to_indd_def arm_defs emptySample_length emptySample_nth)

lemma arms_pgp_emptySample: "arms_pgp emptySample = None"
  by (simp add: arms_pgp_def arm_defs emptySample_length emptySample_nth)

lemma mpegAt10Sample_length: "length mpegAt10Sample = 4100"
  by (simp add: mpegAt10Sample_def mpegAt10_def)

lemma mpegAt10_length: "length mpegAt10 = 12"
  by (simp add: mpegAt10_def)

lemma mpegAt10Sample_nth: "i < 4100 \<Longrightarrow> mpegAt10Sample ! i = (if i < 12 then mpegAt10 ! i else 0)"
  by (simp add: mpegAt10Sample_def nth_append mpegAt10_length)

lemma arms_bmp_to_exe_mpegAt10Sample: "arms_bmp_to_exe mpegAt10Sample = None"
  by (simp add: arms_bmp_to_exe_def arm_defs mpegAt10Sample_length mpegAt10Sample_nth mpegAt10_def)

lemma arms_Z_to_arj_mpegAt10Sample: "arms_Z_to_arj mpegAt10Sample = None"
  by (simp add: arms_Z_to_arj_def arm_defs mpegAt10Sample_length mpegAt10Sample_nth mpegAt10_def)

lemma arms_gif_to_jxr_mpegAt10Sample: "arms_gif_to_jxr mpegAt10Sample = None"
  by (simp add: arms_gif_to_jxr_def arm_defs mpegAt10Sample_length mpegAt10Sample_nth mpegAt10_def)

lemma arms_bz2_mpegAt10Sample: "arms_bz2 mpegAt10Sample = None"
  by (simp add: arms_bz2_def arm_defs mpegAt10Sample_length mpegAt10Sample_nth mpegAt10_def)

lemma arms_mpc_to_icns_mpegAt10Sample: "arms_mpc_to_icns mpegAt10Sample = None"
  by (simp add: arms_mpc_to_icns_def arm_defs mpegAt10Sample_length mpegAt10Sample_nth mpegAt10_def)

lemma arms_zip_to_wasm_mpegAt10Sample: "arms_zip_to_wasm mpegAt10Sample = None"
  by (simp add: arms_zip_to_wasm_def arm_defs mpegAt10Sample_length mpegAt10Sample_nth mpegAt10_def)

lemma arms_ape_mpegAt10Sample: "arms_ape mpegAt10Sample = None"
  by (simp add: arms_ape_def arm_defs mpegAt10Sample_length mpegAt10Sample_nth mpegAt10_def)

lemma arms_sqlite_to_blend_mpegAt10Sample: "arms_sqlite_to_blend samplePlatform mpegAt10Sample = None"
  by (simp add: arms_sqlite_to_blend_def arm_defs mpegAt10Sample_length mpegAt10Sample_nth mpegAt10_def)

lemma arms_vtt_mpegAt10Sample: "arms_vtt mpegAt10Sample = None"
  by (simp add: arms_vtt_def arm_defs mpegAt10Sample_length mpegAt10Sample_nth mpegAt10_def)

lemma arms_arrow_to_rw2_mpegAt10Sample: "arms_arrow_to_rw2 samplePlatform mpegAt10Sample = None"
  by (simp add: arms_arrow_to_rw2_def arm_defs mpegAt10Sample_length mpegAt10Sample_nth mpegAt10_def)

lemma arms_ktx_to_j2c_mpegAt10Sample: "arms_ktx_to_j2c mpegAt10Sample = None"
  by (simp add: arms_ktx_to_j2c_def arm_defs mpegAt10Sample_length mpegAt10Sample_nth mpegAt10_def)

lemma arms_jxl_mpegAt10Sample: "arms_jxl mpegAt10Sample = None"
  by (simp add: arms_jxl_def arm_defs mpegAt10Sample_length mpegAt10Sample_nth mpegAt10_def)

lemma arms_cfb_mpegAt10Sample: "arms_cfb mpegAt10Sample = None"
  by (simp add: arms_cfb_def arm_defs mpegAt10Sample_length mpegAt10Sample_nth mpegAt10_def)

lemma arms_icc_to_indd_mpegAt10Sample: "arms_icc_to_indd samplePlatform mpegAt10Sample = None"
  by (simp add: arms_icc_to_indd_def arm_defs mpegAt10Sample_length mpegAt10Sample_nth mpegAt10_def)

lemma arms_pgp_mpegAt10Sample: "arms_pgp mpegAt10Sample = None"
  by (simp add: arms_pgp_def arm_defs mpegAt10Sample_length mpegAt10Sample_nth mpegAt10_def)

lemma ebmlDocTypeXSample_length: "length ebmlDocTypeXSample = 4100"
  by (simp add: ebmlDocTypeXSample_def ebmlDocTypeX_def)

lemma ebmlDocTypeX_length: "length ebmlDocTypeX = 9"
  by (simp add: ebmlDocTypeX_def)

lemma ebmlDocTypeXSample_nth: "i < 4100 \<Longrightarrow> ebmlDocTypeXSample ! i = (if i < 9 then ebmlDocTypeX ! i else 0)"
  by (simp add: ebmlDocTypeXSample_def nth_append ebmlDocTypeX_length)

lemma arms_bmp_to_exe_ebmlDocTypeXSample: "arms_bmp_to_exe ebmlDocTypeXSample = None"
  by (simp add: arms_bmp_to_exe_def arm_defs ebmlDocTypeXSample_length ebmlDocTypeXSample_nth ebmlDocTypeX_def)

lemma arms_Z_to_arj_ebmlDocTypeXSample: "arms_Z_to_arj ebmlDocTypeXSample = None"
  by (simp add: arms_Z_to_arj_def arm_defs ebmlDocTypeXSample_length ebmlDocTypeXSample_nth ebmlDocTypeX_def)

lemma arms_gif_to_jxr_ebmlDocTypeXSample: "arms_gif_to_jxr ebmlDocTypeXSample = None"
  by (simp add: arms_gif_to_jxr_def arm_defs ebmlDocTypeXSample_length ebmlDocTypeXSample_nth ebmlDocTypeX_def)

lemma arms_bz2_ebmlDocTypeXSample: "arms_bz2 ebmlDocTypeXSample = None"
  by (simp add: arms_bz2_def arm_defs ebmlDocTypeXSample_length ebmlDocTypeXSample_nth ebmlDocTypeX_def)

lemma arms_mpc_to_icns_ebmlDocTypeXSample: "arms_mpc_to_icns ebmlDocTypeXSample = None"
  by (simp add: arms_mpc_to_icns_def arm_defs ebmlDocTypeXSample_length ebmlDocTypeXSample_nth ebmlDocTypeX_def)

lemma arms_zip_to_wasm_ebmlDocTypeXSample: "arms_zip_to_wasm ebmlDocTypeXSample = None"
  by (simp add: arms_zip_to_wasm_def arm_defs ebmlDocTypeXSample_length ebmlDocTypeXSample_nth ebmlDocTypeX_def)

lemma arms_ape_ebmlDocTypeXSample: "arms_ape ebmlDocTypeXSample = None"
  by (simp add: arms_ape_def arm_defs ebmlDocTypeXSample_length ebmlDocTypeXSample_nth ebmlDocTypeX_def)

lemma jphFileSample_length: "length jphFileSample = 4100"
  by (simp add: jphFileSample_def jphFile_def)

lemma jphFile_length: "length jphFile = 24"
  by (simp add: jphFile_def)

lemma jphFileSample_nth: "i < 4100 \<Longrightarrow> jphFileSample ! i = (if i < 24 then jphFile ! i else 0)"
  by (simp add: jphFileSample_def nth_append jphFile_length)

lemma arms_bmp_to_exe_jphFileSample: "arms_bmp_to_exe jphFileSample = None"
  by (simp add: arms_bmp_to_exe_def arm_defs jphFileSample_length jphFileSample_nth jphFile_def)

lemma arms_Z_to_arj_jphFileSample: "arms_Z_to_arj jphFileSample = None"
  by (simp add: arms_Z_to_arj_def arm_defs jphFileSample_length jphFileSample_nth jphFile_def)

lemma arms_gif_to_jxr_jphFileSample: "arms_gif_to_jxr jphFileSample = None"
  by (simp add: arms_gif_to_jxr_def arm_defs jphFileSample_length jphFileSample_nth jphFile_def)

lemma arms_bz2_jphFileSample: "arms_bz2 jphFileSample = None"
  by (simp add: arms_bz2_def arm_defs jphFileSample_length jphFileSample_nth jphFile_def)

lemma arms_mpc_to_icns_jphFileSample: "arms_mpc_to_icns jphFileSample = None"
  by (simp add: arms_mpc_to_icns_def arm_defs jphFileSample_length jphFileSample_nth jphFile_def)

lemma arms_zip_to_wasm_jphFileSample: "arms_zip_to_wasm jphFileSample = None"
  by (simp add: arms_zip_to_wasm_def arm_defs jphFileSample_length jphFileSample_nth jphFile_def)

lemma arms_ape_jphFileSample: "arms_ape jphFileSample = None"
  by (simp add: arms_ape_def arm_defs jphFileSample_length jphFileSample_nth jphFile_def)

lemma arms_sqlite_to_blend_jphFileSample: "arms_sqlite_to_blend samplePlatform jphFileSample = None"
  by (simp add: arms_sqlite_to_blend_def arm_defs jphFileSample_length jphFileSample_nth jphFile_def)

lemma arms_vtt_jphFileSample: "arms_vtt jphFileSample = None"
  by (simp add: arms_vtt_def arm_defs jphFileSample_length jphFileSample_nth jphFile_def)

lemma arms_arrow_to_rw2_jphFileSample: "arms_arrow_to_rw2 samplePlatform jphFileSample = None"
  by (simp add: arms_arrow_to_rw2_def arm_defs jphFileSample_length jphFileSample_nth jphFile_def)

lemma arms_ktx_to_j2c_jphFileSample: "arms_ktx_to_j2c jphFileSample = None"
  by (simp add: arms_ktx_to_j2c_def arm_defs jphFileSample_length jphFileSample_nth jphFile_def)

lemma flacMagicSample_length: "length flacMagicSample = 4100"
  by (simp add: flacMagicSample_def flacMagic_def)

lemma flacMagic_length: "length flacMagic = 4"
  by (simp add: flacMagic_def)

lemma flacMagicSample_nth: "i < 4100 \<Longrightarrow> flacMagicSample ! i = (if i < 4 then flacMagic ! i else 0)"
  by (simp add: flacMagicSample_def nth_append flacMagic_length)

lemma arms_bmp_to_exe_flacMagicSample: "arms_bmp_to_exe flacMagicSample = None"
  by (simp add: arms_bmp_to_exe_def arm_defs flacMagicSample_length flacMagicSample_nth flacMagic_def)

lemma arms_Z_to_arj_flacMagicSample: "arms_Z_to_arj flacMagicSample = None"
  by (simp add: arms_Z_to_arj_def arm_defs flacMagicSample_length flacMagicSample_nth flacMagic_def)

lemma arms_gif_to_jxr_flacMagicSample: "arms_gif_to_jxr flacMagicSample = None"
  by (simp add: arms_gif_to_jxr_def arm_defs flacMagicSample_length flacMagicSample_nth flacMagic_def)

lemma arms_bz2_flacMagicSample: "arms_bz2 flacMagicSample = None"
  by (simp add: arms_bz2_def arm_defs flacMagicSample_length flacMagicSample_nth flacMagic_def)

lemma arms_mpc_to_icns_flacMagicSample: "arms_mpc_to_icns flacMagicSample = None"
  by (simp add: arms_mpc_to_icns_def arm_defs flacMagicSample_length flacMagicSample_nth flacMagic_def)

section \<open>Lemmas on the detectors\<close>

lemma runDetectors_quiet_prefix:
  "quietRun p0 pre st = Some st1 \<Longrightarrow>
     runDetectors p0 (pre @ post) st = runDetectors p0 post st1"
proof (induction pre arbitrary: st)
  case Nil
  then show ?case by simp
next
  case (Cons d pre)
  then show ?case
    by (auto split: sum.splits option.splits if_splits prod.splits)
qed

lemma six_zero_units: "replicate 6 (0::codeunit) = [0, 0, 0, 0, 0, 0]"
  by (simp add: eval_nat_numeral)

lemma declared_sum_zero: "parseInt8 (trim (replaceNulTail (replicate 6 (0::codeunit)))) = None"
  unfolding six_zero_units by (simp add: parseInt8_def trim_def isLineTerminator_def)

lemma tar_zero_field:
  "take 6 (drop 148 buffer) = replicate 6 0 \<Longrightarrow> \<not> tarHeaderChecksumMatches samplePlatform buffer 0"
  by (simp add: tarHeaderChecksumMatches_def StringType_get_def samplePlatform_def
      bytewiseDecode_def declared_sum_zero)

lemma arms_tar_emptySample: "arms_tar samplePlatform emptySample = None"
proof -
  have "take 6 (drop 148 emptySample) = replicate 6 0"
    by (simp add: emptySample_def)
  then show ?thesis
    by (simp add: arms_tar_def tarArm_def arm_defs emptySample_length emptySample_nth tar_zero_field)
qed

lemma arms_tar_mpegAt10Sample: "arms_tar samplePlatform mpegAt10Sample = None"
proof -
  have "take 6 (drop 148 mpegAt10Sample) = replicate 6 0"
    by (simp add: mpegAt10Sample_def mpegAt10_length)
  then show ?thesis
    by (simp add: arms_tar_def tarArm_def arm_defs mpegAt10Sample_length mpegAt10Sample_nth
        mpegAt10_def tar_zero_field)
qed

lemmas run_defs =
  detectConfidentBody_def startSample_def reasonableDetectionSizeInBytes_def confidentArms_def
  sampleArms_def returningArm_def tiffArm_def growSample_def

lemmas emptySample_arms =
  arms_bmp_to_exe_emptySample arms_Z_to_arj_emptySample arms_gif_to_jxr_emptySample
  arms_bz2_emptySample arms_mpc_to_icns_emptySample arms_zip_to_wasm_emptySample
  arms_ape_emptySample arms_sqlite_to_blend_emptySample arms_vtt_emptySample
  arms_arrow_to_rw2_emptySample arms_ktx_to_j2c_emptySample arms_jxl_emptySample
  arms_cfb_emptySample arms_icc_to_indd_emptySample arms_tar_emptySample arms_pgp_emptySample

lemmas mpegAt10Sample_arms =
  arms_bmp_to_exe_mpegAt10Sample arms_Z_to_arj_mpegAt10Sample arms_gif_to_jxr_mpegAt10Sample
  arms_bz2_mpegAt10Sample arms_mpc_to_icns_mpegAt10Sample arms_zip_to_wasm_mpegAt10Sample
  arms_ape_mpegAt10Sample arms_sqlite_to_blend_mpegAt10Sample arms_vtt_mpegAt10Sample
  arms_arrow_to_rw2_mpegAt10Sample arms_ktx_to_j2c_mpegAt10Sample arms_jxl_mpegAt10Sample
  arms_cfb_mpegAt10Sample arms_icc_to_indd_mpegAt10Sample arms_tar_mpegAt10Sample
  arms_pgp_mpegAt10Sample

text \<open>Peeking when nothing is ahead leaves the buffer as it is.\<close>

lemma fillBuffer_Nil: "fillBuffer dst [] = dst"
  by (simp add: fillBuffer_def)

lemma peekBuffer_at_end: "ahead tokenizer = [] \<Longrightarrow> peekBuffer tokenizer dst n = dst"
  by (simp add: peekBuffer_def fillBuffer_Nil)

lemma defaultSize_known: "fileSize tokenizer = Some s \<Longrightarrow> defaultSize tokenizer = tokenizer"
  by (simp add: defaultSize_def)

lemma ahead_defaultSize: "ahead (defaultSize tokenizer) = ahead tokenizer"
  by (simp add: ahead_def defaultSize_def split: option.splits)

lemma detectConfident_at_end:
  assumes "ahead tokenizer = []"
  shows "detectConfident (Suc n) samplePlatform opts (tokenizer, buffer)
           = Inr (None, (defaultSize tokenizer, emptySample))"
proof -
  have a: "ahead (defaultSize tokenizer) = []"
    using assms by (simp add: ahead_defaultSize)
  have s: "replicate 4100 0 = emptySample" by (simp add: emptySample_def)
  show ?thesis
    by (simp add: run_defs peekBuffer_at_end [OF a] s emptySample_arms arm_defs
        emptySample_length emptySample_nth)
qed

lemma fillBuffer_length: "length (fillBuffer dst bytes) = length dst"
  by (simp add: fillBuffer_def)

lemma peekBuffer_length: "length (peekBuffer tokenizer dst n) = length dst"
  by (simp add: peekBuffer_def fillBuffer_length)

lemma fillBuffer_nth:
  "i < length dst \<Longrightarrow>
     fillBuffer dst bytes ! i = (if i < length bytes then bytes ! i else dst ! i)"
  by (simp add: fillBuffer_def nth_append)

lemma peekBuffer_nth:
  "i < length dst \<Longrightarrow>
     peekBuffer tokenizer dst n ! i
       = (if i < n \<and> i < length (ahead tokenizer) then ahead tokenizer ! i else dst ! i)"
  by (simp add: peekBuffer_def fillBuffer_nth)

lemma take3_nth:
  assumes "take 3 xs = [a, b, c]"
  shows "3 \<le> length xs \<and> xs ! 0 = a \<and> xs ! 1 = b \<and> xs ! 2 = c"
proof -
  have "length (take 3 xs) = 3" using assms by simp
  then have l: "3 \<le> length xs" by simp
  have "take 3 xs ! 0 = a" "take 3 xs ! 1 = b" "take 3 xs ! 2 = c"
    using assms by simp_all
  then show ?thesis using l by simp
qed

lemma detectConfident_ID3_arm:
  assumes id3: "take 3 (ahead tokenizer) = [0x49, 0x44, 0x33]"
  shows "detectConfident (Suc n) E opts (tokenizer, buffer)
           = id3Arm (fromTokenizer n E opts) (defaultSize tokenizer)
               (peekBuffer (defaultSize tokenizer) (replicate 4100 0) 32)"
proof -
  let ?s = "peekBuffer (defaultSize tokenizer) (replicate 4100 0) 32"
  have a: "3 \<le> length (ahead tokenizer)" "ahead tokenizer ! 0 = 0x49"
    "ahead tokenizer ! 1 = 0x44" "ahead tokenizer ! 2 = 0x33"
    using take3_nth [OF id3] by simp_all
  have l: "length ?s = 4100" by (simp add: peekBuffer_length)
  have p: "0 < length (ahead tokenizer)" "1 < length (ahead tokenizer)"
    "2 < length (ahead tokenizer)"
    using a(1) by (auto simp del: length_greater_0_conv)
  have s0: "?s ! 0 = 0x49" and s1: "?s ! Suc 0 = 0x44" and s2: "?s ! Suc (Suc 0) = 0x33"
    using a p by (simp_all add: peekBuffer_nth ahead_defaultSize numeral_2_eq_2
        del: length_greater_0_conv)
  have g1: "arms_bmp_to_exe ?s = None"
    by (simp add: arms_bmp_to_exe_def check_def l s0 s1 s2)
  have g2: "arms_Z_to_arj ?s = None"
    by (simp add: arms_Z_to_arj_def check_def l s0 s1 s2)
  have g3: "arms_gif_to_jxr ?s = None"
    by (simp add: arms_gif_to_jxr_def check_def l s0 s1 s2)
  have g4: "arms_bz2 ?s = None"
    by (simp add: arms_bz2_def check_def l s0 s1 s2)
  have c1: "\<not> check ?s [0x25, 0x21] 0 None" "\<not> check ?s [0xef, 0xbb, 0xbf] 0 None"
    "\<not> check ?s [0x1f, 0x8b, 0x8] 0 None"
    by (simp_all add: check_def l s0 s1 s2)
  have c2: "checkString ?s (js ''ID3'') 0 None"
    by (simp add: check_def checkString_eval l s0 s1 s2)
  show ?thesis
    by (simp add: run_defs Let_def g1 g2 g3 g4 c1 c2 fromTokenizer_def)
qed

lemma ahead_advance:
  "ahead (tokenizer\<lparr> position := position tokenizer + k \<rparr>) = drop k (ahead tokenizer)"
  by (simp add: ahead_def add.commute)

lemma sizeOf_position [simp]: "sizeOf (tokenizer\<lparr> position := p \<rparr>) = sizeOf tokenizer"
  by (simp add: sizeOf_def)

lemma id3Arm_header:
  assumes "10 \<le> length (ahead tokenizer)"
  shows "id3Arm pipeline tokenizer buffer =
     (let t2 = tokenizer\<lparr> position := position tokenizer + 10 \<rparr>;
          L = uint32SyncSafeToken_get (take 4 (drop 6 (ahead tokenizer))) 0
      in if position t2 + L > sizeOf t2 then Inr (Some (ft ''mp3'' ''audio/mpeg''), (t2, buffer))
         else if length (ahead tokenizer) < 10 + L then Inl EndOfStreamError
         else pipeline (tokenizer\<lparr> position := position tokenizer + 10 + L \<rparr>, buffer))"
proof -
  have i6: "ignore tokenizer 6 = Inr (tokenizer\<lparr> position := position tokenizer + 6 \<rparr>)"
    using assms by (simp add: ignore_def)
  have r4: "readBytes (tokenizer\<lparr> position := position tokenizer + 6 \<rparr>) uint32SyncSafeToken_len
              = Inr (take 4 (drop 6 (ahead tokenizer)),
                     tokenizer\<lparr> position := position tokenizer + 10 \<rparr>)"
    using assms by (simp add: readBytes_def uint32SyncSafeToken_len_def ahead_advance)
  have i3: "ignore (tokenizer\<lparr> position := position tokenizer + 10 \<rparr>) (int L)
              = (if length (ahead tokenizer) < 10 + L then Inl EndOfStreamError
                 else Inr (tokenizer\<lparr> position := position tokenizer + 10 + L \<rparr>))" for L
    using assms by (auto simp add: ignore_def ahead_advance)
  show ?thesis
    by (simp only: id3Arm_def i6 r4 i3 sum.case prod.case Let_def)
      (simp add: Let_def)
qed

subsection \<open>Evaluation on the sample inputs\<close>

lemma bufferTokenizer_simps:
  "defaultSize (bufferTokenizer x) = bufferTokenizer x"
  "ahead (bufferTokenizer x) = x"
  "sizeOf (bufferTokenizer x) = length x"
  "position (bufferTokenizer x) = 0"
  "defaultSize (bufferTokenizer x\<lparr> position := k \<rparr>) = bufferTokenizer x\<lparr> position := k \<rparr>"
  "ahead (bufferTokenizer x\<lparr> position := k \<rparr>) = drop k x"
  by (simp_all add: bufferTokenizer_def defaultSize_def ahead_def sizeOf_def)

lemma peekBuffer_fresh:
  "length (ahead tokenizer) \<le> n \<Longrightarrow> length (ahead tokenizer) \<le> m \<Longrightarrow>
     peekBuffer tokenizer (replicate m 0) n
       = ahead tokenizer @ replicate (m - length (ahead tokenizer)) 0"
  by (simp add: peekBuffer_def fillBuffer_def)

lemma peekBuffer_again:
  "peekBuffer tokenizer (ahead tokenizer @ rest) n = ahead tokenizer @ rest"
proof (cases "n \<le> length (ahead tokenizer)")
  case True
  then have "take n (ahead tokenizer) @ drop n (ahead tokenizer) @ rest = ahead tokenizer @ rest"
    by (metis append.assoc append_take_drop_id)
  with True show ?thesis
    by (simp add: peekBuffer_def fillBuffer_def min_def)
next
  case False
  then show ?thesis
    by (simp add: peekBuffer_def fillBuffer_def min_def)
qed

lemma upt_11: "[0..<11] = [0, 1, 2, 3, 4, 5, 6, 7, 8, 9, 10::nat]"
  by code_simp

lemma detectImprecise_at_end:
  assumes "ahead tokenizer = []"
  shows "detectImprecise defaultOptions (tokenizer, emptySample)
           = Inr (None, (defaultSize tokenizer, emptySample))"
proof -
  have a: "ahead (defaultSize tokenizer) = []"
    using assms by (simp add: ahead_defaultSize)
  show ?thesis
    by (simp add: detectImprecise_def Let_def peekBuffer_at_end [OF a] defaultOptions_def
        scanMpeg_def arm_defs emptySample_length emptySample_nth)
qed

lemma fromTokenizer_at_end:
  assumes "ahead tokenizer = []"
  shows "fromTokenizer (Suc n) samplePlatform defaultOptions (tokenizer, buffer)
           = Inr (None, (defaultSize tokenizer, emptySample))"
proof -
  have a: "ahead (defaultSize tokenizer) = []"
    using assms by (simp add: ahead_defaultSize)
  have p: "position (defaultSize tokenizer) = position tokenizer"
    by (simp add: defaultSize_def split: option.splits)
  have d: "defaultSize (defaultSize tokenizer) = defaultSize tokenizer"
    by (simp add: defaultSize_def split: option.splits)
  show ?thesis
    by (simp add: fromTokenizer_def fromTokenizerWith_def detectors_def defaultOptions_def
        detectConfident_at_end [OF assms] detectImprecise_at_end [OF a, unfolded defaultOptions_def] p d
        del: detectConfident.simps)
qed

lemma mpegAt10_fresh:
  "12 \<le> n \<Longrightarrow> peekBuffer (bufferTokenizer mpegAt10) (replicate 4100 0) n = mpegAt10Sample"
  by (simp add: peekBuffer_fresh bufferTokenizer_simps mpegAt10_length mpegAt10Sample_def)

lemma mpegAt10_again: "peekBuffer (bufferTokenizer mpegAt10) mpegAt10Sample n = mpegAt10Sample"
  using peekBuffer_again [of "bufferTokenizer mpegAt10" "replicate 4088 0" n]
  by (simp add: bufferTokenizer_simps mpegAt10Sample_def)

lemma mpegAt10Sample_conds:
  "\<not> check mpegAt10Sample [0x25, 0x21] 0 None"
  "\<not> check mpegAt10Sample [0xef, 0xbb, 0xbf] 0 None"
  "\<not> check mpegAt10Sample [0x1f, 0x8b, 0x8] 0 None"
  "\<not> checkString mpegAt10Sample (js ''ID3'') 0 None"
  "\<not> check mpegAt10Sample [0x50, 0x4b, 0x3, 0x4] 0 None"
  "\<not> checkString mpegAt10Sample (js ''OggS'') 0 None"
  "\<not> check mpegAt10Sample [0x49, 0x49] 0 None"
  "\<not> check mpegAt10Sample [0x4d, 0x4d] 0 None"
  "\<not> check mpegAt10Sample [0x1a, 0x45, 0xdf, 0xa3] 0 None"
  "\<not> checkString mpegAt10Sample (js ''!<arch>'') 0 None"
  "\<not> check mpegAt10Sample [0x89, 0x50, 0x4e, 0x47, 0x0d, 0x0a, 0x1a, 0x0a] 0 None"
  "\<not> check mpegAt10Sample [0x30, 0x26, 0xb2, 0x75, 0x8e, 0x66, 0xcf, 0x11, 0xa6, 0xd9] 0 None"
  "\<not> check mpegAt10Sample
        [0x00, 0x00, 0x00, 0x0c, 0x6a, 0x50, 0x20, 0x20, 0x0d, 0x0a, 0x87, 0x0a] 0 None"
  "\<not> check mpegAt10Sample [0xfe, 0xff] 0 None"
  "\<not> check mpegAt10Sample [0xff, 0xfe] 0 None"
  by (simp_all add: check_def checkString_eval mpegAt10Sample_length mpegAt10Sample_nth mpegAt10_def)

lemma detectConfident_mpegAt10:
  "detectConfident (Suc n) samplePlatform opts (bufferTokenizer mpegAt10, buffer)
     = Inr (None, (bufferTokenizer mpegAt10, mpegAt10Sample))"
  by (simp add: run_defs Let_def bufferTokenizer_simps mpegAt10_fresh mpegAt10_again
      mpegAt10_length mpegAt10Sample_arms mpegAt10Sample_conds)

lemma mpegAt10Sample_imprecise:
  "\<not> check mpegAt10Sample [0x0, 0x0, 0x1, 0xba] 0 None"
  "\<not> check mpegAt10Sample [0x0, 0x0, 0x1, 0xb3] 0 None"
  "\<not> check mpegAt10Sample [0x00, 0x01, 0x00, 0x00, 0x00] 0 None"
  "\<not> check mpegAt10Sample [0x00, 0x00, 0x01, 0x00] 0 None"
  "\<not> check mpegAt10Sample [0x00, 0x00, 0x02, 0x00] 0 None"
  by (simp_all add: check_def mpegAt10Sample_length mpegAt10Sample_nth mpegAt10_def)

lemma scanMpeg_mpegAt10Sample:
  "depth < 10 \<Longrightarrow> scanMpeg mpegAt10Sample depth = None"
  "scanMpeg mpegAt10Sample 10 = Some (ft ''mp3'' ''audio/mpeg'')"
  by (simp_all add: scanMpeg_def check_def byteOrZero_def numberOrZero_def
      mpegAt10Sample_length mpegAt10Sample_nth mpegAt10_def nth_Cons')

lemma upt_1: "[0..<1] = [0::nat]"
  by code_simp

lemma detectImprecise_mpegAt10_default:
  "mpegOffsetTolerance opts = 0 \<Longrightarrow>
   detectImprecise opts (bufferTokenizer mpegAt10, mpegAt10Sample)
     = Inr (None, (bufferTokenizer mpegAt10, mpegAt10Sample))"
  by (simp add: detectImprecise_def Let_def bufferTokenizer_simps mpegAt10_again upt_1
      mpegAt10Sample_imprecise scanMpeg_mpegAt10Sample mpegAt10Sample_length
      del: One_nat_def)

lemma detectImprecise_mpegAt10_tolerant:
  "mpegOffsetTolerance opts = 10 \<Longrightarrow>
   detectImprecise opts (bufferTokenizer mpegAt10, mpegAt10Sample)
     = Inr (Some (ft ''mp3'' ''audio/mpeg''), (bufferTokenizer mpegAt10, mpegAt10Sample))"
  by (simp add: detectImprecise_def Let_def bufferTokenizer_simps mpegAt10_again upt_11
      mpegAt10Sample_imprecise scanMpeg_mpegAt10Sample mpegAt10Sample_length
      del: One_nat_def)

lemma flacMagicSample_conds:
  "\<not> check flacMagicSample [0x25, 0x21] 0 None"
  "\<not> check flacMagicSample [0xef, 0xbb, 0xbf] 0 None"
  "\<not> check flacMagicSample [0x1f, 0x8b, 0x8] 0 None"
  "\<not> checkString flacMagicSample (js ''ID3'') 0 None"
  "\<not> check flacMagicSample [0x50, 0x4b, 0x3, 0x4] 0 None"
  "\<not> checkString flacMagicSample (js ''OggS'') 0 None"
  by (simp_all add: check_def checkString_eval flacMagicSample_length flacMagicSample_nth
      flacMagic_def)

lemma arms_zip_to_wasm_flacMagicSample:
  "arms_zip_to_wasm flacMagicSample = Some (ft ''flac'' ''audio/flac'')"
  by (simp add: arms_zip_to_wasm_def arm_defs flacMagicSample_length flacMagicSample_nth
      flacMagic_def)

lemma id3Flac_ahead: "drop 10 id3Flac = flacMagic"
  by (simp add: id3Flac_def)

lemma id3Flac_length: "length id3Flac = 14"
  by (simp add: id3Flac_def flacMagic_def)

lemma detectConfident_flac_behind_tag:
  "detectConfident (Suc n) samplePlatform opts (bufferTokenizer id3Flac\<lparr> position := 10 \<rparr>, buffer)
     = Inr (Some (ft ''flac'' ''audio/flac''),
            (bufferTokenizer id3Flac\<lparr> position := 10 \<rparr>, flacMagicSample))"
proof -
  have p: "peekBuffer (bufferTokenizer id3Flac\<lparr> position := 10 \<rparr>) (replicate 4100 0) 32
             = flacMagicSample"
    by (simp add: peekBuffer_fresh bufferTokenizer_simps id3Flac_ahead flacMagic_length
        flacMagicSample_def)
  show ?thesis
    by (simp add: run_defs Let_def bufferTokenizer_simps p flacMagicSample_conds
        arms_bmp_to_exe_flacMagicSample arms_Z_to_arj_flacMagicSample
        arms_gif_to_jxr_flacMagicSample arms_bz2_flacMagicSample
        arms_mpc_to_icns_flacMagicSample arms_zip_to_wasm_flacMagicSample)
qed

lemma id3_tags:
  "take 3 id3Only = [0x49, 0x44, 0x33]" "length id3Only = 10"
  "take 3 id3Long = [0x49, 0x44, 0x33]" "length id3Long = 12"
  "take 3 id3Flac = [0x49, 0x44, 0x33]"
  by (simp_all add: id3Only_def id3Long_def id3Flac_def)

lemma id3_lengths:
  "uint32SyncSafeToken_get (take 4 (drop 6 id3Only)) 0 = 0"
  "uint32SyncSafeToken_get (take 4 (drop 6 id3Long)) 0 = 257"
  "uint32SyncSafeToken_get (take 4 (drop 6 id3Flac)) 0 = 0"
  "uint32SyncSafeToken_get (drop 6 id3Only) 0 = 0"
  by (simp_all add: uint32SyncSafeToken_get_def byteOrZero_def numberOrZero_def
      id3Only_def id3Long_def id3Flac_def)

subsection \<open>The MPEG scan\<close>

lemma check_cong:
  assumes "\<forall>i < length headers. offset + i < length a \<and> offset + i < length b
             \<and> a ! (offset + i) = b ! (offset + i)"
  shows "check a headers offset maskOpt = check b headers offset maskOpt"
  using assms
  by (cases maskOpt) (auto simp add: check_def check_loop_iff byteOrZero_def add.commute)

lemma scanMpeg_cong:
  assumes "Suc offset < length a" "Suc offset < length b"
      and "a ! offset = b ! offset" "a ! Suc offset = b ! Suc offset"
  shows "scanMpeg a offset = scanMpeg b offset"
proof -
  have c2: "check a [h0, h1] offset m = check b [h0, h1] offset m" for h0 h1 m
    using assms by (intro check_cong) (auto simp add: less_Suc_eq)
  have c1: "check a [h] (offset + 1) m = check b [h] (offset + 1) m" for h m
    using assms by (intro check_cong) auto
  show ?thesis
    unfolding scanMpeg_def c1 c2 ..
qed

lemma scanMpeg_layer3:
  assumes "Suc offset < length a" "a ! offset = 0xFF"
      and "unat (a ! Suc offset) AND 0xE0 = 0xE0"
      and "unat (a ! Suc offset) AND 0x16 \<noteq> 0x10"
      and "unat (a ! Suc offset) AND 0x06 = 0x02"
  shows "scanMpeg a offset = Some (ft ''mp3'' ''audio/mpeg'')"
proof -
  have s: "check a [0xff, 0xe0] offset (Some [0xff, 0xe0])"
    using assms(1-3)
    by (simp add: check_def byteOrZero_def numberOrZero_def and.commute)
  have n: "\<not> check a [0x10] (offset + 1) (Some [0x16])"
    using assms(1,4)
    by (auto simp add: check_def byteOrZero_def numberOrZero_def and.commute)
  have l: "check a [0x02] (offset + 1) (Some [0x06])"
    using assms(1,5)
    by (simp add: check_def byteOrZero_def numberOrZero_def and.commute)
  show ?thesis
    by (simp only: scanMpeg_def s n l if_True if_False)
qed

lemma scanDepths_first:
  "\<forall>d \<in> set ds. scanMpeg b d = None \<Longrightarrow> scanDepths b (ds @ [k]) = scanMpeg b k"
  by (induction ds) (auto split: option.splits)

lemma scanDepths_none:
  "\<forall>d \<in> set ds. scanMpeg b d = None \<Longrightarrow> scanDepths b ds = None"
  by (induction ds) auto

lemma peekBuffer_prefix:
  assumes "i < n" "n \<le> length (ahead tokenizer)" "n \<le> length dst"
  shows "peekBuffer tokenizer dst n ! i = ahead tokenizer ! i"
  using assms by (simp add: peekBuffer_nth)

lemma peekBuffer_keeps:
  assumes "i < length dst" "dst ! i = ahead tokenizer ! i"
  shows "peekBuffer tokenizer dst n ! i = ahead tokenizer ! i"
  using assms by (simp add: peekBuffer_nth)

lemma detectImprecise_sync_at_10:
  assumes len: "12 \<le> length input" and sl: "12 \<le> length sample"
      and sync: "input ! 10 = 0xFF" "unat (input ! 11) AND 0xE0 = 0xE0"
                "unat (input ! 11) AND 0x16 \<noteq> 0x10" "unat (input ! 11) AND 0x06 = 0x02"
      and video: "\<not> check input [0x0, 0x0, 0x1, 0xba] 0 None"
                 "\<not> check input [0x0, 0x0, 0x1, 0xb3] 0 None"
      and font: "\<not> check input [0x00, 0x01, 0x00, 0x00, 0x00] 0 None"
      and icon: "\<not> check input [0x00, 0x00, 0x01, 0x00] 0 None"
                "\<not> check input [0x00, 0x00, 0x02, 0x00] 0 None"
      and earlier: "\<forall>depth < 10. scanMpeg input depth = None"
  shows "mpegOffsetTolerance opts = 0 \<Longrightarrow>
           \<exists>st'. detectImprecise opts (bufferTokenizer input, sample) = Inr (None, st')"
    and "mpegOffsetTolerance opts = 10 \<Longrightarrow>
           \<exists>st'. detectImprecise opts (bufferTokenizer input, sample)
                   = Inr (Some (ft ''mp3'' ''audio/mpeg''), st')"
proof -
  let ?tk = "bufferTokenizer input"
  let ?B8 = "peekBuffer ?tk sample 8"
  have a: "ahead ?tk = input" by (simp add: bufferTokenizer_simps)
  have m8: "min 8 (length input) = 8" using len by simp
  have l8: "length ?B8 = length sample" by (simp add: peekBuffer_length)
  have n8: "?B8 ! i = input ! i" if "i < 8" for i
    using that len sl peekBuffer_prefix [of i 8 ?tk sample] by (simp add: a)
  have c8: "check ?B8 hs 0 None = check input hs 0 None" if "length hs \<le> 8" for hs
    using that len sl by (intro check_cong) (auto simp add: l8 n8)
  have arms: "\<not> check ?B8 [0x0, 0x0, 0x1, 0xba] 0 None"
             "\<not> check ?B8 [0x0, 0x0, 0x1, 0xb3] 0 None"
             "\<not> check ?B8 [0x00, 0x01, 0x00, 0x00, 0x00] 0 None"
             "\<not> check ?B8 [0x00, 0x00, 0x01, 0x00] 0 None"
             "\<not> check ?B8 [0x00, 0x00, 0x02, 0x00] 0 None"
    using video font icon by (simp_all add: c8 del: One_nat_def)
  {
    assume t: "mpegOffsetTolerance opts = 0"
    let ?B = "peekBuffer ?tk ?B8 2"
    have lB: "length ?B = length sample" by (simp add: peekBuffer_length)
    have nB: "?B ! i = input ! i" if "i < 8" for i
      using that sl peekBuffer_keeps [of i ?B8 ?tk 2] by (simp add: a l8 n8)
    have "scanMpeg ?B 0 = scanMpeg input 0"
      using len sl nB [of 0] nB [of 1] by (intro scanMpeg_cong) (simp_all add: lB)
    then have s: "scanMpeg ?B 0 = None" using earlier by simp
    have m2: "min 2 (length input) = 2" using len by simp
    have "detectImprecise opts (?tk, sample) = Inr (None, (?tk, ?B))"
      using sl
      by (simp add: detectImprecise_def Let_def bufferTokenizer_simps m8 m2 arms t lB upt_1 s
          del: One_nat_def)
    then show "\<exists>st'. detectImprecise opts (?tk, sample) = Inr (None, st')" by blast
  }
  {
    assume t: "mpegOffsetTolerance opts = 10"
    let ?B = "peekBuffer ?tk ?B8 12"
    have lB: "length ?B = length sample" by (simp add: peekBuffer_length)
    have nB: "?B ! i = input ! i" if "i < 12" for i
      using that len sl peekBuffer_prefix [of i 12 ?tk ?B8] by (simp add: a l8)
    have e: "scanMpeg ?B depth = scanMpeg input depth" if "depth < 11" for depth
      using that len sl nB [of depth] nB [of "Suc depth"]
      by (intro scanMpeg_cong) (simp_all add: lB)
    have none: "\<forall>depth \<in> set [0..<10]. scanMpeg ?B depth = None"
      using earlier e by simp
    have "scanMpeg input 10 = Some (ft ''mp3'' ''audio/mpeg'')"
      using len sync by (intro scanMpeg_layer3) simp_all
    then have hit: "scanMpeg ?B 10 = Some (ft ''mp3'' ''audio/mpeg'')"
      using e [of 10] by simp
    have u: "[0..<11] = [0..<10] @ [10::nat]"
      by (simp add: upt_11) code_simp
    have sd: "scanDepths ?B [0..<11] = Some (ft ''mp3'' ''audio/mpeg'')"
      unfolding u scanDepths_first [OF none] by (rule hit)
    have m12: "min 12 (length input) = 12" using len by simp
    have "detectImprecise opts (?tk, sample)
            = Inr (Some (ft ''mp3'' ''audio/mpeg''), (?tk, ?B))"
      using sl
      by (simp add: detectImprecise_def Let_def bufferTokenizer_simps m8 m12 arms t lB sd
          del: One_nat_def)
    then show "\<exists>st'. detectImprecise opts (?tk, sample)
                       = Inr (Some (ft ''mp3'' ''audio/mpeg''), st')" by blast
  }
qed

lemma mpegAt10_imprecise:
  "\<not> check mpegAt10 [0x0, 0x0, 0x1, 0xba] 0 None"
  "\<not> check mpegAt10 [0x0, 0x0, 0x1, 0xb3] 0 None"
  "\<not> check mpegAt10 [0x00, 0x01, 0x00, 0x00, 0x00] 0 None"
  "\<not> check mpegAt10 [0x00, 0x00, 0x01, 0x00] 0 None"
  "\<not> check mpegAt10 [0x00, 0x00, 0x02, 0x00] 0 None"
  by (simp_all add: check_def mpegAt10_def)

lemma scanMpeg_mpegAt10: "depth < 10 \<Longrightarrow> scanMpeg mpegAt10 depth = None"
  by (simp add: scanMpeg_def check_def byteOrZero_def numberOrZero_def mpegAt10_def nth_Cons')

lemma mpegAt10_sync:
  "mpegAt10 ! 10 = 0xFF" "unat (mpegAt10 ! 11) AND 0xE0 = 0xE0"
  "unat (mpegAt10 ! 11) AND 0x16 \<noteq> 0x10" "unat (mpegAt10 ! 11) AND 0x06 = 0x02"
  by (simp_all add: mpegAt10_def)

subsection \<open>An MPEG sync before a DICOM preamble\<close>

lemma dicmAt128_length: "length dicmAt128 = 132"
  by (simp add: dicmAt128_def mpegAt10_def)

lemma dicmAt128Sample_length: "length dicmAt128Sample = 4100"
  by (simp add: dicmAt128Sample_def dicmAt128_length)

lemma dicmAt128_first: "dicmAt128 @ replicate 3968 0 = mpegAt10 @ replicate 116 0 @ [0x44, 0x49, 0x43, 0x4D] @ replicate 3968 0"
  by (simp add: dicmAt128_def)

lemma dicmAt128Sample_nth:
  "i < 4100 \<Longrightarrow>
     dicmAt128Sample ! i
       = (if i < 12 then mpegAt10 ! i
          else if i < 128 then 0
          else if i < 132 then [0x44, 0x49, 0x43, 0x4D] ! (i - 128)
          else 0)"
  by (auto simp add: dicmAt128Sample_def dicmAt128_def nth_append mpegAt10_length nth_Cons')

lemma dicmAt128_fresh:
  "peekBuffer (bufferTokenizer dicmAt128) (replicate 4100 0) 32 = mpegAt10Sample"
  by (simp add: peekBuffer_def fillBuffer_def bufferTokenizer_simps dicmAt128_def
      mpegAt10Sample_def mpegAt10_length replicate_add [symmetric])

lemma dicmAt128_grown:
  "peekBuffer (bufferTokenizer dicmAt128) mpegAt10Sample 132 = dicmAt128Sample"
  by (simp add: peekBuffer_def fillBuffer_def bufferTokenizer_simps dicmAt128_length
      mpegAt10Sample_def mpegAt10_length dicmAt128Sample_def)

lemma arms_icc_to_indd_dicmAt128Sample:
  "arms_icc_to_indd samplePlatform dicmAt128Sample = Some (ft ''dcm'' ''application/dicom'')"
  by (simp add: arms_icc_to_indd_def arm_defs dicmAt128Sample_length dicmAt128Sample_nth
      mpegAt10_def)

lemma detectConfident_dicmAt128:
  "detectConfident (Suc n) samplePlatform opts (bufferTokenizer dicmAt128, buffer)
     = Inr (Some (ft ''dcm'' ''application/dicom''), (bufferTokenizer dicmAt128, dicmAt128Sample))"
  by (simp add: run_defs Let_def bufferTokenizer_simps dicmAt128_fresh dicmAt128_grown
      dicmAt128_length mpegAt10Sample_arms mpegAt10Sample_conds
      arms_icc_to_indd_dicmAt128Sample)

lemma fromBuffer_dicmAt128:
  "customDetectors opts = [] \<Longrightarrow>
     fromBuffer (Suc n) samplePlatform opts dicmAt128 = Inr (Some (ft ''dcm'' ''application/dicom''))"
proof -
  assume c: "customDetectors opts = []"
  have b: "\<lparr> source = dicmAt128, position = 0, fileSize = Some 132 \<rparr>
             = bufferTokenizer dicmAt128"
    by (simp add: bufferTokenizer_def dicmAt128_length)
  show ?thesis
    by (simp add: fromBuffer_def b fromTokenizer_def fromTokenizerWith_def detectors_def c
        detectConfident_dicmAt128 dicmAt128_length del: detectConfident.simps)
qed

subsection \<open>The frame of the confident detector\<close>

lemma keepsFrame_sampleArms: "keepsFrame Q (sampleArms arms)"
  by (simp add: keepsFrame_def sampleArms_def split: option.splits)

lemma keepsFrame_skipped:
  "(\<And>s. Q s \<Longrightarrow> \<not> cond (snd s)) \<Longrightarrow> keepsFrame Q (returningArm cond block)"
  by (simp add: keepsFrame_def returningArm_def)

lemma keepsFrame_returning:
  "(\<And>s s'. block s = Inr (None, s') \<Longrightarrow> fst s' = fst s)
     \<Longrightarrow> keepsFrame Q (returningArm cond block)"
  by (simp add: keepsFrame_def returningArm_def)

lemma keepsFrame_growSample: "keepsFrame (\<lambda>s. True) (growSample n)"
  by (simp add: keepsFrame_def growSample_def)

lemma readTiffHeader_undefined:
  "readTiffHeader bigEndian buffer tokenizer = Inr (None, t1) \<Longrightarrow> t1 = tokenizer"
  by (auto simp add: readTiffHeader_def Let_def split: if_splits sum.splits prod.splits)

lemma keepsFrame_tiffArm: "keepsFrame Q (tiffArm header bigEndian)"
  by (auto simp add: keepsFrame_def tiffArm_def dest: readTiffHeader_undefined
      split: sum.splits prod.splits option.splits)

lemma keepsFrame_Return:
  assumes "keepsFrame Q arm" "Q s" "arm s = Return (Inr (None, s'))"
  shows "fst s' = fst s"
  using assms(1) [unfolded keepsFrame_def, rule_format, OF assms(2)] assms(3) by simp

lemma keepsFrame_Next:
  assumes "keepsFrame Q arm" "Q s" "arm s = Next s2"
  shows "fst s2 = fst s \<and> Q s2"
  using assms(1) [unfolded keepsFrame_def, rule_format, OF assms(2)] assms(3) by simp

lemma runArms_frame:
  assumes "\<forall>arm \<in> set pre. keepsFrame Q arm" "Q s" "runArms (pre @ post) s = Inr (None, s')"
  shows "fst s' = fst s \<or> (\<exists>s1. fst s1 = fst s \<and> runArms post s1 = Inr (None, s'))"
  using assms
proof (induction pre arbitrary: s)
  case Nil
  then have "fst s = fst s \<and> runArms post s = Inr (None, s')" by simp
  then show ?case by blast
next
  case (Cons arm pre)
  from Cons.prems(1) have k: "keepsFrame Q arm" and ks: "\<forall>arm \<in> set pre. keepsFrame Q arm"
    by simp_all
  show ?case
  proof (cases "arm s")
    case (Return r)
    with Cons.prems(3) have "arm s = Return (Inr (None, s'))" by simp
    from keepsFrame_Return [OF k Cons.prems(2) this] show ?thesis by simp
  next
    case (Next s2)
    from keepsFrame_Next [OF k Cons.prems(2) Next] have f: "fst s2 = fst s" and q: "Q s2"
      by simp_all
    from Cons.prems(3) Next have "runArms (pre @ post) s2 = Inr (None, s')" by simp
    from Cons.IH [OF ks q this] f show ?thesis by simp
  qed
qed

lemma asfObjects_result: "asfObjects tokenizer \<noteq> Inr (None, t)"
proof (induction tokenizer rule: asfObjects.induct)
  case (1 tokenizer)
  show ?case
  proof (cases "position tokenizer + 24 < sizeOf tokenizer")
    case False
    then show ?thesis by (subst asfObjects.simps) simp
  next
    case True
    show ?thesis
    proof (cases "readBytes tokenizer 16")
      case (Inl e)
      with True show ?thesis by (subst asfObjects.simps) simp
    next
      case (Inr x)
      obtain guid t1 where x: "x = (guid, t1)" by (cases x)
      show ?thesis
      proof (cases "readUInt False 8 t1")
        case (Inl e)
        with True Inr x show ?thesis by (subst asfObjects.simps) simp
      next
        case r2: (Inr y)
        obtain headerSize t2 where y: "y = (headerSize, t2)" by (cases y)
        show ?thesis
        proof (cases "check guid [0x91, 0x07, 0xdc, 0xb7, 0xb7, 0xa9, 0xcf, 0x11, 0x8e, 0xe6,
                                  0x00, 0xc0, 0x0c, 0x20, 0x53, 0x65] 0 None")
          case c: True
          with True Inr x r2 y show ?thesis
            by (subst asfObjects.simps) (simp add: Let_def split: sum.splits prod.splits)
        next
          case c: False
          show ?thesis
          proof (cases "ignore t2 (int headerSize - 24)")
            case (Inl e)
            with True Inr x r2 y c show ?thesis
              by (subst asfObjects.simps) (simp add: Let_def)
          next
            case i: (Inr t3)
            have "asfObjects t3 \<noteq> Inr (None, t)"
              using "1.IH" [OF True Inr x [symmetric] r2 y [symmetric] refl c i] .
            with True Inr x r2 y c i show ?thesis
              by (subst asfObjects.simps) (simp add: Let_def)
          qed
        qed
      qed
    qed
  qed
qed

lemma zipArm_result: "withBuffer buffer (zipArm E tokenizer) \<noteq> Inr (None, s')"
  by (simp add: withBuffer_def zipArm_def split: sum.splits prod.splits)

lemma oggArm_result: "withBuffer buffer (oggArm tokenizer) \<noteq> Inr (None, s')"
  by (simp add: withBuffer_def oggArm_def split: sum.splits prod.splits)

lemma archArm_result: "withBuffer buffer (archArm E tokenizer) \<noteq> Inr (None, s')"
  by (simp add: withBuffer_def archArm_def split: sum.splits prod.splits)

lemma asfObjects_Some: "asfObjects tokenizer = Inr (a, b) \<Longrightarrow> \<exists>y. a = Some y"
  by (cases a) (simp_all add: asfObjects_result)

lemma asfArm_result: "withBuffer buffer (asfArm tokenizer) \<noteq> Inr (None, s')"
  by (auto simp add: withBuffer_def asfArm_def dest: asfObjects_Some
      split: sum.splits prod.splits)

lemma gzipArm_result: "gzipArm E pipeline tokenizer buffer \<noteq> Inr (None, s')"
  by (simp add: gzipArm_def split: sum.splits prod.splits)

lemma keepsFrame_result:
  "(\<And>s s'. block s \<noteq> Inr (None, s')) \<Longrightarrow> keepsFrame Q (returningArm cond block)"
  by (simp add: keepsFrame_def returningArm_def)

lemma keepsFrame_consuming:
  "keepsFrame (\<lambda>s. \<not> entersConsumingArm (snd s))
     (returningArm (\<lambda>buffer. check buffer [0xef, 0xbb, 0xbf] 0 None) block)"
  "keepsFrame (\<lambda>s. \<not> entersConsumingArm (snd s))
     (returningArm (\<lambda>buffer. checkString buffer (js ''ID3'') 0 None) block)"
  "keepsFrame (\<lambda>s. \<not> entersConsumingArm (snd s))
     (returningArm (\<lambda>buffer. check buffer [0x1a, 0x45, 0xdf, 0xa3] 0 None) block)"
  "keepsFrame (\<lambda>s. \<not> entersConsumingArm (snd s))
     (returningArm
        (\<lambda>buffer. check buffer [0x89, 0x50, 0x4e, 0x47, 0x0d, 0x0a, 0x1a, 0x0a] 0 None) block)"
  "keepsFrame (\<lambda>s. \<not> entersConsumingArm (snd s))
     (returningArm
        (\<lambda>buffer. check buffer
                    [0x00, 0x00, 0x00, 0x0c, 0x6a, 0x50, 0x20, 0x20, 0x0d, 0x0a, 0x87, 0x0a] 0 None)
        block)"
  by (rule keepsFrame_skipped, simp only: entersConsumingArm_def de_Morgan_disj, blast)+

lemma keepsFrame_results:
  "keepsFrame Q (returningArm cond
     (\<lambda>st. let buffer' = peekBuffer (fst st) (snd st) 24
           in Inr (Some (postscriptArm buffer'), (fst st, buffer'))))"
  "keepsFrame Q (returningArm cond (\<lambda>st. gzipArm E pipeline (fst st) (snd st)))"
  "keepsFrame Q (returningArm cond (\<lambda>st. withBuffer (snd st) (zipArm E (fst st))))"
  "keepsFrame Q (returningArm cond (\<lambda>st. withBuffer (snd st) (oggArm (fst st))))"
  "keepsFrame Q (returningArm cond (\<lambda>st. withBuffer (snd st) (archArm E (fst st))))"
  "keepsFrame Q (returningArm cond (\<lambda>st. withBuffer (snd st) (asfArm (fst st))))"
  by (rule keepsFrame_result,
      simp add: Let_def gzipArm_result zipArm_result oggArm_result archArm_result asfArm_result)+

lemma keepsFrame_text:
  "keepsFrame Q (returningArm cond (\<lambda>st. Inr (utf16beArm (snd st), st)))"
  "keepsFrame (\<lambda>s. True) (returningArm cond (\<lambda>st. Inr (utf16leArm (snd st), st)))"
  by (rule keepsFrame_returning, simp)+

lemma confidentArms_split:
  "confidentArms E self pipeline
     = take 27 (confidentArms E self pipeline) @ drop 27 (confidentArms E self pipeline)"
  by simp

lemma confidentArms_first:
  "\<forall>arm \<in> set (take 27 (confidentArms E self pipeline)).
     keepsFrame (\<lambda>s. \<not> entersConsumingArm (snd s)) arm"
  unfolding confidentArms_def
  by (simp add: keepsFrame_sampleArms keepsFrame_tiffArm keepsFrame_consuming
      keepsFrame_results keepsFrame_text del: One_nat_def)

lemma confidentArms_last:
  "\<forall>arm \<in> set (drop 27 (confidentArms E self pipeline)). keepsFrame (\<lambda>s. True) arm"
  unfolding confidentArms_def
  by (simp add: keepsFrame_sampleArms keepsFrame_growSample keepsFrame_text del: One_nat_def)

lemma detectConfidentBody_frame:
  assumes "detectConfidentBody E self pipeline st = Inr (None, st')"
      and "\<not> entersConsumingArm (snd (startSample st))"
  shows "fst st' = defaultSize (fst st)"
proof -
  let ?pre = "take 27 (confidentArms E self pipeline)"
  let ?post = "drop 27 (confidentArms E self pipeline)"
  have s0: "fst (startSample st) = defaultSize (fst st)"
    by (simp add: startSample_def Let_def)
  have run: "runArms (?pre @ ?post) (startSample st) = Inr (None, st')"
    using assms(1) by (simp add: detectConfidentBody_def)
  from runArms_frame [OF confidentArms_first assms(2) run]
  consider "fst st' = fst (startSample st)"
    | s1 where "fst s1 = fst (startSample st)" "runArms ?post s1 = Inr (None, st')"
    by blast
  then show ?thesis
  proof cases
    case 1
    then show ?thesis by (simp add: s0)
  next
    case 2
    from 2(2) have "runArms (?post @ []) s1 = Inr (None, st')" by simp
    from runArms_frame [OF confidentArms_last TrueI this]
    have "fst st' = fst s1" by auto
    with 2(1) show ?thesis by (simp add: s0)
  qed
qed

lemma jpeg2000Arm_jphFile:
  "jpeg2000Arm samplePlatform (bufferTokenizer jphFile)
     = Inr (None, bufferTokenizer jphFile\<lparr> position := 24 \<rparr>)"
  by (simp add: jpeg2000Arm_def ignore_def readString_def readBytes_def bufferTokenizer_simps
      samplePlatform_def bytewiseDecode_def jphFile_def js_def)

lemma fieldWidthLoop_samples:
  "fieldWidthLoop 0x1A 0x80 0 = 3"
  "fieldWidthLoop 0x84 0x80 0 = 0"
  "fieldWidthLoop 0x42 0x80 0 = 1"
  "fieldWidthLoop 0x81 0x80 0 = 0"
  by (simp_all add: fieldWidthLoop.simps [of _ "0x80"] fieldWidthLoop.simps [of _ "0x40"]
      fieldWidthLoop.simps [of _ "0x20"] fieldWidthLoop.simps [of _ "0x10"])

lemma readElement_header:
  "readElement \<lparr> source = ebmlDocTypeX, position = 0, fileSize = Some 9 \<rparr>
     = Inr ((Some 0x1A45DFA3, 4), \<lparr> source = ebmlDocTypeX, position = 5, fileSize = Some 9 \<rparr>)"
  by (simp add: readElement_def readField_def peekUINT8_def readBytes_def ahead_def
      ebmlDocTypeX_def fieldWidthLoop_samples getUintBE_def uintBE_def Let_def)

lemma readElement_docType:
  "readElement \<lparr> source = ebmlDocTypeX, position = 5, fileSize = Some 9 \<rparr>
     = Inr ((Some 0x4282, 1), \<lparr> source = ebmlDocTypeX, position = 8, fileSize = Some 9 \<rparr>)"
  by (simp add: readElement_def readField_def peekUINT8_def readBytes_def ahead_def
      ebmlDocTypeX_def fieldWidthLoop_samples getUintBE_def uintBE_def Let_def)

lemma readChildren_docType:
  "readChildren samplePlatform 4 \<lparr> source = ebmlDocTypeX, position = 5, fileSize = Some 9 \<rparr>
     = Inr (Some [0x78], \<lparr> source = ebmlDocTypeX, position = 9, fileSize = Some 9 \<rparr>)"
  by (subst readChildren.simps)
     (simp add: readElement_docType [unfolded ebmlDocTypeX_def] readString_def readBytes_def ahead_def ebmlDocTypeX_def
        samplePlatform_def bytewiseDecode_def)

lemma ebmlArm_ebmlDocTypeX:
  "ebmlArm samplePlatform (bufferTokenizer ebmlDocTypeX)
     = Inr (None, bufferTokenizer ebmlDocTypeX\<lparr> position := 9 \<rparr>)"
proof -
  have b: "bufferTokenizer ebmlDocTypeX
             = \<lparr> source = ebmlDocTypeX, position = 0, fileSize = Some 9 \<rparr>"
    by (simp add: bufferTokenizer_def ebmlDocTypeX_length)
  show ?thesis
    unfolding b
    by (simp add: ebmlArm_def readElement_header readChildren_docType js_def)
qed

lemma ebmlDocTypeXSample_conds:
  "\<not> check ebmlDocTypeXSample [0x25, 0x21] 0 None"
  "\<not> check ebmlDocTypeXSample [0xef, 0xbb, 0xbf] 0 None"
  "\<not> check ebmlDocTypeXSample [0x1f, 0x8b, 0x8] 0 None"
  "\<not> checkString ebmlDocTypeXSample (js ''ID3'') 0 None"
  "\<not> check ebmlDocTypeXSample [0x50, 0x4b, 0x3, 0x4] 0 None"
  "\<not> checkString ebmlDocTypeXSample (js ''OggS'') 0 None"
  "\<not> check ebmlDocTypeXSample [0x49, 0x49] 0 None"
  "\<not> check ebmlDocTypeXSample [0x4d, 0x4d] 0 None"
  "check ebmlDocTypeXSample [0x1a, 0x45, 0xdf, 0xa3] 0 None"
  by (simp_all add: check_def checkString_eval ebmlDocTypeXSample_length ebmlDocTypeXSample_nth
      ebmlDocTypeX_def)

lemma jphFileSample_conds:
  "\<not> check jphFileSample [0x25, 0x21] 0 None"
  "\<not> check jphFileSample [0xef, 0xbb, 0xbf] 0 None"
  "\<not> check jphFileSample [0x1f, 0x8b, 0x8] 0 None"
  "\<not> checkString jphFileSample (js ''ID3'') 0 None"
  "\<not> check jphFileSample [0x50, 0x4b, 0x3, 0x4] 0 None"
  "\<not> checkString jphFileSample (js ''OggS'') 0 None"
  "\<not> check jphFileSample [0x49, 0x49] 0 None"
  "\<not> check jphFileSample [0x4d, 0x4d] 0 None"
  "\<not> check jphFileSample [0x1a, 0x45, 0xdf, 0xa3] 0 None"
  "\<not> checkString jphFileSample (js ''!<arch>'') 0 None"
  "\<not> check jphFileSample [0x89, 0x50, 0x4e, 0x47, 0x0d, 0x0a, 0x1a, 0x0a] 0 None"
  "\<not> check jphFileSample [0x30, 0x26, 0xb2, 0x75, 0x8e, 0x66, 0xcf, 0x11, 0xa6, 0xd9] 0 None"
  "check jphFileSample
     [0x00, 0x00, 0x00, 0x0c, 0x6a, 0x50, 0x20, 0x20, 0x0d, 0x0a, 0x87, 0x0a] 0 None"
  by (simp_all add: check_def checkString_eval jphFileSample_length jphFileSample_nth
      jphFile_def)

lemma detectConfident_ebmlDocTypeX:
  "detectConfident (Suc n) samplePlatform opts (bufferTokenizer ebmlDocTypeX, buffer)
     = Inr (None, (bufferTokenizer ebmlDocTypeX\<lparr> position := 9 \<rparr>, ebmlDocTypeXSample))"
proof -
  have p: "peekBuffer (bufferTokenizer ebmlDocTypeX) (replicate 4100 0) 32 = ebmlDocTypeXSample"
    by (simp add: peekBuffer_fresh bufferTokenizer_simps ebmlDocTypeX_length
        ebmlDocTypeXSample_def)
  show ?thesis
    by (simp add: run_defs Let_def bufferTokenizer_simps p ebmlDocTypeXSample_conds
        arms_bmp_to_exe_ebmlDocTypeXSample arms_Z_to_arj_ebmlDocTypeXSample
        arms_gif_to_jxr_ebmlDocTypeXSample arms_bz2_ebmlDocTypeXSample
        arms_mpc_to_icns_ebmlDocTypeXSample arms_zip_to_wasm_ebmlDocTypeXSample
        arms_ape_ebmlDocTypeXSample withBuffer_def ebmlArm_ebmlDocTypeX)
qed

lemma detectConfident_jphFile:
  "detectConfident (Suc n) samplePlatform opts (bufferTokenizer jphFile, buffer)
     = Inr (None, (bufferTokenizer jphFile\<lparr> position := 24 \<rparr>, jphFileSample))"
proof -
  have p: "peekBuffer (bufferTokenizer jphFile) (replicate 4100 0) 32 = jphFileSample"
    by (simp add: peekBuffer_fresh bufferTokenizer_simps jphFile_length jphFileSample_def)
  show ?thesis
    by (simp add: run_defs Let_def bufferTokenizer_simps p jphFileSample_conds
        arms_bmp_to_exe_jphFileSample arms_Z_to_arj_jphFileSample
        arms_gif_to_jxr_jphFileSample arms_bz2_jphFileSample
        arms_mpc_to_icns_jphFileSample arms_zip_to_wasm_jphFileSample
        arms_ape_jphFileSample arms_sqlite_to_blend_jphFileSample arms_vtt_jphFileSample
        arms_arrow_to_rw2_jphFileSample arms_ktx_to_j2c_jphFileSample
        withBuffer_def jpeg2000Arm_jphFile)
qed

section \<open>Lemmas on the decoder and on the checksum sums\<close>

lemma utf16CodeUnits_stringToBytes:
  "utf16CodeUnits ''utf-16le'' (stringToBytes s (Some ''utf-16le'')) = s"
  "utf16CodeUnits ''utf-16be'' (stringToBytes s (Some ''utf-16be'')) = s"
  by (induction s) (simp_all add: stringToBytes_def Let_def codeunit_split_word)

lemma replacement_not_surrogate: "\<not> isSurrogate 0xFFFD"
  by (simp add: isSurrogate_def isLeadSurrogate_def isTrailSurrogate_def)

lemma replaceUnpaired_length: "length (replaceUnpaired s) = length s"
  by (induction s rule: replaceUnpaired.induct) simp_all

lemma replaceUnpaired_fixed: "replaceUnpaired s = s \<longleftrightarrow> isWellFormed s"
proof (induction s rule: replaceUnpaired.induct)
  case 1
  show ?case by simp
next
  case (2 c)
  show ?case using replacement_not_surrogate by auto
next
  case (3 c d rest)
  show ?case
  proof (cases "isLeadSurrogate c \<and> isTrailSurrogate d")
    case True
    with 3 show ?thesis by simp
  next
    case False
    with 3 show ?thesis using replacement_not_surrogate by auto
  qed
qed

lemma stripBOM_fixed: "stripBOM s = s \<longleftrightarrow> take 1 s \<noteq> [0xFEFF]"
proof (cases s)
  case Nil
  then show ?thesis by (simp add: stripBOM_def)
next
  case (Cons c rest)
  have "rest \<noteq> c # rest" by simp
  with Cons show ?thesis by (auto simp add: stripBOM_def)
qed

lemma stripBOM_length: "length (stripBOM s) = length s \<longleftrightarrow> take 1 s \<noteq> [0xFEFF]"
  by (cases s) (auto simp add: stripBOM_def)

lemma decode_fixed:
  "stripBOM (replaceUnpaired s) = s \<longleftrightarrow> isWellFormed s \<and> take 1 s \<noteq> [0xFEFF]"
proof
  assume a: "stripBOM (replaceUnpaired s) = s"
  then have "length (stripBOM (replaceUnpaired s)) = length (replaceUnpaired s)"
    by (simp add: replaceUnpaired_length)
  then have n: "take 1 (replaceUnpaired s) \<noteq> [0xFEFF]"
    by (simp add: stripBOM_length)
  then have "stripBOM (replaceUnpaired s) = replaceUnpaired s"
    by (simp add: stripBOM_fixed)
  with a have r: "replaceUnpaired s = s" by simp
  with n show "isWellFormed s \<and> take 1 s \<noteq> [0xFEFF]"
    by (simp add: replaceUnpaired_fixed [symmetric])
next
  assume "isWellFormed s \<and> take 1 s \<noteq> [0xFEFF]"
  then show "stripBOM (replaceUnpaired s) = s"
    by (simp add: replaceUnpaired_fixed [THEN iffD2] stripBOM_fixed [THEN iffD2])
qed














section \<open>Claims on the utilities\<close>

text \<open>
  C3 (the code departs from the claim). The claim: for every four bytes the sync-safe
  reader returns \<open>(b0 & 0x7F) << 21 | (b1 & 0x7F) << 14 | (b2 & 0x7F) << 7 | (b3 & 0x7F)\<close>.
  The reader masks the last byte only. On the bytes \<open>00 00 80 00\<close> it returns
  \<open>0x4000\<close>, where the masked formula gives 0.
\<close>

theorem uint32SyncSafeToken_unmasked_high_bit:
  "uint32SyncSafeToken_get [0x00, 0x00, 0x80, 0x00] 0 = 0x4000
   \<and> id3_sync_safe_u32 0x00 0x00 0x80 0x00 = 0"
  by (simp add: uint32SyncSafeToken_get_def id3_sync_safe_u32_def byteOrZero_def)

text \<open>
  Where the first three bytes have their high bit clear, as a well-formed ID3 length
  has, the reader and the masked formula agree.
\<close>

lemma uint32SyncSafeToken_get_sync_safe:
  assumes "b0 < 0x80" "b1 < 0x80" "b2 < 0x80"
  shows "uint32SyncSafeToken_get [b0, b1, b2, b3] 0 = id3_sync_safe_u32 b0 b1 b2 b3"
proof -
  have "(127::nat) = mask 7" by (simp add: mask_eq_exp_minus_1)
  then have m: "n < 128 \<Longrightarrow> n AND 127 = n" for n :: nat
    using take_bit_eq_mask [of 7 n] by (simp add: take_bit_eq_mod)
  have "unat b0 < 128" "unat b1 < 128" "unat b2 < 128"
    using assms by (simp_all add: word_less_nat_alt)
  then show ?thesis
    by (simp add: uint32SyncSafeToken_get_def id3_sync_safe_u32_def byteOrZero_def m
        or.commute or.left_commute)
qed

text \<open>
  C5 (corrected). \<open>check\<close> returns true iff every header byte matches: with a mask,
  \<open>header[i]\<close> equals \<open>mask[i] & sample[offset + i]\<close>, where a mask index and a
  sample index past the end both read as zero; without a mask, the sample index
  \<open>offset + i\<close> must lie inside the buffer and \<open>header[i]\<close> equals the byte there,
  so an index past the end never matches, not even a zero header byte.
\<close>

theorem check_characterisation:
  "check buffer headers offset maskOpt \<longleftrightarrow>
     (\<forall>i < length headers.
        (case maskOpt of
           Some m \<Rightarrow> headers ! i = (numberOrZero m i AND byteOrZero buffer (offset + i))
         | None \<Rightarrow> offset + i < length buffer \<and> headers ! i = unat (buffer ! (offset + i))))"
  by (cases maskOpt) (simp_all add: check_def check_loop_iff add.commute)

theorem check_characterisation_witness:
  "check [0xFF, 0xFB] [0xff, 0xe0] 0 (Some [0xff, 0xe0])
   \<and> \<not> check [0xFF, 0xFB] [0xff, 0xe0] 0 None"
  using check_characterisation [of "[0xFF, 0xFB]" "[0xff, 0xe0]" 0 "Some [0xff, 0xe0]"]
        check_characterisation [of "[0xFF, 0xFB]" "[0xff, 0xe0]" 0 None]
  by (simp add: numberOrZero_def byteOrZero_def less_Suc_eq nth_Cons' all_conj_distrib)

text \<open>
  The claim as stated, with a sample index past the end reading as zero without a mask
  too, fails: the one-byte sample \<open>4F\<close> does not match the header \<open>4F 00\<close>.
\<close>

theorem check_zero_fill_counterexample:
  "\<not> (check [0x4F] [0x4F, 0x00] 0 None \<longleftrightarrow> check_spec [0x4F] [0x4F, 0x00] 0 None)"
  by (simp add: check_def check_spec_def byteOrZero_def)

text \<open>
  C6. For a 512-byte buffer \<open>B\<close>, \<open>tarHeaderChecksumMatches(B)\<close> with the default
  offset 0 is true iff the six bytes at offset 148, decoded, cut at the first NUL,
  trimmed and read by \<open>parseInt(_, 8)\<close>, give the number
  \<open>8 * 0x20 + \<Sum> B[0..148) + \<Sum> B[156..512)\<close>; it is false when they give no number.
\<close>

theorem tarHeaderChecksumMatches_offset0:
  assumes "length B = 512"
  shows "tarHeaderChecksumMatches E B 0 =
     (case parseInt8 (trim (takeWhile (\<lambda>c. c \<noteq> 0) (textDecode E ''utf8'' (take 6 (drop 148 B))))) of
        None \<Rightarrow> False
      | Some declared \<Rightarrow>
          declared = int (8 * 0x20 + (\<Sum>i<148. unat (B ! i)) + (\<Sum>i = 156..<512. unat (B ! i))))"
proof -
  have a: "(\<Sum>k<148. byteOrZeroAt B (0 + int k)) = (\<Sum>i<148. unat (B ! i))"
    by (rule sum.cong) (use assms in \<open>auto simp: byteOrZeroAt_def byteOrZero_def\<close>)
  have "(\<Sum>k<356. byteOrZeroAt B (0 + 156 + int k)) = (\<Sum>k<356. unat (B ! (156 + k)))"
    by (rule sum.cong) (use assms in \<open>auto simp: byteOrZeroAt_def byteOrZero_def nat_add_distrib\<close>)
  also have "\<dots> = (\<Sum>i = 156..<512. unat (B ! i))"
    using sum.shift_bounds_nat_ivl [of "\<lambda>i. unat (B ! i)" 0 156 356]
    by (simp add: atLeast0LessThan add.commute)
  finally have b: "(\<Sum>k<356. byteOrZeroAt B (0 + 156 + int k)) = (\<Sum>i = 156..<512. unat (B ! i))" .
  show ?thesis unfolding tarHeaderChecksumMatches_sums a b ..
qed

theorem tarHeaderChecksumMatches_offset0_witness: "length tarBlock400 = 512 \<and> tarHeaderChecksumMatches samplePlatform tarBlock400 0"
proof -
  have l: "length tarBlock400 = 512" by (simp add: tarBlock400_def)
  have s1: "(\<Sum>i<148. unat (tarBlock400 ! i)) = 0"
    using sum_nth_take [where xs=tarBlock400 and n=148 and f=unat] l by (simp add: tarBlock400_def)
  have s2: "(\<Sum>i = 156..<512. unat (tarBlock400 ! i)) = 0"
    using sum_nth_drop [where xs=tarBlock400 and m=156 and f=unat] l by (simp add: tarBlock400_def)
  have d: "textDecode samplePlatform ''utf8'' (take 6 (drop 148 tarBlock400)) = [0x34, 0x30, 0x30, 0, 0, 0]"
    by (simp add: tarBlock400_def samplePlatform_def bytewiseDecode_def)
  have p: "parseInt8 (trim [0x34, 0x30, 0x30]) = Some 256"
    by (simp add: parseInt8_def trim_def isWhiteSpace_def isLineTerminator_def isOctalDigit_def
        octalValue_def)
  show ?thesis
    using tarHeaderChecksumMatches_offset0 [OF l, of samplePlatform] l by (simp add: s1 s2 d p)
qed

text \<open>
  C8 (corrected). Decoding \<open>stringToBytes(s, enc)\<close> under \<open>enc\<close> gives \<open>s\<close> again,
  for \<open>utf-16le\<close> and for \<open>utf-16be\<close>, exactly when \<open>s\<close> is well formed (every
  surrogate is part of a pair) and does not begin with \<open>U+FEFF\<close>.
\<close>

theorem stringToBytes_utf16_roundtrip:
  "(decodeUtf16 ''utf-16le'' (stringToBytes s (Some ''utf-16le'')) = s
      \<longleftrightarrow> isWellFormed s \<and> take 1 s \<noteq> [0xFEFF])
   \<and> (decodeUtf16 ''utf-16be'' (stringToBytes s (Some ''utf-16be'')) = s
      \<longleftrightarrow> isWellFormed s \<and> take 1 s \<noteq> [0xFEFF])"
  by (simp only: decodeUtf16_def utf16CodeUnits_stringToBytes decode_fixed)

text \<open>A surrogate pair followed by a character of the basic plane comes back.\<close>

theorem stringToBytes_utf16_roundtrip_witness:
  "decodeUtf16 ''utf-16le'' (stringToBytes [0xD83E, 0xDD84, 0xA7FB] (Some ''utf-16le''))
     = [0xD83E, 0xDD84, 0xA7FB]
   \<and> decodeUtf16 ''utf-16be'' (stringToBytes [0xD83E, 0xDD84, 0xA7FB] (Some ''utf-16be''))
     = [0xD83E, 0xDD84, 0xA7FB]
   \<and> stringToBytes [0xD83E, 0xDD84] (Some ''utf-16le'') = [0x3e, 0xd8, 0x84, 0xdd]
   \<and> stringToBytes [0xD83E, 0xDD84] (Some ''utf-16be'') = [0xd8, 0x3e, 0xdd, 0x84]"
proof -
  have w: "isWellFormed [0xD83E, 0xDD84, 0xA7FB] \<and> take 1 [0xD83E, 0xDD84, 0xA7FB] \<noteq> [0xFEFF::codeunit]"
    by (simp add: isSurrogate_def isLeadSurrogate_def isTrailSurrogate_def)
  have b: "stringToBytes [0xD83E, 0xDD84] (Some ''utf-16le'') = [0x3e, 0xd8, 0x84, 0xdd]"
          "stringToBytes [0xD83E, 0xDD84] (Some ''utf-16be'') = [0xd8, 0x3e, 0xdd, 0x84]"
    by (simp_all add: stringToBytes_def)
  from stringToBytes_utf16_roundtrip [of "[0xD83E, 0xDD84, 0xA7FB]"] w b
  show ?thesis by blast
qed

text \<open>
  The claim as stated, for every string, fails: a lead surrogate on its own comes back
  as \<open>U+FFFD\<close>, and a byte order mark at the start does not come back.
\<close>

theorem stringToBytes_utf16_lone_surrogate_counterexample:
  "decodeUtf16 ''utf-16le'' (stringToBytes [0xD83E] (Some ''utf-16le'')) = [0xFFFD]
   \<and> decodeUtf16 ''utf-16be'' (stringToBytes [0xD83E] (Some ''utf-16be'')) = [0xFFFD]
   \<and> decodeUtf16 ''utf-16le'' (stringToBytes [0xFEFF, 0x41] (Some ''utf-16le'')) = [0x41]
   \<and> decodeUtf16 ''utf-16be'' (stringToBytes [0xFEFF, 0x41] (Some ''utf-16be'')) = [0x41]"
  by (simp add: decodeUtf16_def stringToBytes_def stripBOM_def isSurrogate_def
      isLeadSurrogate_def isTrailSurrogate_def)



section \<open>The claims on the detectors\<close>

text \<open>
  C2. The pipeline \<open>fromTokenizer\<close> runs the registered detectors in order: the
  custom detectors, then \<open>core\<close>, then \<open>core.imprecise\<close>. It returns the first
  result that is not empty. When a detector returns no result and leaves the tokenizer
  at a position other than the one at entry, the pipeline returns no result at once,
  with no later detector called. When every detector returns no result and leaves the
  position, the pipeline returns no result. (A run of detectors before the deciding one
  is quiet: each returned no result and left the position, \<open>quietRun\<close>.)
\<close>

theorem fromTokenizer_pipeline:
  "map fst (detectors opts (detectConfident n E opts))
     = map fst (customDetectors opts) @ [''core'', ''core.imprecise'']
   \<and> fromTokenizer n E opts st
       = runDetectors (position (fst st)) (detectors opts (detectConfident n E opts)) st
   \<and> (\<forall>pre d post st1 r st2.
         detectors opts (detectConfident n E opts) = pre @ d # post
         \<and> quietRun (position (fst st)) pre st = Some st1
         \<and> snd d st1 = Inr (Some r, st2)
         \<longrightarrow> fromTokenizer n E opts st = Inr (Some r, st2))
   \<and> (\<forall>pre d post st1 st2.
         detectors opts (detectConfident n E opts) = pre @ d # post
         \<and> quietRun (position (fst st)) pre st = Some st1
         \<and> snd d st1 = Inr (None, st2) \<and> position (fst st2) \<noteq> position (fst st)
         \<longrightarrow> fromTokenizer n E opts st = Inr (None, st2))
   \<and> (\<forall>st1.
         quietRun (position (fst st)) (detectors opts (detectConfident n E opts)) st = Some st1
         \<longrightarrow> fromTokenizer n E opts st = Inr (None, st1))"
proof -
  let ?ds = "detectors opts (detectConfident n E opts)"
  let ?p0 = "position (fst st)"
  have ids: "map fst ?ds = map fst (customDetectors opts) @ [''core'', ''core.imprecise'']"
    by (simp add: detectors_def customDetector_def comp_def)
  have run: "fromTokenizer n E opts st = runDetectors ?p0 ?ds st"
    by (simp add: fromTokenizer_def fromTokenizerWith_def)
  have first: "fromTokenizer n E opts st = Inr (Some r, st2)"
    if "?ds = pre @ d # post" "quietRun ?p0 pre st = Some st1" "snd d st1 = Inr (Some r, st2)"
    for pre d post st1 r st2
    using that runDetectors_quiet_prefix [of ?p0 pre st st1 "d # post"] by (simp add: run)
  have moved: "fromTokenizer n E opts st = Inr (None, st2)"
    if "?ds = pre @ d # post" "quietRun ?p0 pre st = Some st1" "snd d st1 = Inr (None, st2)"
       "position (fst st2) \<noteq> ?p0"
    for pre d post st1 st2
    using that runDetectors_quiet_prefix [of ?p0 pre st st1 "d # post"] by (simp add: run)
  have none: "fromTokenizer n E opts st = Inr (None, st1)"
    if "quietRun ?p0 ?ds st = Some st1" for st1
    using that runDetectors_quiet_prefix [of ?p0 ?ds st st1 "[]"] by (simp add: run)
  show ?thesis
    using ids run first moved none by blast
qed

text \<open>
  On \<open>UNICORN FILE\<close> the custom detector answers before the built-in ones; a
  detector that reads a byte and returns nothing ends the pipeline at position 1; on
  ten zero bytes and an MPEG sync all three detectors are quiet.
\<close>

theorem fromTokenizer_pipeline_witness:
  "fromTokenizer 1 samplePlatform (withDetectors [(''mock.unicorn'', unicornDetector)])
       (bufferTokenizer unicornFile, emptySample)
     = Inr (Some (ft ''unicorn'' ''application/unicorn''),
            (bufferTokenizer unicornFile, emptySample))
   \<and> fromTokenizer 1 samplePlatform
       (withDetectors [(''mock.unicorn'', unicornDetector),
                       (''mock.dirtyTokenizer'', tokenizerPositionChanger)])
       (bufferTokenizer mpegAt10, emptySample)
     = Inr (None, (bufferTokenizer mpegAt10\<lparr> position := 1 \<rparr>, emptySample))
   \<and> fromTokenizer 1 samplePlatform (withDetectors [(''mock.unicorn'', unicornDetector)])
       (bufferTokenizer mpegAt10, emptySample)
     = Inr (None, (bufferTokenizer mpegAt10, mpegAt10Sample))"
proof -
  have u1: "unicornDetector (bufferTokenizer unicornFile)
              = Inr (Some (ft ''unicorn'' ''application/unicorn''), bufferTokenizer unicornFile)"
    by (simp add: unicornDetector_def peekBuffer_def fillBuffer_def bufferTokenizer_simps
        unicornFile_def)
  have u2: "unicornDetector (bufferTokenizer mpegAt10) = Inr (None, bufferTokenizer mpegAt10)"
    by (simp add: unicornDetector_def peekBuffer_def fillBuffer_def bufferTokenizer_simps
        mpegAt10_def)
  have c: "tokenizerPositionChanger (bufferTokenizer mpegAt10)
             = Inr (None, bufferTokenizer mpegAt10\<lparr> position := 1 \<rparr>)"
    by (simp add: tokenizerPositionChanger_def bufferTokenizer_simps mpegAt10_length)
  have t: "mpegOffsetTolerance (withDetectors ds) = 0" for ds
    by (simp add: withDetectors_def)
  have cd: "customDetectors (withDetectors ds) = ds" for ds
    by (simp add: withDetectors_def)
  let ?st = "(bufferTokenizer unicornFile, emptySample)"
  let ?sm = "(bufferTokenizer mpegAt10, emptySample)"
  let ?o1 = "withDetectors [(''mock.unicorn'', unicornDetector)]"
  let ?o2 = "withDetectors [(''mock.unicorn'', unicornDetector),
                            (''mock.dirtyTokenizer'', tokenizerPositionChanger)]"
  have A: "fromTokenizer 1 samplePlatform ?o1 ?st
             = Inr (Some (ft ''unicorn'' ''application/unicorn''), ?st)"
    using fromTokenizer_pipeline [of ?o1 1 samplePlatform ?st]
    by (simp add: detectors_def customDetector_def cd u1 bufferTokenizer_simps
        del: detectConfident.simps)
  have B: "fromTokenizer 1 samplePlatform ?o2 ?sm
             = Inr (None, (bufferTokenizer mpegAt10\<lparr> position := 1 \<rparr>, emptySample))"
    using fromTokenizer_pipeline [of ?o2 1 samplePlatform ?sm]
    by (simp add: detectors_def customDetector_def cd u2 c bufferTokenizer_simps
        del: detectConfident.simps)
  have C: "fromTokenizer 1 samplePlatform ?o1 ?sm
             = Inr (None, (bufferTokenizer mpegAt10, mpegAt10Sample))"
    using fromTokenizer_pipeline [of ?o1 1 samplePlatform ?sm]
    by (simp add: detectors_def customDetector_def u2 bufferTokenizer_simps
        detectConfident_mpegAt10 [of 0] detectImprecise_mpegAt10_default [OF t] cd
        del: detectConfident.simps)
  from A B C show ?thesis by blast
qed

text \<open>
  C9. For an input of length 0 or 1, \<open>fromBuffer\<close> returns no result whatever the
  content and whatever the detectors registered; for an input of length 2 or more the
  result is that of the pipeline on a tokenizer over the input.
\<close>

theorem fromBuffer_short_input:
  "(length input \<le> 1 \<longrightarrow> fromBuffer n E opts input = Inr None)
   \<and> (2 \<le> length input \<longrightarrow>
        fromBuffer n E opts input =
          (case fromTokenizer n E opts
                  (\<lparr> source = input, position = 0, fileSize = Some (length input) \<rparr>,
                   replicate 4100 0) of
             Inl e \<Rightarrow> Inl e
           | Inr (fileType, st) \<Rightarrow> Inr fileType))"
  by (simp add: fromBuffer_def reasonableDetectionSizeInBytes_def)

text \<open>
  With a custom detector that answers on every input, the one-byte input has no
  result, and the two-byte input has the detector's.
\<close>

theorem fromBuffer_short_input_witness:
  "fromBuffer 1 samplePlatform (withDetectors [(''mock.png'', mockPngDetector)]) [0x89]
     = Inr None
   \<and> fromBuffer 1 samplePlatform (withDetectors [(''mock.png'', mockPngDetector)]) [0x89, 0x50]
     = Inr (Some (ft ''mockPng'' ''image/mockPng''))"
  using fromBuffer_short_input [of "[0x89]" 1 samplePlatform
          "withDetectors [(''mock.png'', mockPngDetector)]"]
        fromBuffer_short_input [of "[0x89, 0x50]" 1 samplePlatform
          "withDetectors [(''mock.png'', mockPngDetector)]"]
  by (simp add: fromTokenizer_def fromTokenizerWith_def detectors_def customDetector_def
      withDetectors_def mockPngDetector_def del: detectConfident.simps)

text \<open>
  C4 (corrected). When the input ahead begins with \<open>ID3\<close> and holds the ten bytes
  of the tag header, the confident detector skips six bytes from the position at entry
  (the three of \<open>ID3\<close> among them), reads the four-byte sync-safe length \<open>L\<close> at
  offset 6, and, standing at offset 10, returns \<open>mp3\<close> exactly when its position plus
  \<open>L\<close> is strictly greater than the file size; otherwise it skips \<open>L\<close> bytes (an
  end-of-stream error when fewer are left) and returns what the whole pipeline returns
  from there.
\<close>

theorem detectConfident_ID3:
  assumes "take 3 (ahead tokenizer) = [0x49, 0x44, 0x33]"
      and "10 \<le> length (ahead tokenizer)"
  shows "detectConfident (Suc n) E opts (tokenizer, buffer) =
     (let tk = defaultSize tokenizer;
          sample = peekBuffer tk (replicate 4100 0) 32;
          t2 = tk\<lparr> position := position tokenizer + 10 \<rparr>;
          L = uint32SyncSafeToken_get (take 4 (drop 6 (ahead tokenizer))) 0
      in if position t2 + L > sizeOf t2 then Inr (Some (ft ''mp3'' ''audio/mpeg''), (t2, sample))
         else if length (ahead tokenizer) < 10 + L then Inl EndOfStreamError
         else fromTokenizer n E opts (tk\<lparr> position := position tokenizer + 10 + L \<rparr>, sample))"
proof -
  have p: "position (defaultSize tokenizer) = position tokenizer"
    by (simp add: defaultSize_def split: option.splits)
  have "10 \<le> length (ahead (defaultSize tokenizer))"
    using assms(2) by (simp add: ahead_defaultSize)
  from id3Arm_header [OF this] show ?thesis
    unfolding detectConfident_ID3_arm [OF assms(1)]
    by (simp add: Let_def ahead_defaultSize p)
qed

text \<open>
  A tag that declares 257 bytes where two follow is \<open>mp3\<close>; a tag of length 0 with a
  FLAC stream behind it is \<open>flac\<close>, found by the pipeline behind the tag.
\<close>

theorem detectConfident_ID3_witness:
  "detectConfident 2 samplePlatform defaultOptions (bufferTokenizer id3Long, emptySample)
     = Inr (Some (ft ''mp3'' ''audio/mpeg''),
            (bufferTokenizer id3Long\<lparr> position := 10 \<rparr>, id3Long @ replicate 4088 0))
   \<and> detectConfident 2 samplePlatform defaultOptions (bufferTokenizer id3Flac, emptySample)
     = Inr (Some (ft ''flac'' ''audio/flac''),
            (bufferTokenizer id3Flac\<lparr> position := 10 \<rparr>, flacMagicSample))"
proof -
  have two: "2 = Suc 1" by simp
  have A: "detectConfident (Suc 1) samplePlatform defaultOptions (bufferTokenizer id3Long, emptySample)
     = Inr (Some (ft ''mp3'' ''audio/mpeg''),
            (bufferTokenizer id3Long\<lparr> position := 10 \<rparr>, id3Long @ replicate 4088 0))"
    using detectConfident_ID3 [of "bufferTokenizer id3Long" 1 samplePlatform defaultOptions emptySample]
    by (simp add: bufferTokenizer_simps id3_tags id3_lengths Let_def peekBuffer_fresh
        del: detectConfident.simps)
  have f: "fromTokenizer (Suc 0) samplePlatform defaultOptions
             (bufferTokenizer id3Flac\<lparr> position := 10 \<rparr>, buffer)
           = Inr (Some (ft ''flac'' ''audio/flac''),
                  (bufferTokenizer id3Flac\<lparr> position := 10 \<rparr>, flacMagicSample))" for buffer
    by (simp add: fromTokenizer_def fromTokenizerWith_def detectors_def defaultOptions_def
        detectConfident_flac_behind_tag [of 0] del: detectConfident.simps)
  have B: "detectConfident (Suc 1) samplePlatform defaultOptions (bufferTokenizer id3Flac, emptySample)
     = Inr (Some (ft ''flac'' ''audio/flac''),
            (bufferTokenizer id3Flac\<lparr> position := 10 \<rparr>, flacMagicSample))"
    using detectConfident_ID3 [of "bufferTokenizer id3Flac" 1 samplePlatform defaultOptions emptySample]
    by (simp add: bufferTokenizer_simps id3_tags id3_lengths id3Flac_length Let_def f
        del: detectConfident.simps)
  from A B show ?thesis unfolding two by blast
qed

text \<open>
  The claim as stated, with \<open>mp3\<close> when the position plus \<open>L\<close> is greater than or
  equal to the file size, fails: for a tag of length 0 that ends the file the two are
  equal, the tag is skipped and the pipeline finds nothing at the end of the input.
\<close>

theorem detectConfident_ID3_tag_to_end_counterexample:
  "position (bufferTokenizer id3Only) + 10
     + uint32SyncSafeToken_get (take 4 (drop 6 id3Only)) 0 \<ge> sizeOf (bufferTokenizer id3Only)
   \<and> detectConfident 2 samplePlatform defaultOptions (bufferTokenizer id3Only, emptySample)
     = Inr (None, (bufferTokenizer id3Only\<lparr> position := 10 \<rparr>, emptySample))"
proof -
  have two: "2 = Suc 1" by simp
  have a: "take 3 (ahead (bufferTokenizer id3Only)) = [0x49, 0x44, 0x33]"
    by (simp add: bufferTokenizer_simps id3_tags)
  have l: "10 \<le> length (ahead (defaultSize (bufferTokenizer id3Only)))"
    by (simp add: bufferTokenizer_simps id3_tags)
  have e: "ahead (bufferTokenizer id3Only\<lparr> position := 10 \<rparr>) = []"
    by (simp add: bufferTokenizer_simps id3_tags)
  have "detectConfident (Suc 1) samplePlatform defaultOptions (bufferTokenizer id3Only, emptySample)
     = Inr (None, (bufferTokenizer id3Only\<lparr> position := 10 \<rparr>, emptySample))"
    unfolding detectConfident_ID3_arm [OF a] id3Arm_header [OF l]
    by (simp add: bufferTokenizer_simps id3_tags id3_lengths Let_def
        fromTokenizer_at_end [OF e, of 0]
        del: detectConfident.simps)
  then show ?thesis
    unfolding two by (simp add: bufferTokenizer_simps id3_tags id3_lengths)
qed

text \<open>
  C7 (corrected). Take an input of at least 12 bytes with an MPEG layer-3 frame sync at
  offset 10: the byte \<open>0xFF\<close>, then a byte \<open>b\<close> with \<open>(b & 0xE0) == 0xE0\<close>,
  \<open>(b & 0x16) != 0x10\<close> and \<open>(b & 0x06) == 0x02\<close>. Let no earlier arm match on the
  whole input: no custom detector is registered, the confident detector returns no
  result and leaves the tokenizer, the video, font and icon arms of the imprecise
  detector do not match, and no MPEG sync stands at the offsets 0 to 9. Then detection
  from the buffer with tolerance 0 returns no result, and with tolerance 10 it returns
  \<open>mp3\<close>, \<open>audio/mpeg\<close>.
\<close>

theorem mpegOffsetTolerance_sync_at_10:
  assumes len: "12 \<le> length input"
      and sync: "input ! 10 = 0xFF" "unat (input ! 11) AND 0xE0 = 0xE0"
                "unat (input ! 11) AND 0x16 \<noteq> 0x10" "unat (input ! 11) AND 0x06 = 0x02"
      and custom: "customDetectors opts = []"
      and quiet0:
        "detectConfident n E (opts\<lparr> mpegOffsetTolerance := 0 \<rparr>)
             (bufferTokenizer input, replicate 4100 0)
           = Inr (None, (bufferTokenizer input, sample0))" "12 \<le> length sample0"
      and quiet10:
        "detectConfident n E (opts\<lparr> mpegOffsetTolerance := 10 \<rparr>)
             (bufferTokenizer input, replicate 4100 0)
           = Inr (None, (bufferTokenizer input, sample10))" "12 \<le> length sample10"
      and video: "\<not> check input [0x0, 0x0, 0x1, 0xba] 0 None"
                 "\<not> check input [0x0, 0x0, 0x1, 0xb3] 0 None"
      and font: "\<not> check input [0x00, 0x01, 0x00, 0x00, 0x00] 0 None"
      and icon: "\<not> check input [0x00, 0x00, 0x01, 0x00] 0 None"
                "\<not> check input [0x00, 0x00, 0x02, 0x00] 0 None"
      and earlier: "\<forall>depth < 10. scanMpeg input depth = None"
  shows "fromBuffer n E (opts\<lparr> mpegOffsetTolerance := 0 \<rparr>) input = Inr None
       \<and> fromBuffer n E (opts\<lparr> mpegOffsetTolerance := 10 \<rparr>) input
           = Inr (Some (ft ''mp3'' ''audio/mpeg''))"
proof -
  let ?st = "(bufferTokenizer input, replicate 4100 0)"
  have b: "\<lparr> source = input, position = 0, fileSize = Some (length input) \<rparr>
             = bufferTokenizer input"
    by (simp add: bufferTokenizer_def)
  have run: "fromTokenizer n E o' ?st = detectImprecise o' (bufferTokenizer input, sample)"
    if "customDetectors o' = []"
       "detectConfident n E o' ?st = Inr (None, (bufferTokenizer input, sample))"
    for o' sample
    using that
    by (auto simp add: fromTokenizer_def fromTokenizerWith_def detectors_def bufferTokenizer_simps
        split: sum.splits option.splits)
  obtain st0 where i0: "detectImprecise (opts\<lparr> mpegOffsetTolerance := 0 \<rparr>)
                          (bufferTokenizer input, sample0) = Inr (None, st0)"
    using detectImprecise_sync_at_10(1)
            [OF len quiet0(2) sync video font icon earlier,
             of "opts\<lparr> mpegOffsetTolerance := 0 \<rparr>"]
    by auto
  obtain st10 where i10: "detectImprecise (opts\<lparr> mpegOffsetTolerance := 10 \<rparr>)
                            (bufferTokenizer input, sample10)
                          = Inr (Some (ft ''mp3'' ''audio/mpeg''), st10)"
    using detectImprecise_sync_at_10(2)
            [OF len quiet10(2) sync video font icon earlier,
             of "opts\<lparr> mpegOffsetTolerance := 10 \<rparr>"]
    by auto
  have r0: "fromTokenizer n E (opts\<lparr> mpegOffsetTolerance := 0 \<rparr>) ?st = Inr (None, st0)"
    using run [OF _ quiet0(1)] custom i0 by simp
  have r10: "fromTokenizer n E (opts\<lparr> mpegOffsetTolerance := 10 \<rparr>) ?st
               = Inr (Some (ft ''mp3'' ''audio/mpeg''), st10)"
    using run [OF _ quiet10(1)] custom i10 by simp
  show ?thesis
    using len
    by (simp add: fromBuffer_def reasonableDetectionSizeInBytes_def b r0 r10)
qed

text \<open>Ten zero bytes, then \<open>FF FB\<close>: every hypothesis holds there.\<close>

theorem mpegOffsetTolerance_sync_at_10_witness:
  "fromBuffer 1 samplePlatform (defaultOptions\<lparr> mpegOffsetTolerance := 0 \<rparr>) mpegAt10
     = Inr None
   \<and> fromBuffer 1 samplePlatform (defaultOptions\<lparr> mpegOffsetTolerance := 10 \<rparr>) mpegAt10
     = Inr (Some (ft ''mp3'' ''audio/mpeg''))"
proof (rule mpegOffsetTolerance_sync_at_10 [where ?sample0.0 = mpegAt10Sample
                                                and ?sample10.0 = mpegAt10Sample])
  show "12 \<le> length mpegAt10" by (simp add: mpegAt10_length)
  show "customDetectors defaultOptions = []" by (simp add: defaultOptions_def)
  show "detectConfident 1 samplePlatform (defaultOptions\<lparr> mpegOffsetTolerance := 0 \<rparr>)
          (bufferTokenizer mpegAt10, replicate 4100 0)
        = Inr (None, (bufferTokenizer mpegAt10, mpegAt10Sample))"
    unfolding One_nat_def by (rule detectConfident_mpegAt10)
  show "detectConfident 1 samplePlatform (defaultOptions\<lparr> mpegOffsetTolerance := 10 \<rparr>)
          (bufferTokenizer mpegAt10, replicate 4100 0)
        = Inr (None, (bufferTokenizer mpegAt10, mpegAt10Sample))"
    unfolding One_nat_def by (rule detectConfident_mpegAt10)
  show "12 \<le> length mpegAt10Sample" "12 \<le> length mpegAt10Sample"
    by (simp_all add: mpegAt10Sample_length)
  show "\<forall>depth < 10. scanMpeg mpegAt10 depth = None"
    by (simp add: scanMpeg_mpegAt10)
qed (rule mpegAt10_sync mpegAt10_imprecise)+

text \<open>
  The claim as stated, with a condition on the first ten bytes only, fails: ten zero
  bytes, the sync \<open>FF FB\<close>, zeros, and \<open>DICM\<close> at offset 128 is \<open>dcm\<close> for the
  confident detector, with tolerance 0 and with tolerance 10.
\<close>

theorem mpegOffsetTolerance_dicm_counterexample:
  "take 10 dicmAt128 = [0, 0, 0, 0, 0, 0, 0, 0, 0, 0]
   \<and> dicmAt128 ! 10 = 0xFF
   \<and> unat (dicmAt128 ! 11) AND 0xE0 = 0xE0
   \<and> unat (dicmAt128 ! 11) AND 0x16 \<noteq> 0x10
   \<and> unat (dicmAt128 ! 11) AND 0x06 = 0x02
   \<and> fromBuffer 1 samplePlatform (defaultOptions\<lparr> mpegOffsetTolerance := 0 \<rparr>) dicmAt128
       = Inr (Some (ft ''dcm'' ''application/dicom''))
   \<and> fromBuffer 1 samplePlatform (defaultOptions\<lparr> mpegOffsetTolerance := 10 \<rparr>) dicmAt128
       = Inr (Some (ft ''dcm'' ''application/dicom''))"
proof -
  have s: "take 10 dicmAt128 = [0, 0, 0, 0, 0, 0, 0, 0, 0, 0]" "dicmAt128 ! 10 = 0xFF"
    "unat (dicmAt128 ! 11) AND 0xE0 = 0xE0" "unat (dicmAt128 ! 11) AND 0x16 \<noteq> 0x10"
    "unat (dicmAt128 ! 11) AND 0x06 = 0x02"
    by (simp_all add: dicmAt128_def mpegAt10_def)
  have one: "1 = Suc 0" by simp
  have c: "customDetectors (defaultOptions\<lparr> mpegOffsetTolerance := t \<rparr>) = []" for t
    by (simp add: defaultOptions_def)
  show ?thesis
    unfolding one fromBuffer_dicmAt128 [OF c] using s by simp
qed

text \<open>
  C1 (corrected). Whenever the confident detector exits without a result and the sample
  of its first peek begins with none of the signatures of the five arms that can give
  up after reading (UTF-8 byte order mark, \<open>ID3\<close>, EBML, PNG, JPEG 2000), the
  tokenizer at exit is the tokenizer at entry (with the default for an unknown size),
  so the position at exit is the position at entry.
\<close>

theorem detectConfident_frame:
  assumes "detectConfident n E opts st = Inr (None, st')"
      and "\<not> entersConsumingArm (snd (startSample st))"
  shows "fst st' = defaultSize (fst st) \<and> position (fst st') = position (fst st)"
proof (cases n)
  case 0
  with assms(1) show ?thesis by simp
next
  case (Suc m)
  with assms(1) have "detectConfidentBody E (detectConfident m E opts)
                        (fromTokenizerWith opts (detectConfident m E opts)) st = Inr (None, st')"
    by simp
  from detectConfidentBody_frame [OF this assms(2)]
  have f: "fst st' = defaultSize (fst st)" .
  have "position (defaultSize (fst st)) = position (fst st)"
    by (simp add: defaultSize_def split: option.splits)
  with f show ?thesis by simp
qed

text \<open>
  Ten zero bytes and an MPEG sync: the detector exits without a result, the sample
  enters none of the five arms, and the position stays 0.
\<close>

theorem detectConfident_frame_witness:
  "detectConfident 1 samplePlatform defaultOptions (bufferTokenizer mpegAt10, emptySample)
     = Inr (None, (bufferTokenizer mpegAt10, mpegAt10Sample))
   \<and> \<not> entersConsumingArm (snd (startSample (bufferTokenizer mpegAt10, emptySample)))
   \<and> position (fst (bufferTokenizer mpegAt10, mpegAt10Sample))
       = position (fst (bufferTokenizer mpegAt10, emptySample))"
proof -
  have A: "detectConfident 1 samplePlatform defaultOptions (bufferTokenizer mpegAt10, emptySample)
             = Inr (None, (bufferTokenizer mpegAt10, mpegAt10Sample))"
    unfolding One_nat_def by (rule detectConfident_mpegAt10)
  have s: "snd (startSample (bufferTokenizer mpegAt10, emptySample)) = mpegAt10Sample"
    by (simp add: startSample_def Let_def reasonableDetectionSizeInBytes_def
        bufferTokenizer_simps mpegAt10_fresh)
  have B: "\<not> entersConsumingArm (snd (startSample (bufferTokenizer mpegAt10, emptySample)))"
    unfolding s by (simp add: entersConsumingArm_def mpegAt10Sample_conds)
  from detectConfident_frame [OF A B] A B show ?thesis by blast
qed

text \<open>
  The claim as stated, for every input, fails. On an EBML header whose document type
  is \<open>x\<close> the detector exits without a result at position 9, and on a JPEG 2000
  signature box followed by a file type box of brand \<open>jph \<close> at position 24; both
  were entered at position 0.
\<close>

theorem detectConfident_consumes_counterexample:
  "detectConfident 1 samplePlatform defaultOptions (bufferTokenizer ebmlDocTypeX, emptySample)
     = Inr (None, (bufferTokenizer ebmlDocTypeX\<lparr> position := 9 \<rparr>, ebmlDocTypeXSample))
   \<and> position (bufferTokenizer ebmlDocTypeX) = 0
   \<and> position (bufferTokenizer ebmlDocTypeX\<lparr> position := 9 \<rparr>) = 9
   \<and> detectConfident 1 samplePlatform defaultOptions (bufferTokenizer jphFile, emptySample)
     = Inr (None, (bufferTokenizer jphFile\<lparr> position := 24 \<rparr>, jphFileSample))
   \<and> position (bufferTokenizer jphFile) = 0
   \<and> position (bufferTokenizer jphFile\<lparr> position := 24 \<rparr>) = 24"
  unfolding One_nat_def detectConfident_ebmlDocTypeX detectConfident_jphFile
  by (simp add: bufferTokenizer_simps)

end
